(* ===== verification/Prelude.thy ===== *)
theory Prelude
  imports Main "HOL-Library.Word"
begin

text \<open>
  The language level of the development: what the Rust sources use of the language and of its
  standard library, shared by every component.

  \<^item> \<open>result\<close>, \<open>poll\<close> and \<open>outcome\<close> are \<open>Result\<close>, \<open>Poll\<close> and the two ways a call ends
    (it returns or it panics).
  \<^item> \<open>prog\<close> is a stateful computation over a world \<open>'w\<close>: \<open>None\<close> is "does not return", \<open>Panic\<close> is
    an unwinding panic with the world it leaves behind. \<open>pret\<close>, \<open>pbind\<close>, \<open>ppanic\<close> compose
    computations in program order.
  \<^item> \<open>rust_loop\<close> is \<open>loop { .. }\<close>: its body ends an iteration with \<open>Break\<close> or \<open>Continue\<close>. Its three
    rules (partial correctness by an invariant, total correctness by a variant, divergence) carry
    the loop proofs of every component.
  \<^item> \<open>trailing_zeros\<close>, \<open>parse_usize\<close>, \<open>split_on\<close>, \<open>join_with\<close> and \<open>from_utf8\<close> are the integer and string functions of the standard library
    that the sources call.
\<close>

named_theorems prog_simps \<open>computation rules of the program combinators\<close>

type_synonym u8 = "8 word"
type_synonym u16 = "16 word"
type_synonym u32 = "32 word"
type_synonym u64 = "64 word"

section \<open>Results, polls, panics\<close>

datatype ('a, 'e) result = Ok 'a | Err 'e

datatype 'a poll = Ready 'a | Pending

datatype 'a outcome = Return 'a | Panic string

fun is_ok :: "('a, 'e) result \<Rightarrow> bool" where
  "is_ok (Ok a) = True"
| "is_ok (Err e) = False"

fun map_err :: "('e \<Rightarrow> 'f) \<Rightarrow> ('a, 'e) result \<Rightarrow> ('a, 'f) result" where
  "map_err f (Ok a) = Ok a"
| "map_err f (Err e) = Err (f e)"

fun unwrap_or :: "('a, 'e) result \<Rightarrow> 'a \<Rightarrow> 'a" where
  "unwrap_or (Ok a) d = a"
| "unwrap_or (Err e) d = d"

fun result_ok :: "('a, 'e) result \<Rightarrow> 'a option" where
  "result_ok (Ok a) = Some a"
| "result_ok (Err e) = None"

lemma map_err_eq_simps [simp]:
  "map_err f r = Ok a \<longleftrightarrow> r = Ok a"
  "Ok a = map_err f r \<longleftrightarrow> r = Ok a"
  "map_err f r = Err e \<longleftrightarrow> (\<exists>e'. r = Err e' \<and> e = f e')"
  "is_ok (map_err f r) = is_ok r"
  by (cases r; auto)+

fun rbind :: "('a, 'e) result \<Rightarrow> ('a \<Rightarrow> ('b, 'e) result) \<Rightarrow> ('b, 'e) result" where
  "rbind (Ok a) f = f a"
| "rbind (Err e) f = Err e"

lemma rbind_cong [fundef_cong]:
  "m = m' \<Longrightarrow> (\<And>x. m' = Ok x \<Longrightarrow> f x = f' x) \<Longrightarrow> rbind m f = rbind m' f'"
  by (cases m') auto

lemma rbind_Ok_iff: "rbind m f = Ok b \<longleftrightarrow> (\<exists>a. m = Ok a \<and> f a = Ok b)"
  by (cases m) auto

lemma rbind_Ok [simp]: "rbind m Ok = m"
  by (cases m) auto

section \<open>Programs over a world\<close>

type_synonym ('w, 'a) prog = "'w \<Rightarrow> ('a outcome \<times> 'w) option"

definition pret :: "'a \<Rightarrow> ('w, 'a) prog" where
  "pret a = (\<lambda>w. Some (Return a, w))"

definition ppanic :: "string \<Rightarrow> ('w, 'a) prog" where
  "ppanic e = (\<lambda>w. Some (Panic e, w))"

definition pmodify :: "('w \<Rightarrow> 'w) \<Rightarrow> ('w, unit) prog" where
  "pmodify f = (\<lambda>w. Some (Return (), f w))"

definition pcall :: "('w \<Rightarrow> 'a \<times> 'w) \<Rightarrow> ('w, 'a) prog" where
  "pcall f = (\<lambda>w. case f w of (a, w') \<Rightarrow> Some (Return a, w'))"

definition pbind :: "('w, 'a) prog \<Rightarrow> ('a \<Rightarrow> ('w, 'b) prog) \<Rightarrow> ('w, 'b) prog" where
  "pbind m f = (\<lambda>w. case m w of None \<Rightarrow> None
     | Some (Return a, w') \<Rightarrow> f a w'
     | Some (Panic e, w') \<Rightarrow> Some (Panic e, w'))"

fun punwrap :: "string \<Rightarrow> ('a, 'e) result \<Rightarrow> ('w, 'a) prog" where
  "punwrap msg (Ok a) = pret a"
| "punwrap msg (Err e) = ppanic msg"

lemma pret_apply [simp, prog_simps]: "pret a w = Some (Return a, w)"
  by (simp add: pret_def)

lemma ppanic_apply [simp, prog_simps]: "ppanic e w = Some (Panic e, w)"
  by (simp add: ppanic_def)

lemma pmodify_apply [simp, prog_simps]: "pmodify f w = Some (Return (), f w)"
  by (simp add: pmodify_def)

lemma pcall_apply [simp, prog_simps]:
  "pcall f w = (case f w of (a, w') \<Rightarrow> Some (Return a, w'))"
  by (simp add: pcall_def)

lemma pbind_simps [simp, prog_simps]:
  "m w = None \<Longrightarrow> pbind m f w = None"
  "m w = Some (Return a, w') \<Longrightarrow> pbind m f w = f a w'"
  "m w = Some (Panic e, w') \<Longrightarrow> pbind m f w = Some (Panic e, w')"
  by (simp_all add: pbind_def)

lemma pbind_bool_simps [simp, prog_simps]:
  "b w = Some (Return True, w') \<Longrightarrow> pbind b g w = g True w'"
  "b w = Some (Return False, w') \<Longrightarrow> pbind b g w = g False w'"
  by (simp_all add: pbind_def)

lemma pbind_Return_iff:
  "pbind m f w = Some (Return b, w'') \<longleftrightarrow>
     (\<exists>a w'. m w = Some (Return a, w') \<and> f a w' = Some (Return b, w''))"
  by (auto simp: pbind_def split: option.splits outcome.splits)

lemma pbind_Panic_iff:
  "pbind m f w = Some (Panic e, w'') \<longleftrightarrow>
     m w = Some (Panic e, w'') \<or>
     (\<exists>a w'. m w = Some (Return a, w') \<and> f a w' = Some (Panic e, w''))"
  by (auto simp: pbind_def split: option.splits outcome.splits)

lemma pbind_None_iff:
  "pbind m f w = None \<longleftrightarrow>
     m w = None \<or> (\<exists>a w'. m w = Some (Return a, w') \<and> f a w' = None)"
  by (auto simp: pbind_def split: option.splits outcome.splits)

lemma pbind_ReturnE:
  assumes "pbind m f w = Some (Return b, w'')"
  obtains a w' where "m w = Some (Return a, w')" and "f a w' = Some (Return b, w'')"
  using assms by (auto simp: pbind_Return_iff)

lemmas pbind_iffs = pbind_Return_iff pbind_Panic_iff pbind_None_iff

lemma pbind_assoc: "pbind (pbind m f) g w = pbind m (\<lambda>a. pbind (f a) g) w"
  by (auto simp: pbind_def split: option.splits outcome.splits)

lemma pbind_mono [partial_function_mono]:
  assumes m: "\<And>w. mono_option (\<lambda>f. B f w)"
    and k: "\<And>a w. mono_option (\<lambda>f. C a f w)"
  shows "mono_option (\<lambda>f. pbind (B f) (\<lambda>a. C a f) w)"
proof -
  let ?D = "\<lambda>f x. case x of (Return a, w') \<Rightarrow> C a f w' | (Panic e, w') \<Rightarrow> Some (Panic e, w')"
  have eq: "pbind (B f) (\<lambda>a. C a f) w = Option.bind (B f w) (?D f)" for f
    by (auto simp: pbind_def split: option.splits outcome.splits)
  have "mono_option (\<lambda>f. ?D f x)" for x
    using k by (auto simp: monotone_def flat_ord_def split: prod.splits outcome.splits)
  then have "mono_option (\<lambda>f. Option.bind (B f w) (?D f))"
    by (intro bind_mono m)
  then show ?thesis by (simp add: eq)
qed

text \<open>\<open>keeps P m\<close>: whenever \<open>m\<close> returns, it has kept the property \<open>P\<close> of the world.\<close>

definition keeps :: "('w \<Rightarrow> bool) \<Rightarrow> ('w, 'a) prog \<Rightarrow> bool" where
  "keeps P m \<longleftrightarrow> (\<forall>w a w'. P w \<longrightarrow> m w = Some (Return a, w') \<longrightarrow> P w')"

lemma keepsD: "keeps P m \<Longrightarrow> m w = Some (Return a, w') \<Longrightarrow> P w \<Longrightarrow> P w'"
  unfolding keeps_def by blast

lemma keeps_pret [intro!]: "keeps P (pret a)"
  by (simp add: keeps_def)

lemma keeps_ppanic [intro!]: "keeps P (ppanic e)"
  by (simp add: keeps_def)

lemma keeps_pbind [intro!]: "keeps P m \<Longrightarrow> (\<And>a. keeps P (f a)) \<Longrightarrow> keeps P (pbind m f)"
  unfolding keeps_def pbind_Return_iff by (intro allI impI, elim exE conjE) blast

section \<open>Loops\<close>

datatype ('r, 's) flow = Break 'r | Continue 's

partial_function (option) rust_loop ::
  "('s \<Rightarrow> ('w, ('r, 's) flow) prog) \<Rightarrow> 's \<Rightarrow> 'w \<Rightarrow> ('r outcome \<times> 'w) option" where
  "rust_loop body s w =
     pbind (body s)
       (\<lambda>x w. case x of Break r \<Rightarrow> pret r w | Continue s' \<Rightarrow> rust_loop body s' w) w"

text \<open>\<open>for i in is { body }\<close>, with the variables the body assigns as the state \<open>s\<close>.\<close>

fun pfor :: "'i list \<Rightarrow> ('i \<Rightarrow> 's \<Rightarrow> ('w, 's) prog) \<Rightarrow> 's \<Rightarrow> ('w, 's) prog" where
  "pfor [] body s = pret s"
| "pfor (i # is) body s = pbind (body i s) (pfor is body)"

lemma rust_loop_Break:
  "body s w = Some (Return (Break r), w') \<Longrightarrow> rust_loop body s w = Some (Return r, w')"
  by (subst rust_loop.simps) simp

lemma rust_loop_Continue:
  "body s w = Some (Return (Continue s'), w') \<Longrightarrow> rust_loop body s w = rust_loop body s' w'"
  by (subst rust_loop.simps) simp

lemma rust_loop_Panic:
  "body s w = Some (Panic e, w') \<Longrightarrow> rust_loop body s w = Some (Panic e, w')"
  by (subst rust_loop.simps) simp

lemma rust_loop_invariant:
  assumes ret: "rust_loop body s w = Some res"
    and start: "Inv s w"
    and step: "\<And>s w s' w'. Inv s w \<Longrightarrow> body s w = Some (Return (Continue s'), w') \<Longrightarrow> Inv s' w'"
    and brk: "\<And>s w r w'. Inv s w \<Longrightarrow> body s w = Some (Return (Break r), w') \<Longrightarrow> Q (Return r, w')"
    and pan: "\<And>s w e w'. Inv s w \<Longrightarrow> body s w = Some (Panic e, w') \<Longrightarrow> Q (Panic e, w')"
  shows "Q res"
proof -
  have "(body = b \<longrightarrow> Inv s w \<longrightarrow> Q res)" if "rust_loop b s w = Some res" for b s w res
  proof (rule rust_loop.raw_induct
      [where P = "\<lambda>b s w res. body = b \<longrightarrow> Inv s w \<longrightarrow> Q res", OF _ that])
    fix f :: "('c \<Rightarrow> ('b, ('a, 'c) flow) prog) \<Rightarrow> 'c \<Rightarrow> 'b \<Rightarrow> ('a outcome \<times> 'b) option" and b s w res
    assume IH: "\<And>b s w res. f b s w = Some res \<Longrightarrow> body = b \<longrightarrow> Inv s w \<longrightarrow> Q res"
      and eq: "pbind (b s) (\<lambda>x w. case x of Break r \<Rightarrow> pret r w | Continue s' \<Rightarrow> f b s' w) w = Some res"
    show "body = b \<longrightarrow> Inv s w \<longrightarrow> Q res"
    proof (intro impI)
      assume b: "body = b" and inv: "Inv s w"
      note IH' = IH [of b, unfolded b, THEN mp, OF _ refl, THEN mp]
      from eq b show "Q res"
        using brk [OF inv] pan [OF inv] step [OF inv] IH'
        by (cases res) (auto simp: pbind_def split: option.splits outcome.splits flow.splits)
    qed
  qed
  with ret start show ?thesis by blast
qed

lemma rust_loop_total:
  fixes m :: "'s \<Rightarrow> 'w \<Rightarrow> nat"
  assumes start: "Inv s w"
    and step: "\<And>s w. Inv s w \<Longrightarrow>
      (\<exists>r w'. body s w = Some (Return (Break r), w') \<and> Q r w') \<or>
      (\<exists>s' w'. body s w = Some (Return (Continue s'), w') \<and> Inv s' w' \<and> m s' w' < m s w)"
  shows "\<exists>r w'. rust_loop body s w = Some (Return r, w') \<and> Q r w'"
  using start
proof (induction "m s w" arbitrary: s w rule: less_induct)
  case less
  from step [OF less.prems] show ?case
  proof (elim disjE exE conjE)
    fix r w' assume "body s w = Some (Return (Break r), w')" and "Q r w'"
    then show ?thesis by (auto simp: rust_loop_Break)
  next
    fix s' w' assume c: "body s w = Some (Return (Continue s'), w')"
      and "Inv s' w'" and "m s' w' < m s w"
    then show ?thesis using less.hyps by (simp add: rust_loop_Continue)
  qed
qed

lemma rust_loop_diverges:
  assumes start: "Inv s w"
    and step: "\<And>s w. Inv s w \<Longrightarrow>
      \<exists>s' w'. body s w = Some (Return (Continue s'), w') \<and> Inv s' w'"
  shows "rust_loop body s w = None"
proof (rule ccontr)
  assume "rust_loop body s w \<noteq> None"
  then obtain res where "rust_loop body s w = Some res" by blast
  then have False
    by (rule rust_loop_invariant [where Inv = Inv and Q = "\<lambda>_. False"]) (use start step in fastforce)+
  then show False .
qed

section \<open>Integers and strings of the standard library\<close>

text \<open>\<open>trailing_zeros\<close> of a \<open>k\<close>-bit integer: \<open>k\<close> for zero, the index of the lowest set bit otherwise.\<close>

fun trailing_zeros_bits :: "nat \<Rightarrow> nat \<Rightarrow> nat" where
  "trailing_zeros_bits 0 x = 0"
| "trailing_zeros_bits (Suc k) x = (if odd x then 0 else Suc (trailing_zeros_bits k (x div 2)))"

definition trailing_zeros :: "'a::len word \<Rightarrow> nat" where
  "trailing_zeros x = trailing_zeros_bits LENGTH('a) (unat x)"

lemma trailing_zeros_bits_le: "trailing_zeros_bits k x \<le> k"
  by (induction k arbitrary: x) auto

lemma trailing_zeros_bits_zero [simp]: "trailing_zeros_bits k 0 = k"
  by (induction k) auto

lemma trailing_zeros_bits_power [simp]:
  "m \<le> k \<Longrightarrow> trailing_zeros_bits k (2 ^ m) = m"
proof (induction k arbitrary: m)
  case 0
  then show ?case by simp
next
  case (Suc k)
  then show ?case by (cases m) auto
qed

lemma trailing_zeros_le: "trailing_zeros (x :: 'a::len word) \<le> LENGTH('a)"
  by (simp add: trailing_zeros_def trailing_zeros_bits_le)

text \<open>
  The decimal value of a string of digits, and \<open>str::parse\<close> for \<open>usize\<close> and \<open>i8\<close>: at least one digit, a
  sign in front (\<open>-\<close> only for a signed type), the value in the range of the type.
\<close>

fun digits_value :: "string \<Rightarrow> nat \<Rightarrow> nat option" where
  "digits_value [] acc = Some acc"
| "digits_value (c # cs) acc =
     (if (48::nat) \<le> of_char c \<and> (of_char c :: nat) \<le> 57
      then digits_value cs (10 * acc + (of_char c - 48)) else None)"

definition parse_usize :: "string \<Rightarrow> nat option" where
  "parse_usize cs =
     (let ds = (case cs of c # cs' \<Rightarrow> if c = CHR ''+'' then cs' else cs | [] \<Rightarrow> [])
      in if ds = [] then None
         else case digits_value ds 0 of
           None \<Rightarrow> None
         | Some n \<Rightarrow> if n < 2 ^ 64 then Some n else None)"

definition parse_i8 :: "string \<Rightarrow> int option" where
  "parse_i8 cs =
     (let neg = (cs \<noteq> [] \<and> hd cs = CHR ''-'');
          ds = (case cs of c # cs' \<Rightarrow> if c = CHR ''+'' \<or> c = CHR ''-'' then cs' else cs | [] \<Rightarrow> [])
      in if ds = [] then None
         else case digits_value ds 0 of
           None \<Rightarrow> None
         | Some n \<Rightarrow>
             let v = (if neg then - int n else int n)
             in if - 128 \<le> v \<and> v \<le> 127 then Some v else None)"

lemma parse_usize_bound: "parse_usize cs = Some n \<Longrightarrow> n < 2 ^ 64"
  by (auto simp: parse_usize_def Let_def split: if_splits option.splits list.splits)

text \<open>The decimal notation of a number (\<open>Display\<close> of the unsigned types).\<close>

definition digit :: "nat \<Rightarrow> char" where
  "digit d = char_of (48 + d)"

fun show_nat :: "nat \<Rightarrow> string" where
  "show_nat n = (if n < 10 then [digit n] else show_nat (n div 10) @ [digit (n mod 10)])"

declare show_nat.simps [simp del]

lemma of_char_digit [simp]: "d < 10 \<Longrightarrow> of_char (digit d) = (48 + d :: nat)"
  by (simp add: digit_def of_char_of)

lemma digits_value_append:
  "digits_value (xs @ ys) acc = Option.bind (digits_value xs acc) (digits_value ys)"
  by (induction xs arbitrary: acc) auto

lemma digits_value_show_nat [simp]: "digits_value (show_nat n) 0 = Some n"
proof (induction n rule: show_nat.induct)
  case (1 n)
  show ?case
  proof (cases "n < 10")
    case False
    with 1 show ?thesis
      by (subst show_nat.simps) (simp add: digits_value_append)
  qed (subst show_nat.simps, simp)
qed

lemma show_nat_inject [simp]: "show_nat m = show_nat n \<longleftrightarrow> m = n"
  by (metis digits_value_show_nat option.inject)

text \<open>\<open>str::split\<close> at a character, and \<open>join\<close> with a character in between.\<close>

fun split_on :: "char \<Rightarrow> string \<Rightarrow> string list" where
  "split_on c [] = [[]]"
| "split_on c (x # xs) = (if x = c then [] # split_on c xs
     else case split_on c xs of [] \<Rightarrow> [[x]] | p # ps \<Rightarrow> (x # p) # ps)"

fun join_with :: "char \<Rightarrow> string list \<Rightarrow> string" where
  "join_with c [] = []"
| "join_with c [x] = x"
| "join_with c (x # y # xs) = x @ c # join_with c (y # xs)"

lemma split_on_nonempty [simp]: "split_on c xs \<noteq> []"
  by (induction xs) (auto split: list.splits)

lemma split_on_no_sep: "p \<in> set (split_on c xs) \<Longrightarrow> c \<notin> set p"
proof (induction xs arbitrary: p)
  case (Cons x xs)
  then show ?case by (cases "split_on c xs") (auto split: if_splits)
qed simp

lemma split_on_append_sep: "c \<notin> set p \<Longrightarrow> split_on c (p @ c # xs) = p # split_on c xs"
  by (induction p) auto

lemma split_on_single: "c \<notin> set p \<Longrightarrow> split_on c p = [p]"
  by (induction p) auto

lemma split_join: "ps \<noteq> [] \<Longrightarrow> (\<And>p. p \<in> set ps \<Longrightarrow> c \<notin> set p) \<Longrightarrow> split_on c (join_with c ps) = ps"
  by (induction c ps rule: join_with.induct) (auto simp: split_on_append_sep split_on_single)

lemma join_split: "join_with c (split_on c xs) = xs"
proof (induction xs)
  case (Cons x xs)
  obtain p ps where ps: "split_on c xs = p # ps" by (cases "split_on c xs") auto
  with Cons show ?case by (cases ps) auto
qed simp

text \<open>
  \<open>std::str::from_utf8\<close> succeeds on the well-formed byte sequences of UTF-8: no overlong form, no
  surrogate, nothing above U+10FFFF.
\<close>

definition utf8_cont :: "u8 \<Rightarrow> bool" where
  "utf8_cont b \<longleftrightarrow> 0x80 \<le> b \<and> b \<le> 0xBF"

definition utf8_second :: "u8 \<Rightarrow> u8 \<Rightarrow> bool" where
  "utf8_second a b \<longleftrightarrow>
     (if a = 0xE0 then 0xA0 \<le> b \<and> b \<le> 0xBF
      else if a = 0xED then 0x80 \<le> b \<and> b \<le> 0x9F
      else if a = 0xF0 then 0x90 \<le> b \<and> b \<le> 0xBF
      else if a = 0xF4 then 0x80 \<le> b \<and> b \<le> 0x8F
      else utf8_cont b)"

definition utf8_len :: "u8 \<Rightarrow> nat option" where
  "utf8_len a =
     (if a < 0x80 then Some 1
      else if 0xC2 \<le> a \<and> a \<le> 0xDF then Some 2
      else if 0xE0 \<le> a \<and> a \<le> 0xEF then Some 3
      else if 0xF0 \<le> a \<and> a \<le> 0xF4 then Some 4 else None)"

function utf8_valid :: "u8 list \<Rightarrow> bool" where
  "utf8_valid [] = True"
| "utf8_valid (a # bs) =
     (case utf8_len a of None \<Rightarrow> False
      | Some n \<Rightarrow> n - 1 \<le> length bs
          \<and> (n = 1 \<or> utf8_second a (hd bs) \<and> list_all utf8_cont (take (n - 2) (tl bs)))
          \<and> utf8_valid (drop (n - 1) bs))"
  by pat_completeness auto
termination by (relation "measure length") auto

definition from_utf8 :: "u8 list \<Rightarrow> (u8 list, unit) result" where
  "from_utf8 bs = (if utf8_valid bs then Ok bs else Err ())"

lemma utf8_valid_ascii: "list_all (\<lambda>b. b < 0x80) bs \<Longrightarrow> utf8_valid bs"
  by (induction bs) (auto simp: utf8_len_def)

end
