(* ===== verification/Smoltcp_Api.thy ===== *)
theory Smoltcp_Api
  imports Prelude
begin

text \<open>
  The interface of the TCP/IP stack \<open>smoltcp\<close> that \<open>hermit-sys\<close> calls. The stack is a third-party
  crate, so its operations are the fields of the record \<open>smoltcp\<close>, an argument of every definition
  that uses one; the types of its interface, a TCP socket, a socket set, the Ethernet interface and
  the DHCP client are type parameters. What the development relies on of the stack is stated as the
  predicates at the end of this theory, which its theorems name as hypotheses.

  A mutating socket operation returns, beside its result and the new socket, the list of the wakers
  it called, so that the model delivers every wake-up the stack makes.
\<close>

type_synonym Tid = u32
type_synonym Handle = nat
type_synonym instant = int \<comment> \<open>\<open>smoltcp::time::Instant\<close>, in milliseconds\<close>
type_synonym duration = u64 \<comment> \<open>\<open>smoltcp::time::Duration\<close>, in milliseconds\<close>

text \<open>
  A \<open>Waker\<close> of the standard library is a pair of a data pointer and a vtable. Two kinds exist in
  \<open>hermit-sys\<close>: the one made from the \<open>ThreadNotify\<close> of a thread, and the one of a spawned task.
  \<open>will_wake\<close> compares the pairs.
\<close>

datatype Waker = ThreadWaker Tid | TaskWaker nat

definition will_wake :: "Waker \<Rightarrow> Waker \<Rightarrow> bool" where
  "will_wake a b \<longleftrightarrow> a = b"

datatype TcpState = Closed | Listen | SynSent | SynReceived | Established | FinWait1 | FinWait2
  | CloseWait | Closing | LastAck | TimeWait

datatype smoltcp_error = Exhausted | Illegal | Unaddressable | OtherError nat

datatype Ipv4Address = Ipv4Address u8 u8 u8 u8

datatype Ipv6Address = Ipv6Address "u8 list"

datatype IpAddress = Unspecified | Ipv4 Ipv4Address | Ipv6 Ipv6Address

datatype Ipv4Cidr = Ipv4Cidr (cidr_address: Ipv4Address) (cidr_prefix_len: nat)

datatype IpCidr = CidrV4 Ipv4Cidr | CidrV6 Ipv6Address nat

definition IPV4_UNSPECIFIED :: Ipv4Address where
  "IPV4_UNSPECIFIED = Ipv4Address 0 0 0 0"

record Dhcpv4Config =
  config_address :: "Ipv4Cidr option"
  config_router :: "Ipv4Address option"
  config_dns_servers :: "Ipv4Address option list"

type_synonym ('s, 'r) sock_op = "'s \<Rightarrow> 'r \<times> 's \<times> Waker list"

record ('ifc, 'set, 'sock, 'dhcp) smoltcp =
  TcpSocket_new :: "u8 list \<Rightarrow> u8 list \<Rightarrow> 'sock"
  TcpSocket_state :: "'sock \<Rightarrow> TcpState"
  TcpSocket_is_active :: "'sock \<Rightarrow> bool"
  TcpSocket_can_recv :: "'sock \<Rightarrow> bool"
  TcpSocket_may_recv :: "'sock \<Rightarrow> bool"
  TcpSocket_can_send :: "'sock \<Rightarrow> bool"
  TcpSocket_send_queue :: "'sock \<Rightarrow> nat"
  TcpSocket_remote_endpoint :: "'sock \<Rightarrow> IpAddress \<times> u16"
  TcpSocket_connect :: "IpAddress \<times> u16 \<Rightarrow> u16 \<Rightarrow> ('sock, (unit, smoltcp_error) result) sock_op"
  TcpSocket_listen :: "u16 \<Rightarrow> ('sock, (unit, smoltcp_error) result) sock_op"
  TcpSocket_recv_slice :: "nat \<Rightarrow> ('sock, (u8 list, smoltcp_error) result) sock_op"
  TcpSocket_send_slice :: "u8 list \<Rightarrow> ('sock, (nat, smoltcp_error) result) sock_op"
  TcpSocket_close :: "('sock, unit) sock_op"
  TcpSocket_register_send_waker :: "Waker \<Rightarrow> ('sock, unit) sock_op"
  TcpSocket_register_recv_waker :: "Waker \<Rightarrow> ('sock, unit) sock_op"
  TcpSocket_set_keep_alive :: "duration option \<Rightarrow> 'sock \<Rightarrow> 'sock"
  SocketSet_add :: "'sock \<Rightarrow> 'set \<Rightarrow> Handle \<times> 'set"
  SocketSet_get :: "'set \<Rightarrow> Handle \<Rightarrow> 'sock option"
  SocketSet_put :: "Handle \<Rightarrow> 'sock \<Rightarrow> 'set \<Rightarrow> 'set"
  Iface_poll :: "instant \<Rightarrow> 'ifc \<Rightarrow> 'set \<Rightarrow>
    (bool, smoltcp_error) result \<times> 'ifc \<times> 'set \<times> Waker list"
  Iface_poll_delay :: "instant \<Rightarrow> 'ifc \<Rightarrow> 'set \<Rightarrow> duration option"
  Iface_ip_addrs :: "'ifc \<Rightarrow> IpCidr list"
  Iface_update_ip_addrs :: "(IpCidr list \<Rightarrow> IpCidr list) \<Rightarrow> 'ifc \<Rightarrow> 'ifc"
  Iface_add_default_ipv4_route :: "Ipv4Address \<Rightarrow> 'ifc \<Rightarrow> (unit, smoltcp_error) result \<times> 'ifc"
  Dhcp_poll :: "instant \<Rightarrow> 'dhcp \<Rightarrow> 'ifc \<Rightarrow> 'set \<Rightarrow>
    (Dhcpv4Config option, smoltcp_error) result \<times> 'dhcp \<times> 'ifc \<times> 'set \<times> Waker list"
  IpAddress_from_str :: "u8 list \<Rightarrow> (IpAddress, unit) result"
  Instant_add :: "instant \<Rightarrow> duration \<Rightarrow> instant"

section \<open>What the theorems rely on of the stack\<close>

text \<open>
  A socket set behaves as a store indexed by handles: \<open>get\<close> after a write through the reference
  returned by \<open>get\<close> sees the write, other handles are not affected, and \<open>add\<close> returns a handle
  that was not in use. \<open>get\<close> of a handle that is not in the set panics (\<open>None\<close>).
\<close>

definition socket_set_laws :: "('ifc, 'set, 'sock, 'dhcp) smoltcp \<Rightarrow> bool" where
  "socket_set_laws api \<longleftrightarrow>
     (\<forall>ss h s h'. SocketSet_get api ss h \<noteq> None \<longrightarrow>
        SocketSet_get api (SocketSet_put api h s ss) h' =
          (if h' = h then Some s else SocketSet_get api ss h')) \<and>
     (\<forall>ss s h ss'. SocketSet_add api s ss = (h, ss') \<longrightarrow>
        SocketSet_get api ss h = None \<and>
        (\<forall>h'. SocketSet_get api ss' h' =
          (if h' = h then Some s else SocketSet_get api ss h')))"

text \<open>
  \<open>recv_slice\<close> never returns more than the buffer holds and \<open>send_slice\<close> never accepts more than
  it is given.
\<close>

definition slice_laws :: "('ifc, 'set, 'sock, 'dhcp) smoltcp \<Rightarrow> bool" where
  "slice_laws api \<longleftrightarrow>
     (\<forall>n s bs s' ws. TcpSocket_recv_slice api n s = (Ok bs, s', ws) \<longrightarrow> length bs \<le> n) \<and>
     (\<forall>bs s n s' ws. TcpSocket_send_slice api bs s = (Ok n, s', ws) \<longrightarrow> n \<le> length bs)"

text \<open>\<open>update_ip_addrs\<close> runs its closure on the address list, and the other operations keep it.\<close>

definition iface_addr_laws :: "('ifc, 'set, 'sock, 'dhcp) smoltcp \<Rightarrow> bool" where
  "iface_addr_laws api \<longleftrightarrow>
     (\<forall>f ifc. Iface_ip_addrs api (Iface_update_ip_addrs api f ifc) = f (Iface_ip_addrs api ifc)) \<and>
     (\<forall>r ifc. Iface_ip_addrs api (snd (Iface_add_default_ipv4_route api r ifc)) =
        Iface_ip_addrs api ifc) \<and>
     (\<forall>ts ifc ss r ifc' ss' ws. Iface_poll api ts ifc ss = (r, ifc', ss', ws) \<longrightarrow>
        Iface_ip_addrs api ifc' = Iface_ip_addrs api ifc) \<and>
     (\<forall>ts d ifc ss r d' ifc' ss' ws. Dhcp_poll api ts d ifc ss = (r, d', ifc', ss', ws) \<longrightarrow>
        Iface_ip_addrs api ifc' = Iface_ip_addrs api ifc)"

text \<open>Polling the interface or the DHCP client neither adds nor removes a socket.\<close>

definition iface_socket_laws :: "('ifc, 'set, 'sock, 'dhcp) smoltcp \<Rightarrow> bool" where
  "iface_socket_laws api \<longleftrightarrow>
     (\<forall>ts ifc ss r ifc' ss' ws h. Iface_poll api ts ifc ss = (r, ifc', ss', ws) \<longrightarrow>
        (SocketSet_get api ss' h = None \<longleftrightarrow> SocketSet_get api ss h = None)) \<and>
     (\<forall>ts d ifc ss r d' ifc' ss' ws h. Dhcp_poll api ts d ifc ss = (r, d', ifc', ss', ws) \<longrightarrow>
        (SocketSet_get api ss' h = None \<longleftrightarrow> SocketSet_get api ss h = None))"

lemma iface_addr_lawsD:
  assumes "iface_addr_laws api"
  shows "Iface_ip_addrs api (Iface_update_ip_addrs api f ifc) = f (Iface_ip_addrs api ifc)"
    and "Iface_add_default_ipv4_route api router ifc = (y, ifc') \<Longrightarrow>
      Iface_ip_addrs api ifc' = Iface_ip_addrs api ifc"
    and "Iface_poll api ts ifc ss = (r, ifc', ss', ws) \<Longrightarrow>
      Iface_ip_addrs api ifc' = Iface_ip_addrs api ifc"
    and "Dhcp_poll api ts d ifc ss = (x, d', ifc', ss', ws) \<Longrightarrow>
      Iface_ip_addrs api ifc' = Iface_ip_addrs api ifc"
  using assms unfolding iface_addr_laws_def by (blast, metis snd_conv, blast, blast)

lemma slice_lawsD:
  assumes "slice_laws api"
  shows "TcpSocket_recv_slice api n s = (Ok bs, s', ws) \<Longrightarrow> length bs \<le> n"
    and "TcpSocket_send_slice api bs s = (Ok m, s', ws) \<Longrightarrow> m \<le> length bs"
  using assms unfolding slice_laws_def by blast+

lemma iface_socket_lawsD:
  assumes "iface_socket_laws api"
  shows "Iface_poll api ts ifc ss = (r, ifc', ss', ws) \<Longrightarrow>
      SocketSet_get api ss' h = None \<longleftrightarrow> SocketSet_get api ss h = None"
    and "Dhcp_poll api ts d ifc ss = (x, d', ifc', ss', ws) \<Longrightarrow>
      SocketSet_get api ss' h = None \<longleftrightarrow> SocketSet_get api ss h = None"
  using assms unfolding iface_socket_laws_def by blast+

lemma socket_set_get_put:
  "socket_set_laws api \<Longrightarrow> SocketSet_get api ss h \<noteq> None \<Longrightarrow>
     SocketSet_get api (SocketSet_put api h s ss) h' =
       (if h' = h then Some s else SocketSet_get api ss h')"
  by (simp add: socket_set_laws_def)

lemma socket_set_add:
  "socket_set_laws api \<Longrightarrow> SocketSet_add api s ss = (h, ss') \<Longrightarrow>
     SocketSet_get api ss h = None \<and>
     SocketSet_get api ss' h' = (if h' = h then Some s else SocketSet_get api ss h')"
  by (simp add: socket_set_laws_def)

end
