(* ===== verification/Waker_Registration.thy ===== *)
theory Waker_Registration
  imports Smoltcp_Api
begin

text \<open>
  The waker slot of the network interface (\<open>hermit-sys/src/net/waker.rs\<close>). \<open>register\<close> and \<open>wake\<close>
  return the new slot and the list of the wakers they call. The locale \<open>waker_slot\<close> is the contract
  the network interface relies on; it is proved once that a slot with this contract loses no waker,
  and interpreted on the model of \<open>WakerRegistration\<close>.
\<close>

section \<open>The slot\<close>

record WakerRegistration =
  waker :: "Waker option"

definition WakerRegistration_new :: WakerRegistration where
  "WakerRegistration_new = \<lparr>waker = None\<rparr>"

definition WakerRegistration_register ::
    "Waker \<Rightarrow> WakerRegistration \<Rightarrow> WakerRegistration \<times> Waker list" where
  "WakerRegistration_register w self =
     (case waker self of
        Some w2 \<Rightarrow> if will_wake w2 w then (self, []) else (self\<lparr>waker := Some w\<rparr>, [w2])
      | None \<Rightarrow> (self\<lparr>waker := Some w\<rparr>, []))"

definition WakerRegistration_wake :: "WakerRegistration \<Rightarrow> WakerRegistration \<times> Waker list" where
  "WakerRegistration_wake self =
     (case waker self of
        Some w \<Rightarrow> (self\<lparr>waker := None\<rparr>, [w])
      | None \<Rightarrow> (self, []))"

section \<open>The contract of a slot\<close>

datatype slot_call = Register Waker | Wake

fun run_slot_calls ::
    "(Waker \<Rightarrow> 'slot \<Rightarrow> 'slot \<times> Waker list) \<Rightarrow> ('slot \<Rightarrow> 'slot \<times> Waker list) \<Rightarrow>
     slot_call list \<Rightarrow> 'slot \<Rightarrow> 'slot \<times> Waker list" where
  "run_slot_calls reg wk [] s = (s, [])"
| "run_slot_calls reg wk (Register w # cs) s =
     (case reg w s of (s1, ws) \<Rightarrow>
        (case run_slot_calls reg wk cs s1 of (s2, ws') \<Rightarrow> (s2, ws @ ws')))"
| "run_slot_calls reg wk (Wake # cs) s =
     (case wk s of (s1, ws) \<Rightarrow>
        (case run_slot_calls reg wk cs s1 of (s2, ws') \<Rightarrow> (s2, ws @ ws')))"

locale waker_slot =
  fixes empty :: 'slot
    and register :: "Waker \<Rightarrow> 'slot \<Rightarrow> 'slot \<times> Waker list"
    and wake :: "'slot \<Rightarrow> 'slot \<times> Waker list"
    and held :: "'slot \<Rightarrow> Waker option"
  assumes held_empty: "held empty = None"
    and held_register: "held (fst (register w s)) = Some w"
    and register_wakes: "set (snd (register w s)) = set_option (held s) - {w}"
    and held_wake: "held (fst (wake s)) = None"
    and wake_wakes: "snd (wake s) = (case held s of None \<Rightarrow> [] | Some w \<Rightarrow> [w])"
begin

lemma run_ConsE:
  assumes "run_slot_calls register wake (c # cs) s = (s', ws)"
  obtains s1 ws1 ws2 where "run_slot_calls register wake cs s1 = (s', ws2)" and "ws = ws1 @ ws2"
    and "(s1, ws1) = (case c of Register w \<Rightarrow> register w s | Wake \<Rightarrow> wake s)"
  using assms by (cases c) (auto split: prod.splits)

lemma step_keeps_or_wakes:
  assumes "(s1, ws1) = (case c of Register w \<Rightarrow> register w s | Wake \<Rightarrow> wake s)"
    and "held s = Some w"
  shows "held s1 = Some w \<or> w \<in> set ws1"
  using assms held_register [of _ s] register_wakes [of _ s] wake_wakes [of s]
  by (cases c) (metis DiffI empty_iff fst_conv insertE option.set_intros snd_conv slot_call.case(1),
      auto simp: prod_eq_iff)

lemma held_preserved:
  "run_slot_calls register wake cs s = (s', ws) \<Longrightarrow> held s = Some w \<Longrightarrow>
     held s' = Some w \<or> w \<in> set ws"
proof (induction cs arbitrary: s ws)
  case Nil
  then show ?case by simp
next
  case (Cons c cs)
  from Cons.prems(1) show ?case
    by (rule run_ConsE) (use Cons.IH Cons.prems(2) step_keeps_or_wakes in fastforce)
qed

lemma no_waker_lost:
  "run_slot_calls register wake cs s = (s', ws) \<Longrightarrow> Register w \<in> set cs \<Longrightarrow>
     held s' = Some w \<or> w \<in> set ws"
proof (induction cs arbitrary: s ws)
  case Nil
  then show ?case by simp
next
  case (Cons c cs)
  from Cons.prems(1) obtain s1 ws1 ws2 where run: "run_slot_calls register wake cs s1 = (s', ws2)"
    and ws: "ws = ws1 @ ws2"
    and step: "(s1, ws1) = (case c of Register w \<Rightarrow> register w s | Wake \<Rightarrow> wake s)"
    by (rule run_ConsE)
  show ?case
  proof (cases "c = Register w")
    case True
    with step held_register [of w s] have "held s1 = Some w" by (metis fst_conv slot_call.case(1))
    with held_preserved [OF run] ws show ?thesis by auto
  next
    case False
    with Cons.prems(2) Cons.IH [OF run] ws show ?thesis by auto
  qed
qed

lemma held_after_wake:
  "run_slot_calls register wake (cs @ [Wake]) s = (s', ws) \<Longrightarrow> held s' = None"
proof (induction cs arbitrary: s ws)
  case Nil
  then show ?case using held_wake [of s] by (simp split: prod.splits)
next
  case (Cons c cs)
  from Cons.prems have "run_slot_calls register wake (c # cs @ [Wake]) s = (s', ws)" by simp
  then show ?case by (rule run_ConsE) (rule Cons.IH)
qed

end

interpretation wreg: waker_slot WakerRegistration_new WakerRegistration_register
  WakerRegistration_wake waker
  by unfold_locales
    (auto simp: WakerRegistration_new_def WakerRegistration_register_def
      WakerRegistration_wake_def will_wake_def split: option.splits)

lemma register_new: "waker r = None \<Longrightarrow> WakerRegistration_register w r = (\<lparr>waker = Some w\<rparr>, [])"
  by (simp add: WakerRegistration_register_def)

lemma wake_Some: "waker r = Some w \<Longrightarrow> WakerRegistration_wake r = (\<lparr>waker = None\<rparr>, [w])"
  by (simp add: WakerRegistration_wake_def)

lemma wake_None: "waker r = None \<Longrightarrow> WakerRegistration_wake r = (r, [])"
  by (simp add: WakerRegistration_wake_def)

section \<open>Properties\<close>

text \<open>
  C26: the waker slot loses no wake-up. In any sequence of \<open>register\<close> and \<open>wake\<close> calls, every waker
  that was registered has either been woken (by \<open>wake\<close>, or because another waker displaced it) or is
  the one still held; a waker that is registered twice in a row is not cloned again.
\<close>
theorem waker_registration_loses_none:
  assumes "run_slot_calls WakerRegistration_register WakerRegistration_wake cs r = (r', ws)"
    and "Register w \<in> set cs"
  shows "waker r' = Some w \<or> w \<in> set ws"
  using assms by (rule wreg.no_waker_lost)

theorem waker_registration_loses_none_witness:
  "run_slot_calls WakerRegistration_register WakerRegistration_wake
     [Register (ThreadWaker 1), Register (ThreadWaker 1), Register (TaskWaker 0)] WakerRegistration_new
     = (\<lparr>waker = Some (TaskWaker 0)\<rparr>, [ThreadWaker 1])
   \<and> ThreadWaker 1 \<in> set [ThreadWaker 1]"
proof -
  let ?cs = "[Register (ThreadWaker 1), Register (ThreadWaker 1), Register (TaskWaker 0)]"
  have run: "run_slot_calls WakerRegistration_register WakerRegistration_wake ?cs WakerRegistration_new
     = (\<lparr>waker = Some (TaskWaker 0)\<rparr>, [ThreadWaker 1])"
    by (simp add: WakerRegistration_register_def WakerRegistration_new_def will_wake_def)
  from waker_registration_loses_none [OF run, of "ThreadWaker 1"] run show ?thesis by simp
qed

end
