(* ===== verification/Hermit_World.thy ===== *)
theory Hermit_World
  imports Waker_Registration
begin

text \<open>
  The state of \<open>hermit-sys\<close> and its surroundings.

  The record \<open>world\<close> holds the statics of the crate: the network interface behind the mutex \<open>NIC\<close>
  (with the poison flag of \<open>std::sync::Mutex\<close>), the counter \<open>LOCAL_ENDPOINT\<close> and the \<open>unparked\<close> flag
  of the \<open>ThreadNotify\<close> of every thread. Everything else (the kernel, the other threads, the network,
  the run queue) is the extension \<open>'x\<close> of the record. The functions the crate imports (the system
  calls of the kernel, whose sources are a submodule, the crates \<open>async-task\<close> and
  \<open>concurrent-queue\<close>, the clock) are the fields of \<open>kernel\<close>, an argument of the definitions.
\<close>

section \<open>State\<close>

record ('ifc, 'set, 'dhcp) NetworkInterface =
  iface :: 'ifc
  sockets :: 'set
  dhcp :: "'dhcp option" \<comment> \<open>\<open>None\<close> when the feature \<open>dhcpv4\<close> is off\<close>
  prev_cidr :: Ipv4Cidr
  nic_waker :: WakerRegistration

datatype ('ifc, 'set, 'dhcp) NetworkState =
    Missing
  | InitializationFailed
  | Initialized "('ifc, 'set, 'dhcp) NetworkInterface"

fun as_nic_mut :: "('ifc, 'set, 'dhcp) NetworkState \<Rightarrow>
    (('ifc, 'set, 'dhcp) NetworkInterface, string) result" where
  "as_nic_mut (Initialized nic) = Ok nic"
| "as_nic_mut _ = Err ''Network is not initialized!''"

fun is_initialized :: "('ifc, 'set, 'dhcp) NetworkState \<Rightarrow> bool" where
  "is_initialized (Initialized nic) = True"
| "is_initialized _ = False"

record ('ifc, 'set, 'dhcp) world =
  nic_poisoned :: bool
  nic_state :: "('ifc, 'set, 'dhcp) NetworkState"
  LOCAL_ENDPOINT :: u16
  unparked :: "Tid \<Rightarrow> bool"

text \<open>The futures that are spawned on the executor; \<open>network_init\<close> spawns the only one.\<close>

datatype task_code = NetworkRun

section \<open>Imported functions\<close>

record ('w, 'r) kernel =
  sys_getpid :: "'w \<Rightarrow> Tid"
  sys_yield :: "('w, unit) prog"
  sys_wakeup_task :: "Tid \<Rightarrow> 'w \<Rightarrow> 'w"
  sys_set_network_polling_mode :: "bool \<Rightarrow> 'w \<Rightarrow> 'w"
  sys_block_current_task_with_timeout :: "u64 \<Rightarrow> 'w \<Rightarrow> 'w"
  sys_block_current_task :: "'w \<Rightarrow> 'w"
  sys_spawn_nic_thread :: "u8 \<Rightarrow> int \<Rightarrow> 'w \<Rightarrow> int \<times> 'w"
  sys_netwait :: "('w, unit) prog"
  read_counter :: "'w \<Rightarrow> u64 \<times> 'w"
  instant_now :: "'w \<Rightarrow> instant \<times> 'w"
  queue_push :: "'r \<Rightarrow> 'w \<Rightarrow> (unit, unit) result \<times> 'w"
  queue_pop :: "'w \<Rightarrow> 'r option \<times> 'w"
  task_spawn :: "task_code \<Rightarrow> 'w \<Rightarrow> 'r \<times> 'w"
  task_wake :: "('r \<Rightarrow> ('w, unit) prog) \<Rightarrow> nat \<Rightarrow> ('w, unit) prog"
  runnable_run :: "(task_code \<Rightarrow> Waker \<Rightarrow> ('w, unit poll) prog) \<Rightarrow>
    ('r \<Rightarrow> ('w, unit) prog) \<Rightarrow> 'r \<Rightarrow> ('w, unit) prog"

type_synonym ('ifc, 'set, 'dhcp, 'x, 'r) hkernel =
  "(('ifc, 'set, 'dhcp, 'x) world_scheme, 'r) kernel"

section \<open>Waking\<close>

text \<open>\<open>ThreadNotify::wake_by_ref\<close>: the swap of the flag, and the system call if it was clear.\<close>

definition wake_by_ref :: "('ifc, 'set, 'dhcp, 'x, 'r) hkernel \<Rightarrow> Tid \<Rightarrow>
    ('ifc, 'set, 'dhcp, 'x) world_scheme \<Rightarrow> ('ifc, 'set, 'dhcp, 'x) world_scheme" where
  "wake_by_ref k thread w =
     (let was_unparked = unparked w thread;
          w' = w\<lparr>unparked := (unparked w)(thread := True)\<rparr>
      in if \<not> was_unparked then sys_wakeup_task k thread w' else w')"

text \<open>The closure \<open>schedule\<close> of \<open>spawn\<close>: a woken task goes to the run queue.\<close>

definition schedule :: "('ifc, 'set, 'dhcp, 'x, 'r) hkernel \<Rightarrow> 'r \<Rightarrow>
    (('ifc, 'set, 'dhcp, 'x) world_scheme, unit) prog" where
  "schedule k r = pbind (pcall (queue_push k r)) (punwrap ''PushError'')"

fun wake_waker :: "('ifc, 'set, 'dhcp, 'x, 'r) hkernel \<Rightarrow> Waker \<Rightarrow>
    (('ifc, 'set, 'dhcp, 'x) world_scheme, unit) prog" where
  "wake_waker k (ThreadWaker thread) = pmodify (wake_by_ref k thread)"
| "wake_waker k (TaskWaker task) = task_wake k (schedule k) task"

fun wake_all :: "('ifc, 'set, 'dhcp, 'x, 'r) hkernel \<Rightarrow> Waker list \<Rightarrow>
    (('ifc, 'set, 'dhcp, 'x) world_scheme, unit) prog" where
  "wake_all k [] = pret ()"
| "wake_all k (w # ws) = pbind (wake_waker k w) (\<lambda>_. wake_all k ws)"

section \<open>The mutex \<open>NIC\<close>\<close>

text \<open>
  \<open>NIC.lock().unwrap()\<close>, the body run with the guard held, and the guard dropped: a poisoned mutex
  panics, a panic of the body poisons it.
\<close>

definition nic_lock :: "(('ifc, 'set, 'dhcp, 'x) world_scheme, 'a) prog \<Rightarrow>
    (('ifc, 'set, 'dhcp, 'x) world_scheme, 'a) prog" where
  "nic_lock body = (\<lambda>w.
     if nic_poisoned w then Some (Panic ''PoisonError'', w)
     else case body w of None \<Rightarrow> None
       | Some (Return a, w') \<Rightarrow> Some (Return a, w')
       | Some (Panic e, w') \<Rightarrow> Some (Panic e, w'\<lparr>nic_poisoned := True\<rparr>))"

definition set_nic :: "('ifc, 'set, 'dhcp) NetworkInterface \<Rightarrow>
    ('ifc, 'set, 'dhcp, 'x) world_scheme \<Rightarrow> ('ifc, 'set, 'dhcp, 'x) world_scheme" where
  "set_nic nic w = w\<lparr>nic_state := Initialized nic\<rparr>"

lemma nic_lock_poisoned [simp, prog_simps]:
  "nic_poisoned w \<Longrightarrow> nic_lock body w = Some (Panic ''PoisonError'', w)"
  by (simp add: nic_lock_def)

lemma nic_lock_Return_iff:
  "nic_lock body w = Some (Return a, w') \<longleftrightarrow> \<not> nic_poisoned w \<and> body w = Some (Return a, w')"
  by (auto simp: nic_lock_def split: option.splits outcome.splits)

lemma nic_lock_Return [simp, prog_simps]:
  "\<not> nic_poisoned w \<Longrightarrow> body w = Some (Return a, w') \<Longrightarrow> nic_lock body w = Some (Return a, w')"
  by (simp add: nic_lock_def)

lemma nic_lock_Panic [simp, prog_simps]:
  "\<not> nic_poisoned w \<Longrightarrow> body w = Some (Panic e, w') \<Longrightarrow>
     nic_lock body w = Some (Panic e, w'\<lparr>nic_poisoned := True\<rparr>)"
  by (simp add: nic_lock_def)

lemma nic_lock_None [simp, prog_simps]:
  "\<not> nic_poisoned w \<Longrightarrow> body w = None \<Longrightarrow> nic_lock body w = None"
  by (simp add: nic_lock_def)

lemma nic_lock_panics_poisoned:
  "nic_lock body w = Some (Panic e, w') \<Longrightarrow> nic_poisoned w'"
  by (auto simp: nic_lock_def split: if_splits option.splits outcome.splits)

lemma as_nic_mut_cases:
  "as_nic_mut s = Ok nic \<longleftrightarrow> s = Initialized nic"
  "as_nic_mut s = Err e \<longleftrightarrow> \<not> is_initialized s \<and> e = ''Network is not initialized!''"
  by (cases s; auto)+

lemma is_initialized_iff: "is_initialized s \<longleftrightarrow> (\<exists>nic. s = Initialized nic)"
  by (cases s) auto

section \<open>What the theorems rely on of the imported functions\<close>

text \<open>
  While one thread holds the guard of \<open>NIC\<close>, waking a thread or a task leaves the statics of
  \<open>hermit-sys\<close> alone: the calls only touch the scheduler of the kernel and the run queue.
\<close>

definition wake_frame :: "('ifc, 'set, 'dhcp, 'x, 'r) hkernel \<Rightarrow> bool" where
  "wake_frame k \<longleftrightarrow>
     (\<forall>t w. \<exists>x. sys_wakeup_task k t w = world.more_update (\<lambda>_. x) w) \<and>
     (\<forall>t w. \<exists>x. task_wake k (schedule k) t w = Some (Return (), world.more_update (\<lambda>_. x) w))"

definition same_statics :: "('ifc, 'set, 'dhcp, 'x) world_scheme \<Rightarrow>
    ('ifc, 'set, 'dhcp, 'x) world_scheme \<Rightarrow> bool" where
  "same_statics w w' \<longleftrightarrow> nic_poisoned w' = nic_poisoned w \<and> nic_state w' = nic_state w
     \<and> LOCAL_ENDPOINT w' = LOCAL_ENDPOINT w"

lemma same_statics_refl [simp]: "same_statics w w"
  by (simp add: same_statics_def)

lemma same_statics_trans: "same_statics w w' \<Longrightarrow> same_statics w' w'' \<Longrightarrow> same_statics w w''"
  by (simp add: same_statics_def)

lemma wake_by_ref_frame:
  assumes "wake_frame k"
  shows "\<exists>x. wake_by_ref k t w =
    world.more_update (\<lambda>_. x) (w\<lparr>unparked := (unparked w)(t := True)\<rparr>)"
proof (cases "unparked w t")
  case True
  then show ?thesis
    by (intro exI [of _ "world.more w"]) (simp add: wake_by_ref_def)
next
  case False
  with assms show ?thesis by (simp add: wake_by_ref_def wake_frame_def)
qed

lemma wake_waker_frame:
  assumes "wake_frame k"
  shows "\<exists>w'. wake_waker k wk w = Some (Return (), w') \<and> same_statics w w'"
proof (cases wk)
  case (ThreadWaker t)
  with wake_by_ref_frame [OF assms, of t w] show ?thesis by (auto simp: same_statics_def)
next
  case (TaskWaker t)
  from assms obtain x where
    "task_wake k (schedule k) t w = Some (Return (), world.more_update (\<lambda>_. x) w)"
    unfolding wake_frame_def by blast
  with TaskWaker show ?thesis by (simp add: same_statics_def)
qed

lemma wake_all_frame:
  assumes "wake_frame k"
  shows "\<exists>w'. wake_all k ws w = Some (Return (), w') \<and> same_statics w w'"
proof (induction ws arbitrary: w)
  case Nil
  then show ?case by simp
next
  case (Cons wk ws)
  from wake_waker_frame [OF assms, of wk w] obtain w1
    where "wake_waker k wk w = Some (Return (), w1)" and "same_statics w w1" by blast
  with Cons.IH [of w1] show ?case by (auto intro: same_statics_trans)
qed

lemma wake_by_ref_unparked:
  "wake_frame k \<Longrightarrow> unparked (wake_by_ref k t w) = (unparked w)(t := True)"
  using wake_by_ref_frame [of k t w] by auto

text \<open>
  Reading the clock and switching the polling mode leave the statics alone as well. This excludes that
  another thread uses the interface while the caller is in the kernel; \<open>executor_laws\<close> of \<open>Tcp_Stream\<close> is
  the hypothesis without that restriction.
\<close>

definition kernel_frame :: "('ifc, 'set, 'dhcp, 'x, 'r) hkernel \<Rightarrow> bool" where
  "kernel_frame k \<longleftrightarrow> wake_frame k \<and>
     (\<forall>b w. \<exists>x. sys_set_network_polling_mode k b w = world.more_update (\<lambda>_. x) w) \<and>
     (\<forall>w. \<exists>x. snd (instant_now k w) = world.more_update (\<lambda>_. x) w)"

lemma kernel_frame_wake [intro]: "kernel_frame k \<Longrightarrow> wake_frame k"
  by (simp add: kernel_frame_def)

lemma kernel_frame_mode:
  assumes "kernel_frame k"
  shows "same_statics w (sys_set_network_polling_mode k b w)"
proof -
  from assms obtain x where "sys_set_network_polling_mode k b w = world.more_update (\<lambda>_. x) w"
    unfolding kernel_frame_def by blast
  then show ?thesis by (simp add: same_statics_def)
qed

lemma kernel_frame_now:
  assumes "kernel_frame k" and "instant_now k w = (now, w')"
  shows "same_statics w w'"
proof -
  from assms obtain x where "w' = world.more_update (\<lambda>_. x) w"
    unfolding kernel_frame_def by (metis snd_conv)
  then show ?thesis by (simp add: same_statics_def)
qed

end
