(* ===== verification/Example_Stack.thy ===== *)
theory Example_Stack
  imports Hermit_World
begin

text \<open>
  A concrete instance of the two parameters of the network model, on which the witnesses evaluate
  the theorems: \<open>demo_stack\<close> is a small TCP stack with the interface of \<open>smoltcp\<close> (sockets are indexed
  by position, one poll of the interface completes pending handshakes), \<open>demo_kernel\<close> a kernel that
  logs the calls it gets, counts its clock up by one per reading and keeps a first-in first-out run
  queue. It models no code of the repository.
\<close>

section \<open>A stack\<close>

record demo_sock =
  sk_state :: TcpState
  sk_rx :: "u8 list"
  sk_tx :: "u8 list"
  sk_send_waker :: "Waker option"
  sk_recv_waker :: "Waker option"
  sk_keep_alive :: "duration option"
  sk_remote :: "IpAddress \<times> u16"

record demo_ifc =
  if_work :: nat
  if_addrs :: "IpCidr list"
  if_routes :: "Ipv4Address list"

definition demo_closed :: demo_sock where
  "demo_closed = \<lparr>sk_state = Closed, sk_rx = [], sk_tx = [], sk_send_waker = None,
     sk_recv_waker = None, sk_keep_alive = None, sk_remote = (Unspecified, 0)\<rparr>"

definition demo_establish :: "demo_sock \<Rightarrow> demo_sock" where
  "demo_establish s = (if sk_state s = SynSent then s\<lparr>sk_state := Established, sk_send_waker := None\<rparr> else s)"

definition demo_established_wakers :: "demo_sock list \<Rightarrow> Waker list" where
  "demo_established_wakers ss =
     concat (map (\<lambda>s. if sk_state s = SynSent then (case sk_send_waker s of None \<Rightarrow> [] | Some w \<Rightarrow> [w])
       else []) ss)"

definition demo_iface_poll :: "instant \<Rightarrow> demo_ifc \<Rightarrow> demo_sock list \<Rightarrow>
    (bool, smoltcp_error) result \<times> demo_ifc \<times> demo_sock list \<times> Waker list" where
  "demo_iface_poll ts ifc ss =
     (if if_work ifc = 0 then (Ok False, ifc, ss, [])
      else (Ok True, ifc\<lparr>if_work := if_work ifc - 1\<rparr>, map demo_establish ss,
            demo_established_wakers ss))"

definition demo_close :: "demo_sock \<Rightarrow> unit \<times> demo_sock \<times> Waker list" where
  "demo_close s = ((), s\<lparr>sk_state :=
     (case sk_state s of Established \<Rightarrow> FinWait1 | CloseWait \<Rightarrow> LastAck | Listen \<Rightarrow> Closed
      | SynSent \<Rightarrow> Closed | SynReceived \<Rightarrow> FinWait1 | st \<Rightarrow> st)\<rparr>, [])"

definition demo_stack ::
    "(demo_ifc, demo_sock list, demo_sock, Dhcpv4Config option) smoltcp" where
  "demo_stack = \<lparr>
     TcpSocket_new = (\<lambda>rx tx. demo_closed),
     TcpSocket_state = sk_state,
     TcpSocket_is_active = (\<lambda>s. sk_state s \<notin> {Closed, TimeWait, Listen}),
     TcpSocket_can_recv = (\<lambda>s. sk_rx s \<noteq> []),
     TcpSocket_may_recv = (\<lambda>s. sk_state s \<in> {Established, FinWait1, FinWait2} \<or> sk_rx s \<noteq> []),
     TcpSocket_can_send = (\<lambda>s. sk_state s \<in> {Established, CloseWait} \<and> length (sk_tx s) < 65535),
     TcpSocket_send_queue = (\<lambda>s. length (sk_tx s)),
     TcpSocket_remote_endpoint = sk_remote,
     TcpSocket_connect = (\<lambda>remote local s.
       if sk_state s = Closed \<and> local \<noteq> 0
       then (Ok (), s\<lparr>sk_state := SynSent, sk_remote := remote, sk_rx := [], sk_tx := []\<rparr>, []) else (Err Illegal, s, [])),
     TcpSocket_listen = (\<lambda>port s.
       if sk_state s = Closed \<and> port \<noteq> 0
       then (Ok (), s\<lparr>sk_state := Listen, sk_rx := [], sk_tx := []\<rparr>, []) else (Err Illegal, s, [])),
     TcpSocket_recv_slice = (\<lambda>n s. (Ok (take n (sk_rx s)), s\<lparr>sk_rx := drop n (sk_rx s)\<rparr>, [])),
     TcpSocket_send_slice = (\<lambda>bs s. (Ok (length bs), s\<lparr>sk_tx := sk_tx s @ bs\<rparr>, [])),
     TcpSocket_close = demo_close,
     TcpSocket_register_send_waker = (\<lambda>w s. ((), s\<lparr>sk_send_waker := Some w\<rparr>, [])),
     TcpSocket_register_recv_waker = (\<lambda>w s. ((), s\<lparr>sk_recv_waker := Some w\<rparr>, [])),
     TcpSocket_set_keep_alive = (\<lambda>d s. s\<lparr>sk_keep_alive := d\<rparr>),
     SocketSet_add = (\<lambda>s ss. (length ss, ss @ [s])),
     SocketSet_get = (\<lambda>ss h. if h < length ss then Some (ss ! h) else None),
     SocketSet_put = (\<lambda>h s ss. ss[h := s]),
     Iface_poll = demo_iface_poll,
     Iface_poll_delay = (\<lambda>ts ifc ss. if if_work ifc = 0 then None else Some 0),
     Iface_ip_addrs = if_addrs,
     Iface_update_ip_addrs = (\<lambda>f ifc. ifc\<lparr>if_addrs := f (if_addrs ifc)\<rparr>),
     Iface_add_default_ipv4_route = (\<lambda>r ifc. (Ok (), ifc\<lparr>if_routes := r # if_routes ifc\<rparr>)),
     Dhcp_poll = (\<lambda>ts offer ifc ss. (Ok offer, None, ifc, ss, [])),
     IpAddress_from_str = (\<lambda>bs. if bs = [] then Err () else Ok (Ipv4 (Ipv4Address 10 0 5 1))),
     Instant_add = (\<lambda>i d. i + int (unat d))\<rparr>"

lemma demo_socket_set_laws: "socket_set_laws demo_stack"
  by (auto simp: socket_set_laws_def demo_stack_def nth_append split: if_splits)

lemma demo_slice_laws: "slice_laws demo_stack"
  by (auto simp: slice_laws_def demo_stack_def)

lemma demo_iface_addr_laws: "iface_addr_laws demo_stack"
  by (auto simp: iface_addr_laws_def demo_stack_def demo_iface_poll_def split: if_splits)

lemma demo_iface_socket_laws: "iface_socket_laws demo_stack"
  by (auto simp: iface_socket_laws_def demo_stack_def demo_iface_poll_def split: if_splits)

section \<open>A kernel\<close>

datatype demo_call = Wakeup Tid | PollingMode bool | Block "u64 option" | SpawnNic | Yield

record demo_env =
  env_log :: "demo_call list"
  env_queue :: "nat list"
  env_clock :: int

type_synonym demo_world =
  "(demo_ifc, demo_sock list, Dhcpv4Config option, demo_env) world_scheme"

definition demo_log :: "demo_call \<Rightarrow> demo_world \<Rightarrow> demo_world" where
  "demo_log c = world.more_update (\<lambda>e. e\<lparr>env_log := env_log e @ [c]\<rparr>)"

definition demo_kernel :: "(demo_world, nat) kernel" where
  "demo_kernel = \<lparr>
     sys_getpid = (\<lambda>w. 7),
     sys_yield = pmodify (demo_log Yield),
     sys_wakeup_task = (\<lambda>t. demo_log (Wakeup t)),
     sys_set_network_polling_mode = (\<lambda>b. demo_log (PollingMode b)),
     sys_block_current_task_with_timeout = (\<lambda>d. demo_log (Block (Some d))),
     sys_block_current_task = demo_log (Block None),
     sys_spawn_nic_thread = (\<lambda>prio sel w. (0, demo_log SpawnNic w)),
     sys_netwait = (\<lambda>w. None),
     read_counter = (\<lambda>w. (5, w)),
     instant_now = (\<lambda>w. (env_clock (world.more w),
       world.more_update (\<lambda>e. e\<lparr>env_clock := env_clock e + 1\<rparr>) w)),
     queue_push = (\<lambda>r w. (Ok (), world.more_update (\<lambda>e. e\<lparr>env_queue := env_queue e @ [r]\<rparr>) w)),
     queue_pop = (\<lambda>w. case env_queue (world.more w) of
         [] \<Rightarrow> (None, w)
       | r # rs \<Rightarrow> (Some r, world.more_update (\<lambda>e. e\<lparr>env_queue := rs\<rparr>) w)),
     task_spawn = (\<lambda>c w. (0, w)),
     task_wake = (\<lambda>sched i w. if i \<in> set (env_queue (world.more w)) then pret () w else sched i w),
     runnable_run = (\<lambda>fut sched r. pbind (fut NetworkRun (TaskWaker r)) (\<lambda>_. pret ()))\<rparr>"

lemma demo_kernel_sels:
  "sys_getpid demo_kernel w = 7"
  "sys_set_network_polling_mode demo_kernel b = demo_log (PollingMode b)"
  "instant_now demo_kernel w = (env_clock (world.more w),
     world.more_update (\<lambda>e. e\<lparr>env_clock := env_clock e + 1\<rparr>) w)"
  by (simp_all add: demo_kernel_def)

lemma demo_wake_frame: "wake_frame demo_kernel"
  unfolding wake_frame_def
proof (intro conjI allI)
  fix t :: Tid and w :: demo_world
  show "\<exists>x. sys_wakeup_task demo_kernel t w = world.more_update (\<lambda>_. x) w"
    by (cases w) (auto simp: demo_kernel_def demo_log_def)
next
  fix t :: nat and w :: demo_world
  show "\<exists>x. task_wake demo_kernel (schedule demo_kernel) t w =
      Some (Return (), world.more_update (\<lambda>_. x) w)"
    by (cases w) (auto simp: demo_kernel_def schedule_def pbind_def)
qed

lemma demo_kernel_frame: "kernel_frame demo_kernel"
  unfolding kernel_frame_def
proof (intro conjI allI demo_wake_frame)
  fix b and w :: demo_world
  show "\<exists>x. sys_set_network_polling_mode demo_kernel b w = world.more_update (\<lambda>_. x) w"
    by (cases w) (auto simp: demo_kernel_def demo_log_def)
next
  fix w :: demo_world
  show "\<exists>x. snd (instant_now demo_kernel w) = world.more_update (\<lambda>_. x) w"
    by (cases w) (auto simp: demo_kernel_def)
qed

definition demo_nic :: "(demo_ifc, demo_sock list, Dhcpv4Config option) NetworkInterface" where
  "demo_nic = \<lparr>iface = \<lparr>if_work = 1, if_addrs = [CidrV4 (Ipv4Cidr IPV4_UNSPECIFIED 0)], if_routes = []\<rparr>,
     sockets = [], dhcp = None, prev_cidr = Ipv4Cidr IPV4_UNSPECIFIED 0,
     nic_waker = \<lparr>waker = Some (TaskWaker 0)\<rparr>\<rparr>"

definition demo_world0 :: demo_world where
  "demo_world0 = \<lparr>nic_poisoned = False, nic_state = Initialized demo_nic, LOCAL_ENDPOINT = 5,
     unparked = (\<lambda>_. False), env_log = [], env_queue = [], env_clock = 0\<rparr>"

lemmas demo_defs = demo_stack_def demo_kernel_def demo_nic_def demo_world0_def demo_log_def
  demo_iface_poll_def demo_closed_def

end
