(* ===== verification/Network_Interface.thy ===== *)
theory Network_Interface
  imports Example_Stack
begin

text \<open>
  The network interface of \<open>hermit-sys/src/net/mod.rs\<close>: the methods of \<open>NetworkInterface\<close>, the
  future \<open>network_run\<close> that the executor polls and the thread \<open>nic_thread\<close>. A method with a
  \<open>&mut self\<close> receiver takes the interface and returns the new one; the functions that take the
  guard of \<open>NIC\<close> write it back.

  The lemmas show when \<open>poll_common\<close> returns and in which state (the stack reports no more work), and
  that the address the DHCP client assigned stays the first address of the interface.
\<close>

section \<open>Methods of the interface\<close>

definition create_handle :: "('ifc, 'set, 'sock, 'dhcp) smoltcp \<Rightarrow>
    ('ifc, 'set, 'dhcp) NetworkInterface \<Rightarrow>
    (Handle, unit) result \<times> ('ifc, 'set, 'dhcp) NetworkInterface" where
  "create_handle api nic =
     (let tcp_rx_buffer = replicate 65535 0;
          tcp_tx_buffer = replicate 65535 0;
          tcp_socket = TcpSocket_new api tcp_rx_buffer tcp_tx_buffer;
          (tcp_handle, ss) = SocketSet_add api tcp_socket (sockets nic)
      in (Ok tcp_handle, nic\<lparr>sockets := ss\<rparr>))"

definition nic_wake :: "('ifc, 'set, 'dhcp, 'x, 'r) hkernel \<Rightarrow>
    ('ifc, 'set, 'dhcp) NetworkInterface \<Rightarrow>
    (('ifc, 'set, 'dhcp, 'x) world_scheme, ('ifc, 'set, 'dhcp) NetworkInterface) prog" where
  "nic_wake k nic =
     (case WakerRegistration_wake (nic_waker nic) of (reg, ws) \<Rightarrow>
        pbind (wake_all k ws) (\<lambda>_. pret (nic\<lparr>nic_waker := reg\<rparr>)))"

text \<open>The loop that polls the interface; an error counts as progress (\<open>unwrap_or(true)\<close>).\<close>

definition iface_poll_body :: "('ifc, 'set, 'sock, 'dhcp) smoltcp \<Rightarrow>
    ('ifc, 'set, 'dhcp, 'x, 'r) hkernel \<Rightarrow> instant \<Rightarrow> ('ifc, 'set, 'dhcp) NetworkInterface \<Rightarrow>
    (('ifc, 'set, 'dhcp, 'x) world_scheme,
     (('ifc, 'set, 'dhcp) NetworkInterface, ('ifc, 'set, 'dhcp) NetworkInterface) flow) prog" where
  "iface_poll_body api k timestamp nic =
     (case Iface_poll api timestamp (iface nic) (sockets nic) of (r, ifc, ss, ws) \<Rightarrow>
        pbind (wake_all k ws) (\<lambda>_.
          let nic' = nic\<lparr>iface := ifc, sockets := ss\<rparr>
          in pret (if unwrap_or r True then Continue nic' else Break nic')))"

definition iface_poll_loop :: "('ifc, 'set, 'sock, 'dhcp) smoltcp \<Rightarrow>
    ('ifc, 'set, 'dhcp, 'x, 'r) hkernel \<Rightarrow> instant \<Rightarrow> ('ifc, 'set, 'dhcp) NetworkInterface \<Rightarrow>
    (('ifc, 'set, 'dhcp, 'x) world_scheme, ('ifc, 'set, 'dhcp) NetworkInterface) prog" where
  "iface_poll_loop api k timestamp nic = rust_loop (iface_poll_body api k timestamp) nic"

text \<open>The closure passed to \<open>update_ip_addrs\<close>: it overwrites the first address.\<close>

fun set_first_addr :: "IpCidr \<Rightarrow> IpCidr list \<Rightarrow> IpCidr list" where
  "set_first_addr c [] = []"
| "set_first_addr c (a # as) = c # as"

definition is_unspecified :: "Ipv4Address \<Rightarrow> bool" where
  "is_unspecified a \<longleftrightarrow> a = IPV4_UNSPECIFIED"

definition apply_dhcp_address :: "('ifc, 'set, 'sock, 'dhcp) smoltcp \<Rightarrow> Dhcpv4Config \<Rightarrow>
    ('ifc, 'set, 'dhcp) NetworkInterface \<Rightarrow> ('ifc, 'set, 'dhcp) NetworkInterface" where
  "apply_dhcp_address api config nic =
     (case config_address config of
        None \<Rightarrow> nic
      | Some cidr \<Rightarrow>
          if cidr \<noteq> prev_cidr nic \<and> \<not> is_unspecified (cidr_address cidr)
          then nic\<lparr>iface := Iface_update_ip_addrs api (set_first_addr (CidrV4 cidr)) (iface nic),
                   prev_cidr := cidr\<rparr>
          else nic)"

definition apply_dhcp_router :: "('ifc, 'set, 'sock, 'dhcp) smoltcp \<Rightarrow> Dhcpv4Config \<Rightarrow>
    ('ifc, 'set, 'dhcp) NetworkInterface \<Rightarrow>
    (('ifc, 'set, 'dhcp, 'x) world_scheme, ('ifc, 'set, 'dhcp) NetworkInterface) prog" where
  "apply_dhcp_router api config nic =
     (case config_router config of
        None \<Rightarrow> pret nic
      | Some router \<Rightarrow>
          (case Iface_add_default_ipv4_route api router (iface nic) of (r, ifc) \<Rightarrow>
             pbind (punwrap ''add_default_ipv4_route'' r) (\<lambda>_. pret (nic\<lparr>iface := ifc\<rparr>))))"

definition dhcp_poll_step :: "('ifc, 'set, 'sock, 'dhcp) smoltcp \<Rightarrow>
    ('ifc, 'set, 'dhcp, 'x, 'r) hkernel \<Rightarrow> instant \<Rightarrow> 'dhcp \<Rightarrow>
    ('ifc, 'set, 'dhcp) NetworkInterface \<Rightarrow>
    (('ifc, 'set, 'dhcp, 'x) world_scheme, ('ifc, 'set, 'dhcp) NetworkInterface) prog" where
  "dhcp_poll_step api k timestamp d nic =
     (case Dhcp_poll api timestamp d (iface nic) (sockets nic) of (r, d', ifc, ss, ws) \<Rightarrow>
        pbind (wake_all k ws) (\<lambda>_.
          let nic' = nic\<lparr>iface := ifc, sockets := ss, dhcp := Some d'\<rparr>
          in case unwrap_or r None of
               None \<Rightarrow> pret nic'
             | Some config \<Rightarrow> apply_dhcp_router api config (apply_dhcp_address api config nic')))"

definition poll_common :: "('ifc, 'set, 'sock, 'dhcp) smoltcp \<Rightarrow>
    ('ifc, 'set, 'dhcp, 'x, 'r) hkernel \<Rightarrow> instant \<Rightarrow> ('ifc, 'set, 'dhcp) NetworkInterface \<Rightarrow>
    (('ifc, 'set, 'dhcp, 'x) world_scheme, ('ifc, 'set, 'dhcp) NetworkInterface) prog" where
  "poll_common api k timestamp nic =
     pbind (iface_poll_loop api k timestamp nic) (\<lambda>nic.
       case dhcp nic of
         None \<Rightarrow> pret nic
       | Some d \<Rightarrow> dhcp_poll_step api k timestamp d nic)"

definition nic_poll :: "('ifc, 'set, 'sock, 'dhcp) smoltcp \<Rightarrow>
    ('ifc, 'set, 'dhcp, 'x, 'r) hkernel \<Rightarrow> Waker \<Rightarrow> instant \<Rightarrow>
    ('ifc, 'set, 'dhcp) NetworkInterface \<Rightarrow>
    (('ifc, 'set, 'dhcp, 'x) world_scheme, ('ifc, 'set, 'dhcp) NetworkInterface) prog" where
  "nic_poll api k cx timestamp nic =
     (case WakerRegistration_register cx (nic_waker nic) of (reg, ws) \<Rightarrow>
        pbind (wake_all k ws) (\<lambda>_. poll_common api k timestamp (nic\<lparr>nic_waker := reg\<rparr>)))"

definition poll_delay :: "('ifc, 'set, 'sock, 'dhcp) smoltcp \<Rightarrow> instant \<Rightarrow>
    ('ifc, 'set, 'dhcp) NetworkInterface \<Rightarrow> duration option" where
  "poll_delay api timestamp nic = Iface_poll_delay api timestamp (iface nic) (sockets nic)"

section \<open>Functions that lock the interface\<close>

definition network_delay :: "('ifc, 'set, 'sock, 'dhcp) smoltcp \<Rightarrow> instant \<Rightarrow>
    (('ifc, 'set, 'dhcp, 'x) world_scheme, duration option) prog" where
  "network_delay api timestamp = nic_lock (\<lambda>w.
     case result_ok (as_nic_mut (nic_state w)) of
       None \<Rightarrow> pret None w
     | Some nic \<Rightarrow> pret (poll_delay api timestamp nic) w)"

definition network_run_poll :: "('ifc, 'set, 'sock, 'dhcp) smoltcp \<Rightarrow>
    ('ifc, 'set, 'dhcp, 'x, 'r) hkernel \<Rightarrow> Waker \<Rightarrow>
    (('ifc, 'set, 'dhcp, 'x) world_scheme, unit poll) prog" where
  "network_run_poll api k cx = nic_lock (\<lambda>w.
     case nic_state w of
       Initialized nic \<Rightarrow>
         pbind (pcall (instant_now k)) (\<lambda>now.
           pbind (nic_poll api k cx now nic) (\<lambda>nic'.
             pbind (pmodify (set_nic nic')) (\<lambda>_. pret Pending))) w
     | _ \<Rightarrow> pret (Ready ()) w)"

fun task_future :: "('ifc, 'set, 'sock, 'dhcp) smoltcp \<Rightarrow>
    ('ifc, 'set, 'dhcp, 'x, 'r) hkernel \<Rightarrow> task_code \<Rightarrow> Waker \<Rightarrow>
    (('ifc, 'set, 'dhcp, 'x) world_scheme, unit poll) prog" where
  "task_future api k NetworkRun = network_run_poll api k"

definition nic_thread_check :: "('ifc, 'set, 'sock, 'dhcp) smoltcp \<Rightarrow>
    ('ifc, 'set, 'dhcp, 'x, 'r) hkernel \<Rightarrow>
    (('ifc, 'set, 'dhcp, 'x) world_scheme, unit) prog" where
  "nic_thread_check api k = nic_lock (\<lambda>w.
     case nic_state w of
       Initialized nic \<Rightarrow>
         pbind (pcall (instant_now k)) (\<lambda>now.
           pbind (poll_common api k now nic) (\<lambda>nic'. pmodify (set_nic nic'))) w
     | _ \<Rightarrow> pret () w)"

definition nic_thread :: "('ifc, 'set, 'sock, 'dhcp) smoltcp \<Rightarrow>
    ('ifc, 'set, 'dhcp, 'x, 'r) hkernel \<Rightarrow>
    (('ifc, 'set, 'dhcp, 'x) world_scheme, unit) prog" where
  "nic_thread api k = rust_loop (\<lambda>_.
     pbind (sys_netwait k) (\<lambda>_.
       pbind (nic_thread_check api k) (\<lambda>_. pret (Continue ())))) ()"

section \<open>The polling loop\<close>

lemma iface_poll_body_step:
  assumes "wake_frame k"
    and "Iface_poll api ts (iface nic) (sockets nic) = (r, ifc, ss, ws)"
  shows "\<exists>w'. iface_poll_body api k ts nic w =
      Some (Return (if unwrap_or r True then Continue (nic\<lparr>iface := ifc, sockets := ss\<rparr>)
                    else Break (nic\<lparr>iface := ifc, sockets := ss\<rparr>)), w')
    \<and> same_statics w w'"
proof -
  from wake_all_frame [OF assms(1), of ws w] obtain w' where
    "wake_all k ws w = Some (Return (), w')" and "same_statics w w'" by blast
  then show ?thesis by (simp add: iface_poll_body_def assms(2) Let_def)
qed

lemma unwrap_or_True_False: "\<not> unwrap_or r True \<longleftrightarrow> r = Ok False"
  by (cases r) auto

lemma iface_poll_body_Return:
  "iface_poll_body api k ts nic w = Some (Return x, w') \<Longrightarrow>
     \<exists>r ifc ss ws. Iface_poll api ts (iface nic) (sockets nic) = (r, ifc, ss, ws) \<and>
       x = (if unwrap_or r True then Continue (nic\<lparr>iface := ifc, sockets := ss\<rparr>)
            else Break (nic\<lparr>iface := ifc, sockets := ss\<rparr>))"
  by (auto simp: iface_poll_body_def Let_def pbind_Return_iff split: prod.splits)

text \<open>The calls of the stack that the loop makes, one after the other: what each reports, and the states.\<close>

definition poll_report :: "('ifc, 'set, 'sock, 'dhcp) smoltcp \<Rightarrow> instant \<Rightarrow> 'ifc \<times> 'set \<Rightarrow>
    (bool, smoltcp_error) result" where
  "poll_report api ts x = fst (Iface_poll api ts (fst x) (snd x))"

definition poll_next :: "('ifc, 'set, 'sock, 'dhcp) smoltcp \<Rightarrow> instant \<Rightarrow> 'ifc \<times> 'set \<Rightarrow> 'ifc \<times> 'set" where
  "poll_next api ts x = (case Iface_poll api ts (fst x) (snd x) of (r, ifc, ss, ws) \<Rightarrow> (ifc, ss))"

definition with_stack :: "('ifc, 'set, 'dhcp) NetworkInterface \<Rightarrow> 'ifc \<times> 'set \<Rightarrow>
    ('ifc, 'set, 'dhcp) NetworkInterface" where
  "with_stack nic x = nic\<lparr>iface := fst x, sockets := snd x\<rparr>"

lemma with_stack_sels [simp]:
  "iface (with_stack nic x) = fst x" "sockets (with_stack nic x) = snd x"
  "dhcp (with_stack nic x) = dhcp nic" "with_stack (with_stack nic x) y = with_stack nic y"
  "with_stack nic (iface nic, sockets nic) = nic"
  by (simp_all add: with_stack_def)

lemma iface_poll_body_report:
  assumes "wake_frame k"
  shows "\<exists>w'. iface_poll_body api k ts (with_stack nic x) w =
      Some (Return (if poll_report api ts x = Ok False then Break (with_stack nic (poll_next api ts x))
                    else Continue (with_stack nic (poll_next api ts x))), w')
    \<and> same_statics w w'"
proof -
  obtain r ifc ss ws where p: "Iface_poll api ts (fst x) (snd x) = (r, ifc, ss, ws)" by (metis prod_cases4)
  from iface_poll_body_step [OF assms, of api ts "with_stack nic x" r ifc ss ws w] p show ?thesis
    by (auto simp: poll_report_def poll_next_def with_stack_def unwrap_or_True_False [symmetric])
qed

lemma iface_poll_loop_ends:
  assumes "wake_frame k" and "poll_report api ts ((poll_next api ts ^^ n) x) = Ok False"
    and "\<forall>i<n. poll_report api ts ((poll_next api ts ^^ i) x) \<noteq> Ok False"
  shows "\<exists>w'. iface_poll_loop api k ts (with_stack nic x) w =
      Some (Return (with_stack nic ((poll_next api ts ^^ Suc n) x)), w') \<and> same_statics w w'"
  using assms(2,3)
proof (induction n arbitrary: x w)
  case 0
  with iface_poll_body_report [OF assms(1), of api ts nic x w] show ?case
    by (auto simp: iface_poll_loop_def rust_loop_Break)
next
  case (Suc n)
  from Suc.prems(2) have "poll_report api ts x \<noteq> Ok False" by (metis funpow_0 zero_less_Suc)
  with iface_poll_body_report [OF assms(1), of api ts nic x w] obtain w1 where
    "iface_poll_body api k ts (with_stack nic x) w
       = Some (Return (Continue (with_stack nic (poll_next api ts x))), w1)" and w1: "same_statics w w1" by auto
  from this(1) have "iface_poll_loop api k ts (with_stack nic x) w
      = iface_poll_loop api k ts (with_stack nic (poll_next api ts x)) w1"
    unfolding iface_poll_loop_def by (rule rust_loop_Continue)
  moreover have "\<forall>i<n. poll_report api ts ((poll_next api ts ^^ i) (poll_next api ts x)) \<noteq> Ok False"
    using Suc.prems(2) by (metis Suc_mono comp_apply funpow_Suc_right)
  moreover have "poll_report api ts ((poll_next api ts ^^ n) (poll_next api ts x)) = Ok False"
    using Suc.prems(1) by (simp add: funpow_swap1)
  ultimately show ?case using Suc.IH [of "poll_next api ts x" w1] w1
    by (auto simp: funpow_swap1 intro: same_statics_trans)
qed

lemma iface_poll_loop_spins:
  assumes "wake_frame k" and "\<forall>i. poll_report api ts ((poll_next api ts ^^ i) x) \<noteq> Ok False"
  shows "iface_poll_loop api k ts (with_stack nic x) w = None"
  unfolding iface_poll_loop_def
proof (rule rust_loop_diverges [where Inv = "\<lambda>n w. \<exists>i. n = with_stack nic ((poll_next api ts ^^ i) x)"])
  fix n w1 assume "\<exists>i. n = with_stack nic ((poll_next api ts ^^ i) x)"
  then obtain i where n: "n = with_stack nic ((poll_next api ts ^^ i) x)" ..
  let ?s = "with_stack nic ((poll_next api ts ^^ Suc i) x)"
  from iface_poll_body_report [OF assms(1), of api ts nic "(poll_next api ts ^^ i) x" w1] assms(2) obtain w' where
    "iface_poll_body api k ts n w1 = Some (Return (Continue ?s), w')" unfolding n by auto
  then show "\<exists>s' w'. iface_poll_body api k ts n w1 = Some (Return (Continue s'), w') \<and>
      (\<exists>i. s' = with_stack nic ((poll_next api ts ^^ i) x))" by blast
qed (auto intro: exI [of _ 0])

lemma dhcp_poll_step_returns:
  assumes "wake_frame k"
  shows "dhcp_poll_step api k ts d nic w \<noteq> None"
proof -
  obtain r d' ifc ss ws where p: "Dhcp_poll api ts d (iface nic) (sockets nic) = (r, d', ifc, ss, ws)"
    by (metis prod_cases5)
  from wake_all_frame [OF assms, of ws w] obtain w1 where "wake_all k ws w = Some (Return (), w1)" by blast
  moreover have "apply_dhcp_router api config n w1 \<noteq> None" for config n
  proof (cases "config_router config")
    case (Some router)
    obtain q i where "Iface_add_default_ipv4_route api router (iface n) = (q, i)" by fastforce
    with Some show ?thesis by (cases q) (simp_all add: apply_dhcp_router_def)
  qed (simp add: apply_dhcp_router_def)
  ultimately show ?thesis
    by (simp add: dhcp_poll_step_def p Let_def del: not_None_eq split: option.split)
qed

lemma network_run_poll_Return:
  "network_run_poll api k cx w = Some (Return p, w') \<Longrightarrow> nic_state w = Initialized nic \<Longrightarrow>
     \<exists>now w1 nic' w2. instant_now k w = (now, w1) \<and>
       nic_poll api k cx now nic w1 = Some (Return nic', w2) \<and> p = Pending \<and> w' = set_nic nic' w2"
  by (auto simp: network_run_poll_def nic_lock_Return_iff pbind_Return_iff split: prod.splits)

section \<open>Invariants of the interface\<close>

text \<open>
  The contract of an invariant of \<open>NetworkInterface\<close>: the calls of the stack that \<open>poll_common\<close> makes
  keep it. Then \<open>poll_common\<close>, \<open>poll\<close>, the network task and the network thread keep it.
\<close>

locale nic_invariant =
  fixes api :: "('ifc, 'set, 'sock, 'dhcp) smoltcp"
    and P :: "('ifc, 'set, 'dhcp) NetworkInterface \<Rightarrow> bool"
  assumes iface_poll: "P nic \<Longrightarrow> Iface_poll api ts (iface nic) (sockets nic) = (r, ifc, ss, ws) \<Longrightarrow>
      P (nic\<lparr>iface := ifc, sockets := ss\<rparr>)"
    and dhcp_poll: "P nic \<Longrightarrow> Dhcp_poll api ts d (iface nic) (sockets nic) = (x, d', ifc, ss, ws) \<Longrightarrow>
      P (nic\<lparr>iface := ifc, sockets := ss, dhcp := Some d'\<rparr>)"
    and address: "P nic \<Longrightarrow> P (apply_dhcp_address api config nic)"
    and route: "P nic \<Longrightarrow> Iface_add_default_ipv4_route api router (iface nic) = (y, ifc) \<Longrightarrow>
      P (nic\<lparr>iface := ifc\<rparr>)"
    and slot: "P nic \<Longrightarrow> P (nic\<lparr>nic_waker := reg\<rparr>)"
begin

lemma iface_poll_loop_keeps:
  assumes "P nic" and ret: "iface_poll_loop api k ts nic w = Some (Return nic', w')"
  shows "P nic'"
proof -
  let ?Q = "\<lambda>(out, w'). \<forall>n. out = Return n \<longrightarrow> P n"
  have step: "P s \<Longrightarrow> iface_poll_body api k ts s w = Some (Return x, w') \<Longrightarrow>
      x = Continue s' \<or> x = Break s' \<Longrightarrow> P s'" for s w x w' s'
    using iface_poll by (fastforce dest!: iface_poll_body_Return split: if_splits)
  have "?Q (Return nic', w')"
    using ret unfolding iface_poll_loop_def
    by (rule rust_loop_invariant [where Inv = "\<lambda>n w. P n"]) (use assms(1) step in blast)+
  then show ?thesis by simp
qed

lemma apply_dhcp_router_keeps:
  assumes "P nic" and "apply_dhcp_router api config nic w = Some (Return nic', w')"
  shows "P nic'"
  using assms
  by (auto simp: apply_dhcp_router_def elim!: pbind_ReturnE intro: route
      split: option.splits prod.splits)

lemma dhcp_poll_step_keeps:
  assumes "P nic" and "dhcp_poll_step api k ts d nic w = Some (Return nic', w')"
  shows "P nic'"
proof -
  obtain r d' ifc ss ws where p: "Dhcp_poll api ts d (iface nic) (sockets nic) = (r, d', ifc, ss, ws)"
    by (metis prod_cases5)
  let ?nic = "nic\<lparr>iface := ifc, sockets := ss, dhcp := Some d'\<rparr>"
  have t: "P ?nic" using assms(1) p by (rule dhcp_poll)
  from assms(2) obtain w1 where
    "(case unwrap_or r None of None \<Rightarrow> pret ?nic
      | Some config \<Rightarrow> apply_dhcp_router api config (apply_dhcp_address api config ?nic)) w1
      = Some (Return nic', w')"
    by (auto simp: dhcp_poll_step_def p Let_def pbind_Return_iff)
  with t show ?thesis
    by (auto split: option.splits intro: apply_dhcp_router_keeps [OF address [OF t]])
qed

lemma poll_common_keeps:
  assumes "P nic" and "poll_common api k ts nic w = Some (Return nic', w')"
  shows "P nic'"
  using assms(2) unfolding poll_common_def pbind_Return_iff
  by (auto split: option.splits dest: iface_poll_loop_keeps [OF assms(1)]
    intro: dhcp_poll_step_keeps)

lemma nic_poll_keeps:
  assumes "P nic" and "nic_poll api k cx ts nic w = Some (Return nic', w')"
  shows "P nic'"
proof -
  obtain reg ws where r: "WakerRegistration_register cx (nic_waker nic) = (reg, ws)" by fastforce
  from assms(2) obtain w1 where
    "poll_common api k ts (nic\<lparr>nic_waker := reg\<rparr>) w1 = Some (Return nic', w')"
    by (auto simp: nic_poll_def r pbind_Return_iff)
  with slot [OF assms(1)] show ?thesis by (rule poll_common_keeps)
qed

lemma network_run_keeps:
  assumes "nic_state w = Initialized nic" and "P nic"
    and "network_run_poll api k cx w = Some (Return p, w')"
  shows "\<exists>nic'. nic_state w' = Initialized nic' \<and> P nic'"
proof -
  from network_run_poll_Return [OF assms(3,1)] obtain now w1 nic' w2
    where "nic_poll api k cx now nic w1 = Some (Return nic', w2)" and "w' = set_nic nic' w2" by blast
  with nic_poll_keeps [OF assms(2)] show ?thesis by (auto simp: set_nic_def)
qed

lemma nic_thread_check_keeps:
  assumes "nic_state w = Initialized nic" and "P nic"
    and "nic_thread_check api k w = Some (Return u, w')"
  shows "\<exists>nic'. nic_state w' = Initialized nic' \<and> P nic'"
proof -
  from assms(1,3) obtain now w1 nic' w2
    where "poll_common api k now nic w1 = Some (Return nic', w2)" and "w' = set_nic nic' w2"
    by (auto simp: nic_thread_check_def nic_lock_Return_iff elim!: pbind_ReturnE split: prod.splits)
  with poll_common_keeps [OF assms(2)] show ?thesis by (auto simp: set_nic_def)
qed

end

text \<open>Two invariants: the first address of the interface is \<open>prev_cidr\<close>; a socket stays in the set.\<close>

definition addr_tracks :: "('ifc, 'set, 'sock, 'dhcp) smoltcp \<Rightarrow>
    ('ifc, 'set, 'dhcp) NetworkInterface \<Rightarrow> bool" where
  "addr_tracks api nic \<longleftrightarrow>
     (\<exists>as. Iface_ip_addrs api (iface nic) = CidrV4 (prev_cidr nic) # as)"

lemma apply_dhcp_address_tracks:
  "iface_addr_laws api \<Longrightarrow> addr_tracks api nic \<Longrightarrow>
     addr_tracks api (apply_dhcp_address api config nic)"
  by (auto simp: apply_dhcp_address_def addr_tracks_def iface_addr_lawsD(1) split: option.splits)

interpretation addr_inv: nic_invariant api "\<lambda>nic. iface_addr_laws api \<longrightarrow> addr_tracks api nic" for api
proof (unfold_locales, goal_cases)
  case (3 nic config)
  then show ?case by (simp add: apply_dhcp_address_tracks)
qed (auto simp: addr_tracks_def dest: iface_addr_lawsD(2-4))

lemma apply_dhcp_address_sockets [simp]: "sockets (apply_dhcp_address api config nic) = sockets nic"
  by (simp add: apply_dhcp_address_def split: option.split)

interpretation handle_inv: nic_invariant api
  "\<lambda>nic. iface_socket_laws api \<longrightarrow> SocketSet_get api (sockets nic) h \<noteq> None" for api h
  by unfold_locales (simp_all add: iface_socket_lawsD del: not_None_eq)

section \<open>Properties\<close>

text \<open>
  C24: \<open>poll_common\<close> polls the stack exactly until it first reports \<open>Ok(false)\<close>: it then goes on, in the state
  that this call left, with the DHCP client if the build has one (and without one it returns this state);
  the waker slot is untouched. If the stack never reports \<open>Ok(false)\<close>, and only then, it does not come back:
  \<open>Ok(true)\<close> and every error count as progress.
\<close>
theorem poll_common_exact:
  assumes "wake_frame k"
  shows "(poll_common api k ts nic w = None \<longleftrightarrow>
      (\<forall>i. poll_report api ts ((poll_next api ts ^^ i) (iface nic, sockets nic)) \<noteq> Ok False)) \<and>
    (\<forall>n. poll_report api ts ((poll_next api ts ^^ n) (iface nic, sockets nic)) = Ok False \<longrightarrow>
      (\<forall>i<n. poll_report api ts ((poll_next api ts ^^ i) (iface nic, sockets nic)) \<noteq> Ok False) \<longrightarrow>
      (\<exists>w1. same_statics w w1 \<and> poll_common api k ts nic w =
        (let (ifc, ss) = (poll_next api ts ^^ Suc n) (iface nic, sockets nic);
             nic' = nic\<lparr>iface := ifc, sockets := ss\<rparr>
         in case dhcp nic of
              None \<Rightarrow> Some (Return nic', w1)
            | Some d \<Rightarrow> dhcp_poll_step api k ts d nic' w1)))"
proof -
  let ?x = "(iface nic, sockets nic)"
  let ?quiet = "\<lambda>i. poll_report api ts ((poll_next api ts ^^ i) ?x) = Ok False"
  have ends: "\<exists>w1. same_statics w w1 \<and> poll_common api k ts nic w =
      (case dhcp nic of None \<Rightarrow> Some (Return (with_stack nic ((poll_next api ts ^^ Suc n) ?x)), w1)
       | Some d \<Rightarrow> dhcp_poll_step api k ts d (with_stack nic ((poll_next api ts ^^ Suc n) ?x)) w1)"
    if "?quiet n" and "\<forall>i<n. \<not> ?quiet i" for n
    using iface_poll_loop_ends [OF assms that, of nic w]
    by (auto simp: poll_common_def split: option.split)
  have spins: "poll_common api k ts nic w = None" if "\<forall>i. \<not> ?quiet i"
    using iface_poll_loop_spins [OF assms that, of nic w] by (simp add: poll_common_def)
  have "poll_common api k ts nic w \<noteq> None" if "?quiet i" for i
  proof -
    from that have "?quiet (LEAST i. ?quiet i)" by (rule LeastI [where P = ?quiet])
    moreover have "\<forall>j < (LEAST i. ?quiet i). \<not> ?quiet j" using not_less_Least [where P = ?quiet] by blast
    ultimately show ?thesis using ends [of "LEAST i. ?quiet i"]
      by (cases "dhcp nic") (use dhcp_poll_step_returns [OF assms] in auto)
  qed
  with spins have "poll_common api k ts nic w = None \<longleftrightarrow> (\<forall>i. \<not> ?quiet i)" by metis
  moreover have "\<exists>w1. same_statics w w1 \<and> poll_common api k ts nic w =
      (let (ifc, ss) = (poll_next api ts ^^ Suc n) ?x; nic' = nic\<lparr>iface := ifc, sockets := ss\<rparr>
       in case dhcp nic of None \<Rightarrow> Some (Return nic', w1) | Some d \<Rightarrow> dhcp_poll_step api k ts d nic' w1)"
    if "?quiet n" and "\<forall>i<n. \<not> ?quiet i" for n
    using ends [OF that] unfolding with_stack_def Let_def case_prod_beta .
  ultimately show ?thesis by blast
qed

theorem poll_common_exact_witness:
  "\<exists>w1. same_statics demo_world0 w1 \<and> poll_common demo_stack demo_kernel 3 demo_nic demo_world0 =
     Some (Return (demo_nic\<lparr>iface := (iface demo_nic)\<lparr>if_work := 0\<rparr>\<rparr>), w1)"
proof -
  let ?x = "(iface demo_nic, sockets demo_nic)"
  have "poll_report demo_stack 3 ((poll_next demo_stack 3 ^^ 1) ?x) = Ok False"
    and "\<forall>i<1. poll_report demo_stack 3 ((poll_next demo_stack 3 ^^ i) ?x) \<noteq> Ok False"
    and n: "(poll_next demo_stack 3 ^^ Suc 1) ?x = ((iface demo_nic)\<lparr>if_work := 0\<rparr>, [])"
    and d: "dhcp demo_nic = None"
    by (simp_all add: poll_report_def poll_next_def demo_defs)
  from poll_common_exact [OF demo_wake_frame, THEN conjunct2, rule_format, OF this(1), OF this(2) [rule_format]]
  show ?thesis unfolding n by (simp add: d Let_def) (simp add: demo_nic_def)
qed

text \<open>
  an error of the stack counts as progress, so a stack that answers every poll with an error makes
  \<open>poll_common\<close> loop forever; the future \<open>network_run\<close> and the check of \<open>nic_thread\<close> then never
  return and never release the lock on the interface.
\<close>
theorem poll_common_hangs_on_errors:
  assumes "wake_frame k"
    and "\<forall>ts ifc ss. \<exists>e ifc' ss' ws. Iface_poll api ts ifc ss = (Err e, ifc', ss', ws)"
    and "\<not> nic_poisoned w" and "nic_state w = Initialized nic"
  shows "poll_common api k ts nic w = None \<and> nic_thread_check api k w = None \<and>
    network_run_poll api k cx w = None"
proof -
  have "poll_report api ts x \<noteq> Ok False" for ts x
    using assms(2) [rule_format, of ts "fst x" "snd x"] by (auto simp: poll_report_def)
  then have pc: "poll_common api k ts nic w = None" for ts nic w
    using iface_poll_loop_spins [OF assms(1), of api ts "(iface nic, sockets nic)" nic w]
    by (simp add: poll_common_def)
  obtain now w1 where now: "instant_now k w = (now, w1)" by fastforce
  obtain reg ws where r: "WakerRegistration_register cx (nic_waker nic) = (reg, ws)" by fastforce
  from wake_all_frame [OF assms(1)] obtain w2 where
    "wake_all k ws w1 = Some (Return (), w2)" by blast
  then have "nic_poll api k cx now nic w1 = None" by (simp add: nic_poll_def r pc)
  with assms(3,4) now pc show ?thesis
    by (simp add: nic_thread_check_def network_run_poll_def)
qed

theorem poll_common_hangs_on_errors_witness:
  "poll_common (demo_stack\<lparr>Iface_poll := (\<lambda>ts ifc ss. (Err Illegal, ifc, ss, []))\<rparr>) demo_kernel 3
     demo_nic demo_world0 = None"
  using poll_common_hangs_on_errors [OF demo_wake_frame,
      of "demo_stack\<lparr>Iface_poll := (\<lambda>ts ifc ss. (Err Illegal, ifc, ss, []))\<rparr>" demo_world0 demo_nic]
  by (simp add: demo_world0_def)

text \<open>
  C25: polling keeps the address invariant of DHCP: the first address of the interface is the one the
  client recorded last (\<open>prev_cidr\<close>); the future \<open>network_run\<close> stays pending as long as the interface
  exists.
\<close>
theorem network_run_keeps_dhcp_address:
  assumes "iface_addr_laws api" and "nic_state w = Initialized nic" and "addr_tracks api nic"
    and "network_run_poll api k cx w = Some (Return p, w')"
  shows "p = Pending \<and> (\<exists>nic'. nic_state w' = Initialized nic' \<and> addr_tracks api nic')"
  using network_run_poll_Return [OF assms(4,2)] addr_inv.network_run_keeps [OF assms(2) _ assms(4)]
    assms(1,3) by blast

definition demo_offer :: Dhcpv4Config where
  "demo_offer = \<lparr>config_address = Some (Ipv4Cidr (Ipv4Address 10 0 5 9) 24),
     config_router = Some (Ipv4Address 10 0 5 1), config_dns_servers = []\<rparr>"

definition demo_dhcp_world :: demo_world where
  "demo_dhcp_world = demo_world0\<lparr>nic_state := Initialized (demo_nic\<lparr>dhcp := Some (Some demo_offer)\<rparr>)\<rparr>"

lemma demo_dhcp_run:
  "\<exists>w'. network_run_poll demo_stack demo_kernel (TaskWaker 0) demo_dhcp_world = Some (Return Pending, w')"
  by (simp add: network_run_poll_def demo_dhcp_world_def demo_defs nic_poll_def
      WakerRegistration_register_def will_wake_def poll_common_def iface_poll_loop_def
      rust_loop_Continue rust_loop_Break iface_poll_body_def dhcp_poll_step_def demo_offer_def
      apply_dhcp_address_def apply_dhcp_router_def is_unspecified_def IPV4_UNSPECIFIED_def
      demo_established_wakers_def)

theorem network_run_keeps_dhcp_address_witness:
  "\<exists>w' nic'. network_run_poll demo_stack demo_kernel (TaskWaker 0) demo_dhcp_world
     = Some (Return Pending, w') \<and> nic_state w' = Initialized nic' \<and> addr_tracks demo_stack nic'"
proof -
  obtain w' where run: "network_run_poll demo_stack demo_kernel (TaskWaker 0) demo_dhcp_world
    = Some (Return Pending, w')" using demo_dhcp_run by blast
  have "nic_state demo_dhcp_world = Initialized (demo_nic\<lparr>dhcp := Some (Some demo_offer)\<rparr>)"
    by (simp add: demo_dhcp_world_def)
  moreover have "addr_tracks demo_stack (demo_nic\<lparr>dhcp := Some (Some demo_offer)\<rparr>)"
    by (simp add: addr_tracks_def demo_defs)
  ultimately show ?thesis
    using network_run_keeps_dhcp_address [OF demo_iface_addr_laws _ _ run] run by blast
qed

end
