(* ===== verification/Executor.thy ===== *)
theory Executor
  imports Network_Interface
begin

text \<open>
  The executor of \<open>hermit-sys/src/net/executor.rs\<close>: \<open>spawn\<close>, the queue runner and the two drivers
  that run a future to completion, \<open>poll_on\<close> (busy polling) and \<open>block_on\<close> (parking the thread).
  A future is a poll function \<open>Waker \<Rightarrow> 'f \<Rightarrow> ('w, 'a poll \<times> 'f) prog\<close> over its own state \<open>'f\<close>.

  Both drivers have the same shape: poll, then test the deadline, then idle. The locale
  \<open>future_driver\<close> states it, proves once what their results mean and when they return, and is
  interpreted on both loop bodies.
\<close>

section \<open>Run queue\<close>

definition run_executor :: "('ifc, 'set, 'sock, 'dhcp) smoltcp \<Rightarrow>
    ('ifc, 'set, 'dhcp, 'x, 'r) hkernel \<Rightarrow>
    (('ifc, 'set, 'dhcp, 'x) world_scheme, unit) prog" where
  "run_executor api k = rust_loop (\<lambda>_.
     pbind (pcall (queue_pop k)) (\<lambda>popped.
       case popped of
         None \<Rightarrow> pret (Break ())
       | Some runnable \<Rightarrow>
           pbind (runnable_run k (task_future api k) (schedule k) runnable)
             (\<lambda>_. pret (Continue ())))) ()"

definition spawn :: "('ifc, 'set, 'dhcp, 'x, 'r) hkernel \<Rightarrow> task_code \<Rightarrow>
    (('ifc, 'set, 'dhcp, 'x) world_scheme, unit) prog" where
  "spawn k future =
     pbind (pcall (task_spawn k future)) (\<lambda>runnable. schedule k runnable)"

section \<open>Drivers\<close>

definition timed_out :: "('ifc, 'set, 'sock, 'dhcp) smoltcp \<Rightarrow>
    ('ifc, 'set, 'dhcp, 'x, 'r) hkernel \<Rightarrow> duration option \<Rightarrow> instant \<Rightarrow>
    (('ifc, 'set, 'dhcp, 'x) world_scheme, bool) prog" where
  "timed_out api k timeout start =
     (case timeout of
        None \<Rightarrow> pret False
      | Some duration \<Rightarrow>
          pbind (pcall (instant_now k)) (\<lambda>now. pret (now \<ge> Instant_add api start duration)))"

definition poll_on_body :: "('ifc, 'set, 'sock, 'dhcp) smoltcp \<Rightarrow>
    ('ifc, 'set, 'dhcp, 'x, 'r) hkernel \<Rightarrow>
    ('f \<Rightarrow> (('ifc, 'set, 'dhcp, 'x) world_scheme, 'a poll \<times> 'f) prog) \<Rightarrow>
    duration option \<Rightarrow> instant \<Rightarrow> 'f \<Rightarrow>
    (('ifc, 'set, 'dhcp, 'x) world_scheme, (('a, unit) result, 'f) flow) prog" where
  "poll_on_body api k future timeout start st =
     pbind (future st) (\<lambda>(p, st').
       case p of
         Ready t \<Rightarrow>
           pbind (pmodify (sys_set_network_polling_mode k False)) (\<lambda>_. pret (Break (Ok t)))
       | Pending \<Rightarrow>
           pbind (timed_out api k timeout start) (\<lambda>expired.
             if expired
             then pbind (pmodify (sys_set_network_polling_mode k False)) (\<lambda>_. pret (Break (Err ())))
             else pbind (run_executor api k) (\<lambda>_. pret (Continue st'))))"

definition poll_on :: "('ifc, 'set, 'sock, 'dhcp) smoltcp \<Rightarrow>
    ('ifc, 'set, 'dhcp, 'x, 'r) hkernel \<Rightarrow>
    (Waker \<Rightarrow> 'f \<Rightarrow> (('ifc, 'set, 'dhcp, 'x) world_scheme, 'a poll \<times> 'f) prog) \<Rightarrow> 'f \<Rightarrow>
    duration option \<Rightarrow> (('ifc, 'set, 'dhcp, 'x) world_scheme, ('a, unit) result) prog" where
  "poll_on api k future st timeout = (\<lambda>w.
     let cx = ThreadWaker (sys_getpid k w)
     in pbind (pmodify (sys_set_network_polling_mode k True)) (\<lambda>_.
          pbind (pcall (instant_now k)) (\<lambda>start.
            rust_loop (poll_on_body api k (future cx) timeout start) st)) w)"

text \<open>The end of a \<open>ThreadNotify\<close>, when its thread ends and the last waker for it is gone.\<close>

definition ThreadNotify_drop :: "(string \<Rightarrow> 'w \<Rightarrow> 'w) \<Rightarrow> 'w \<Rightarrow> 'w" where
  "ThreadNotify_drop println w = println ''Dropping ThreadNotify!'' w"

text \<open>The flag \<open>unparked\<close> of the thread: \<open>swap\<close> and \<open>store\<close>.\<close>

definition swap_unparked :: "Tid \<Rightarrow> bool \<Rightarrow>
    (('ifc, 'set, 'dhcp, 'x) world_scheme, bool) prog" where
  "swap_unparked thread b = pcall (\<lambda>w.
     (unparked w thread, w\<lparr>unparked := (unparked w)(thread := b)\<rparr>))"

definition block_current :: "('w, 'r) kernel \<Rightarrow> u64 option \<Rightarrow> ('w, unit) prog" where
  "block_current k delay = pmodify
     (case delay of
        Some d \<Rightarrow> sys_block_current_task_with_timeout k d
      | None \<Rightarrow> sys_block_current_task k)"

definition park :: "('ifc, 'set, 'sock, 'dhcp) smoltcp \<Rightarrow>
    ('ifc, 'set, 'dhcp, 'x, 'r) hkernel \<Rightarrow> Tid \<Rightarrow> u64 option \<Rightarrow>
    (('ifc, 'set, 'dhcp, 'x) world_scheme, unit) prog" where
  "park api k thread delay =
     pbind (swap_unparked thread False) (\<lambda>was_unparked.
       if \<not> was_unparked
       then pbind (block_current k delay) (\<lambda>_.
              pbind (sys_yield k) (\<lambda>_.
                pbind (swap_unparked thread False) (\<lambda>_. run_executor api k)))
       else pret ())"

definition idle_or_park :: "('ifc, 'set, 'sock, 'dhcp) smoltcp \<Rightarrow>
    ('ifc, 'set, 'dhcp, 'x, 'r) hkernel \<Rightarrow> Tid \<Rightarrow>
    (('ifc, 'set, 'dhcp, 'x) world_scheme, unit) prog" where
  "idle_or_park api k thread =
     pbind (pcall (instant_now k)) (\<lambda>now.
       pbind (network_delay api now) (\<lambda>delay.
         if (case delay of None \<Rightarrow> True | Some d \<Rightarrow> d > 100)
         then park api k thread delay
         else run_executor api k))"

definition block_on_body :: "('ifc, 'set, 'sock, 'dhcp) smoltcp \<Rightarrow>
    ('ifc, 'set, 'dhcp, 'x, 'r) hkernel \<Rightarrow>
    ('f \<Rightarrow> (('ifc, 'set, 'dhcp, 'x) world_scheme, 'a poll \<times> 'f) prog) \<Rightarrow>
    duration option \<Rightarrow> Tid \<Rightarrow> instant \<Rightarrow> 'f \<Rightarrow>
    (('ifc, 'set, 'dhcp, 'x) world_scheme, (('a, unit) result, 'f) flow) prog" where
  "block_on_body api k future timeout thread start st =
     pbind (future st) (\<lambda>(p, st').
       case p of
         Ready t \<Rightarrow> pret (Break (Ok t))
       | Pending \<Rightarrow>
           pbind (timed_out api k timeout start) (\<lambda>expired.
             if expired then pret (Break (Err ()))
             else pbind (idle_or_park api k thread) (\<lambda>_. pret (Continue st'))))"

definition block_on :: "('ifc, 'set, 'sock, 'dhcp) smoltcp \<Rightarrow>
    ('ifc, 'set, 'dhcp, 'x, 'r) hkernel \<Rightarrow>
    (Waker \<Rightarrow> 'f \<Rightarrow> (('ifc, 'set, 'dhcp, 'x) world_scheme, 'a poll \<times> 'f) prog) \<Rightarrow> 'f \<Rightarrow>
    duration option \<Rightarrow> (('ifc, 'set, 'dhcp, 'x) world_scheme, ('a, unit) result) prog" where
  "block_on api k future st timeout = (\<lambda>w.
     let thread = sys_getpid k w; cx = ThreadWaker thread
     in pbind (pcall (instant_now k)) (\<lambda>start.
          rust_loop (block_on_body api k (future cx) timeout thread start) st) w)"

section \<open>The contract of a driver\<close>

text \<open>The states a future can be in when it is polled again: each \<open>Pending\<close> poll leaves the next one.\<close>

inductive future_reaches :: "('f \<Rightarrow> ('w, 'a poll \<times> 'f) prog) \<Rightarrow> 'f \<Rightarrow> 'f \<Rightarrow> bool" for future st where
  start: "future_reaches future st st"
| pending: "future_reaches future st s \<Longrightarrow> future s w = Some (Return (Pending, s'), w') \<Longrightarrow>
    future_reaches future st s'"

lemma future_reaches_invariant:
  assumes "future_reaches future st s" and "I st"
    and "\<And>s w s' w'. I s \<Longrightarrow> future s w = Some (Return (Pending, s'), w') \<Longrightarrow> I s'"
  shows "I s"
  using assms by (induction rule: future_reaches.induct) blast+

locale future_driver =
  fixes body :: "'f \<Rightarrow> ('w, (('a, unit) result, 'f) flow) prog"
    and future :: "'f \<Rightarrow> ('w, 'a poll \<times> 'f) prog"
    and expired :: "('w, bool) prog"
    and close :: "'w \<Rightarrow> 'w"
    and idle :: "('w, unit) prog"
  assumes body_eq: "body st w =
    pbind (future st) (\<lambda>(p, st').
      case p of
        Ready t \<Rightarrow> (\<lambda>w. Some (Return (Break (Ok t)), close w))
      | Pending \<Rightarrow> pbind expired (\<lambda>e.
          if e then (\<lambda>w. Some (Return (Break (Err ())), close w))
          else pbind idle (\<lambda>_. pret (Continue st')))) w"
begin

lemma body_Break:
  assumes "body st w = Some (Return (Break r), w')"
  shows "\<exists>w1. w' = close w1 \<and>
       (case r of Ok t \<Rightarrow> \<exists>st' . future st w = Some (Return (Ready t, st'), w1)
        | Err u \<Rightarrow> \<exists>w0. expired w0 = Some (Return True, w1))"
proof -
  from assms obtain p st' w1 where f: "future st w = Some (Return (p, st'), w1)"
    unfolding body_eq pbind_Return_iff by auto
  show ?thesis
  proof (cases p)
    case (Ready t)
    with assms f show ?thesis by (auto simp: body_eq)
  next
    case Pending
    with assms f obtain e w2 where "expired w1 = Some (Return e, w2)" and e
      and "r = Err ()" and "w' = close w2"
      by (auto simp: body_eq pbind_Return_iff split: if_splits)
    then show ?thesis by auto
  qed
qed

lemma body_Continue:
  assumes "body st w = Some (Return (Continue s'), w')"
  shows "\<exists>w1. future st w = Some (Return (Pending, s'), w1)"
proof -
  from assms obtain p st' w1 where f: "future st w = Some (Return (p, st'), w1)"
    unfolding body_eq pbind_Return_iff by auto
  with assms show ?thesis
    by (cases p) (auto simp: body_eq pbind_Return_iff split: if_splits)
qed

text \<open>
  The result of a driver: \<open>Ok\<close> carries what the future returned when it became ready, \<open>Err\<close> means that
  the test of the deadline succeeded; in both cases \<open>close\<close> is the last thing done.
\<close>

lemma driver_result:
  assumes "rust_loop body st w = Some (Return r, w')"
  shows "\<exists>w1. w' = close w1 \<and>
       (case r of Ok t \<Rightarrow> \<exists>s s' w0. future_reaches future st s \<and>
            future s w0 = Some (Return (Ready t, s'), w1)
        | Err u \<Rightarrow> \<exists>w0. expired w0 = Some (Return True, w1))"
proof -
  let ?P = "\<lambda>r w'. \<exists>w1. w' = close w1 \<and>
       (case r of Ok t \<Rightarrow> \<exists>s s' w0. future_reaches future st s \<and>
            future s w0 = Some (Return (Ready t, s'), w1)
        | Err u \<Rightarrow> \<exists>w0. expired w0 = Some (Return True, w1))"
  have "(\<lambda>(out, w'). \<forall>r. out = Return r \<longrightarrow> ?P r w') (Return r, w')"
  proof (rule rust_loop_invariant [where Inv = "\<lambda>s _. future_reaches future st s", OF assms])
    fix s w s' w'
    assume "future_reaches future st s" and "body s w = Some (Return (Continue s'), w')"
    then show "future_reaches future st s'" using body_Continue future_reaches.pending by metis
  next
    fix s w r w'
    assume "future_reaches future st s" and "body s w = Some (Return (Break r), w')"
    then show "(\<lambda>(out, w'). \<forall>r. out = Return r \<longrightarrow> ?P r w') (Return r, w')"
      using body_Break [of s w r w'] by (cases r) (simp; blast)+
  qed (simp_all add: future_reaches.start)
  then show ?thesis by simp
qed

lemma driver_ready:
  "future st w = Some (Return (Ready t, st'), w1) \<Longrightarrow>
     rust_loop body st w = Some (Return (Ok t), close w1)"
  by (rule rust_loop_Break) (simp add: body_eq)

lemma driver_expired:
  "future st w = Some (Return (Pending, st'), w1) \<Longrightarrow> expired w1 = Some (Return True, w2) \<Longrightarrow>
     rust_loop body st w = Some (Return (Err ()), close w2)"
  by (rule rust_loop_Break) (simp add: body_eq)

lemma driver_pending:
  "future st w = Some (Return (Pending, st'), w1) \<Longrightarrow> expired w1 = Some (Return False, w2) \<Longrightarrow>
     idle w2 = Some (Return (), w3) \<Longrightarrow> rust_loop body st w = rust_loop body st' w3"
  by (rule rust_loop_Continue) (simp add: body_eq)

lemma driver_stuck:
  "future st w = Some (Return (Pending, st'), w1) \<Longrightarrow> expired w1 = Some (Return False, w2) \<Longrightarrow>
     idle w2 = None \<Longrightarrow> rust_loop body st w = None"
  by (subst rust_loop.simps) (simp add: body_eq pbind_def)

lemma driver_panics:
  "future st w = Some (Panic e, w1) \<Longrightarrow> rust_loop body st w = Some (Panic e, w1)"
  by (rule rust_loop_Panic) (simp add: body_eq)

text \<open>A driver returns if each iteration that does not end it decreases a measure.\<close>

lemma driver_returns:
  fixes m :: "'w \<Rightarrow> nat"
  assumes start: "Inv w"
    and fut: "\<And>st w. Inv w \<Longrightarrow> \<exists>p st' w1. future st w = Some (Return (p, st'), w1) \<and> Inv w1 \<and> m w1 \<le> m w"
    and dl: "\<And>w. Inv w \<Longrightarrow>
      \<exists>e w1. expired w = Some (Return e, w1) \<and> (\<not> e \<longrightarrow> Inv w1 \<and> m w1 < m w)"
    and idl: "\<And>w. Inv w \<Longrightarrow> \<exists>w1. idle w = Some (Return (), w1) \<and> Inv w1 \<and> m w1 \<le> m w"
  shows "\<exists>r w'. rust_loop body st w = Some (Return r, w') \<and> True"
proof (rule rust_loop_total [where Inv = "\<lambda>_ w. Inv w" and m = "\<lambda>_ w. m w"])
  fix st w assume inv: "Inv w"
  from fut [OF inv, of st] obtain p st' w1
    where f: "future st w = Some (Return (p, st'), w1)" and i1: "Inv w1" "m w1 \<le> m w" by blast
  from dl [OF i1(1)] obtain e w2 where e: "expired w1 = Some (Return e, w2)"
    and i2: "\<not> e \<longrightarrow> Inv w2 \<and> m w2 < m w1" by blast
  show "(\<exists>r w'. body st w = Some (Return (Break r), w') \<and> True) \<or>
    (\<exists>s' w'. body st w = Some (Return (Continue s'), w') \<and> Inv w' \<and> m w' < m w)"
  proof (cases "p = Pending \<and> \<not> e")
    case True
    with i2 idl obtain w3 where "idle w2 = Some (Return (), w3)" "Inv w3" "m w3 \<le> m w2" by blast
    with True f e i1 i2 show ?thesis by (auto simp: body_eq)
  next
    case False
    with f e show ?thesis by (cases p) (auto simp: body_eq)
  qed
qed (rule start)

end

interpretation poll_driver: future_driver
  "poll_on_body api k future timeout start" future "timed_out api k timeout start"
  "sys_set_network_polling_mode k False" "run_executor api k"
  for api k future timeout start
proof
  fix st w
  show "poll_on_body api k future timeout start st w =
    pbind (future st) (\<lambda>(p, st').
      case p of
        Ready t \<Rightarrow> (\<lambda>w. Some (Return (Break (Ok t)), sys_set_network_polling_mode k False w))
      | Pending \<Rightarrow> pbind (timed_out api k timeout start) (\<lambda>e.
          if e then (\<lambda>w. Some (Return (Break (Err ())), sys_set_network_polling_mode k False w))
          else pbind (run_executor api k) (\<lambda>_. pret (Continue st')))) w"
    unfolding poll_on_body_def
    by (rule arg_cong [where f = "\<lambda>g. pbind (future st) g w"])
      (auto simp: fun_eq_iff pbind_def split: poll.splits option.splits outcome.splits)
qed

interpretation block_driver: future_driver
  "block_on_body api k future timeout thread start" future "timed_out api k timeout start"
  "\<lambda>w. w" "idle_or_park api k thread"
  for api k future timeout thread start
proof
  fix st w
  show "block_on_body api k future timeout thread start st w =
    pbind (future st) (\<lambda>(p, st').
      case p of
        Ready t \<Rightarrow> (\<lambda>w. Some (Return (Break (Ok t)), w))
      | Pending \<Rightarrow> pbind (timed_out api k timeout start) (\<lambda>e.
          if e then (\<lambda>w. Some (Return (Break (Err ())), w))
          else pbind (idle_or_park api k thread) (\<lambda>_. pret (Continue st')))) w"
    unfolding block_on_body_def
    by (rule arg_cong [where f = "\<lambda>g. pbind (future st) g w"])
      (auto simp: fun_eq_iff pbind_def split: poll.splits option.splits outcome.splits)
qed

section \<open>Properties\<close>

lemma timed_out_True:
  "timed_out api k timeout start w = Some (Return True, w') \<Longrightarrow>
     \<exists>d now. timeout = Some d \<and> instant_now k w = (now, w') \<and> Instant_add api start d \<le> now"
  by (auto simp: timed_out_def pbind_def split: option.splits prod.splits)

lemma timed_out_Some:
  "instant_now k w = (now, w') \<Longrightarrow>
     timed_out api k (Some d) start w = Some (Return (now \<ge> Instant_add api start d), w')"
  by (simp add: timed_out_def)

lemma poll_driver_result:
  assumes "poll_on api k future st timeout w = Some (Return r, w')"
  shows "\<exists>w1. w' = sys_set_network_polling_mode k False w1 \<and>
    (case r of
       Ok t \<Rightarrow> \<exists>s s' w0. future_reaches (future (ThreadWaker (sys_getpid k w))) st s \<and>
         future (ThreadWaker (sys_getpid k w)) s w0 = Some (Return (Ready t, s'), w1)
     | Err u \<Rightarrow> \<exists>d now w0. timeout = Some d \<and> instant_now k w0 = (now, w1) \<and>
         Instant_add api (fst (instant_now k (sys_set_network_polling_mode k True w))) d \<le> now)"
proof -
  obtain start w2 where s: "instant_now k (sys_set_network_polling_mode k True w) = (start, w2)"
    by fastforce
  from assms have "rust_loop (poll_on_body api k (future (ThreadWaker (sys_getpid k w))) timeout start)
      st w2 = Some (Return r, w')"
    by (simp add: poll_on_def Let_def s)
  from poll_driver.driver_result [OF this] show ?thesis
    by (cases r) (use timed_out_True in \<open>auto simp: s, blast\<close>)
qed

lemma block_driver_result:
  assumes "block_on api k future st timeout w = Some (Return r, w')"
  shows "case r of
       Ok t \<Rightarrow> \<exists>s s' w0. future_reaches (future (ThreadWaker (sys_getpid k w))) st s \<and>
         future (ThreadWaker (sys_getpid k w)) s w0 = Some (Return (Ready t, s'), w')
     | Err u \<Rightarrow> \<exists>d now w0. timeout = Some d \<and> instant_now k w0 = (now, w') \<and>
         Instant_add api (fst (instant_now k w)) d \<le> now"
proof -
  obtain start w2 where s: "instant_now k w = (start, w2)" by fastforce
  from assms have "rust_loop (block_on_body api k (future (ThreadWaker (sys_getpid k w))) timeout
      (sys_getpid k w) start) st w2 = Some (Return r, w')"
    by (simp add: block_on_def Let_def s)
  from block_driver.driver_result [OF this] show ?thesis
    by (cases r) (use timed_out_True in \<open>auto simp: s, blast\<close>)
qed

text \<open>
  C21: what \<open>poll_on\<close> returns. \<open>Ok(t)\<close> is the value the future gave when it became ready, in a
  state it reached from its start by polls that left it pending; \<open>Err(())\<close> is
  returned only when a timeout was given and a clock reading reached the first reading plus that
  timeout. On both ways out the last action is to switch the network polling mode off.
\<close>
theorem poll_on_result:
  assumes "poll_on api k future st timeout w = Some (Return r, w')"
  shows "\<exists>w1. w' = sys_set_network_polling_mode k False w1 \<and>
    (case r of
       Ok t \<Rightarrow> \<exists>s s' w0. future_reaches (future (ThreadWaker (sys_getpid k w))) st s \<and>
         future (ThreadWaker (sys_getpid k w)) s w0 = Some (Return (Ready t, s'), w1)
     | Err u \<Rightarrow> \<exists>d now w0. timeout = Some d \<and> instant_now k w0 = (now, w1) \<and>
         Instant_add api (fst (instant_now k (sys_set_network_polling_mode k True w))) d \<le> now)"
  using assms by (rule poll_driver_result)

text \<open>
  what \<open>block_on\<close> returns: \<open>Ok(t)\<close> is the value of the ready future, \<open>Err(())\<close> means that a timeout
  was given and a clock reading reached the deadline.
\<close>
theorem block_on_result:
  assumes "block_on api k future st timeout w = Some (Return r, w')"
  shows "case r of
       Ok t \<Rightarrow> \<exists>s s' w0. future_reaches (future (ThreadWaker (sys_getpid k w))) st s \<and>
         future (ThreadWaker (sys_getpid k w)) s w0 = Some (Return (Ready t, s'), w')
     | Err u \<Rightarrow> \<exists>d now w0. timeout = Some d \<and> instant_now k w0 = (now, w') \<and>
         Instant_add api (fst (instant_now k w)) d \<le> now"
  using assms by (rule block_driver_result)

text \<open>
  A clock: \<open>clk\<close> is the time in a finer unit than the readings (\<open>res\<close> of it make one millisecond), and
  every reading takes some time.
\<close>

definition clock_laws :: "('w, 'r) kernel \<Rightarrow> ('w \<Rightarrow> int) \<Rightarrow> int \<Rightarrow> bool" where
  "clock_laws k clk res \<longleftrightarrow> 0 < res \<and>
     (\<forall>w now w'. instant_now k w = (now, w') \<longrightarrow> now = clk w div res \<and> clk w < clk w')"

lemma int_div_less_mult:
  fixes a d r :: int
  assumes "0 < r" and "a div r < d"
  shows "a < d * r"
proof -
  have "a div r * r + a mod r = a" by (rule div_mult_mod_eq)
  moreover have "a mod r < r" using assms(1) by simp
  moreover have "(a div r + 1) * r = a div r * r + r" by (simp add: distrib_right)
  ultimately have "a < (a div r + 1) * r" by linarith
  also have "\<dots> \<le> d * r" using assms by (simp add: mult_right_mono)
  finally show ?thesis .
qed

lemma timed_out_progress:
  assumes "clock_laws k clk res"
  shows "\<exists>e w1. timed_out api k (Some d) start w = Some (Return e, w1) \<and>
    (\<not> e \<longrightarrow> nat (Instant_add api start d * res - clk w1) < nat (Instant_add api start d * res - clk w))"
proof -
  obtain now w1 where n: "instant_now k w = (now, w1)" by fastforce
  with assms have now: "now = clk w div res" and "clk w < clk w1" and "0 < res"
    by (auto simp: clock_laws_def)
  have "clk w < Instant_add api start d * res" if "\<not> now \<ge> Instant_add api start d"
    using that \<open>0 < res\<close> now by (simp add: int_div_less_mult not_le)
  with \<open>clk w < clk w1\<close> show ?thesis by (auto simp: timed_out_Some [OF n])
qed

text \<open>
  C22: a timeout makes \<open>poll_on\<close> return, whether or not the future ever becomes ready. Four things are
  assumed: in the worlds of some invariant, every poll of the future returns, every run of the executor
  returns, neither moves the clock back (they and the readings of the clock keep the invariant), and every
  reading of the clock takes some time.
\<close>
theorem poll_on_timeout_returns:
  assumes clock: "clock_laws k clk res"
    and start: "Inv (snd (instant_now k (sys_set_network_polling_mode k True w0)))"
    and now: "\<forall>w. Inv w \<longrightarrow> Inv (snd (instant_now k w))"
    and fut: "\<forall>st w. Inv w \<longrightarrow> (\<exists>p st' w1. future (ThreadWaker (sys_getpid k w0)) st w =
      Some (Return (p, st'), w1) \<and> Inv w1 \<and> clk w \<le> clk w1)"
    and exe: "\<forall>w. Inv w \<longrightarrow> (\<exists>w1. run_executor api k w = Some (Return (), w1) \<and> Inv w1 \<and> clk w \<le> clk w1)"
  shows "\<exists>r w'. poll_on api k future st (Some d) w0 = Some (Return r, w')"
proof -
  obtain start w2 where s: "instant_now k (sys_set_network_polling_mode k True w0) = (start, w2)"
    by fastforce
  let ?m = "\<lambda>w. nat (Instant_add api start d * res - clk w)"
  have mono: "clk w \<le> clk w1 \<Longrightarrow> ?m w1 \<le> ?m w" for w w1 by linarith
  have "\<exists>r w'. rust_loop (poll_on_body api k (future (ThreadWaker (sys_getpid k w0))) (Some d) start)
      st w2 = Some (Return r, w') \<and> True"
  proof (rule poll_driver.driver_returns [where Inv = Inv and m = ?m])
    fix st w assume "Inv w"
    with fut show "\<exists>p st' w1. future (ThreadWaker (sys_getpid k w0)) st w = Some (Return (p, st'), w1)
      \<and> Inv w1 \<and> ?m w1 \<le> ?m w" by (meson mono)
  next
    fix w assume inv: "Inv w"
    obtain e w1 where e: "timed_out api k (Some d) start w = Some (Return e, w1)"
      and m: "\<not> e \<longrightarrow> ?m w1 < ?m w" using timed_out_progress [OF clock] by blast
    from e have "w1 = snd (instant_now k w)"
      by (auto simp: timed_out_def pbind_def split: prod.splits)
    with e m now inv show "\<exists>e w1. timed_out api k (Some d) start w = Some (Return e, w1) \<and>
      (\<not> e \<longrightarrow> Inv w1 \<and> ?m w1 < ?m w)" by blast
  next
    fix w assume "Inv w"
    with exe show "\<exists>w1. run_executor api k w = Some (Return (), w1) \<and> Inv w1 \<and> ?m w1 \<le> ?m w"
      by (meson mono)
  qed (use start s in simp)
  then show ?thesis by (simp add: poll_on_def Let_def s)
qed

lemma demo_clock: "clock_laws demo_kernel (\<lambda>w. env_clock (world.more w)) 1"
  by (auto simp: clock_laws_def demo_kernel_def)

lemma demo_run_executor_empty:
  "env_queue (world.more w) = [] \<Longrightarrow> run_executor demo_stack demo_kernel w = Some (Return (), w)"
  unfolding run_executor_def by (rule rust_loop_Break) (simp add: demo_kernel_def)

theorem poll_on_timeout_returns_witness:
  "\<exists>r w'. poll_on demo_stack demo_kernel (\<lambda>cx st. pret (Pending :: unit poll, st)) () (Some 10) demo_world0
     = Some (Return r, w')"
  by (rule poll_on_timeout_returns [OF demo_clock, where Inv = "\<lambda>w. env_queue (world.more w) = []"])
    (auto simp: demo_run_executor_empty demo_kernel_sels demo_log_def demo_world0_def)

theorem poll_on_result_witness:
  "\<exists>w'. poll_on demo_stack demo_kernel (\<lambda>cx st. pret (Ready (5::nat), st)) () None demo_world0
       = Some (Return (Ok 5), w') \<and> (\<exists>w1. w' = sys_set_network_polling_mode demo_kernel False w1)"
proof -
  let ?run = "poll_on demo_stack demo_kernel (\<lambda>cx st. pret (Ready (5::nat), st)) () None demo_world0"
  have "\<exists>w'. ?run = Some (Return (Ok 5), w')"
    by (simp add: poll_on_def Let_def demo_defs poll_driver.driver_ready)
  then obtain w' where "?run = Some (Return (Ok 5), w')" ..
  with poll_on_result [OF this] show ?thesis by blast
qed

theorem block_on_result_witness:
  "\<exists>w'. block_on demo_stack demo_kernel (\<lambda>cx st. pret (Pending :: nat poll, st)) () (Some 0) demo_world0
       = Some (Return (Err ()), w') \<and>
     (\<exists>now w0. instant_now demo_kernel w0 = (now, w') \<and>
        Instant_add demo_stack (fst (instant_now demo_kernel demo_world0)) 0 \<le> now)"
proof -
  let ?run = "block_on demo_stack demo_kernel (\<lambda>cx st. pret (Pending :: nat poll, st)) () (Some 0) demo_world0"
  have "\<exists>w'. ?run = Some (Return (Err ()), w')"
    by (simp add: block_on_def Let_def demo_defs block_driver.driver_expired timed_out_def)
  then obtain w' where "?run = Some (Return (Err ()), w')" ..
  with block_on_result [OF this] show ?thesis by auto
qed

text \<open>
  a wake-up that comes before the thread parks is not lost: \<open>park\<close> after \<open>wake_by_ref\<close> returns at
  once, without blocking the thread, and clears the flag for the next time.
\<close>
theorem wake_before_park_not_lost:
  assumes "wake_frame k"
  shows "park api k thread delay (wake_by_ref k thread w) =
    Some (Return (), (wake_by_ref k thread w)\<lparr>unparked := (unparked w)(thread := False)\<rparr>)"
  by (simp add: park_def swap_unparked_def wake_by_ref_unparked [OF assms])

theorem wake_before_park_not_lost_witness:
  "park demo_stack demo_kernel 7 None (wake_by_ref demo_kernel 7 demo_world0) =
    Some (Return (), (wake_by_ref demo_kernel 7 demo_world0)\<lparr>unparked := (unparked demo_world0)(7 := False)\<rparr>)"
  by (rule wake_before_park_not_lost [OF demo_wake_frame])

text \<open>
  C40: \<open>block_on\<close> does not enforce its timeout while it is parked: if the future is pending, the stack
  has no timer running (\<open>network_delay\<close> is \<open>None\<close>) and no other thread wakes the blocked thread, the
  call never returns, however short the timeout is.
\<close>
theorem block_on_timeout_not_enforced:
  assumes "instant_now k w = (start, w1)"
    and "future (ThreadWaker (sys_getpid k w)) st w1 = Some (Return (Pending, st'), w2)"
    and "instant_now k w2 = (now, w3)" and "now < Instant_add api start d"
    and "instant_now k w3 = (now', w4)"
    and "\<not> nic_poisoned w4" and "nic_state w4 = Initialized nic" and "poll_delay api now' nic = None"
    and "\<not> unparked w4 (sys_getpid k w)"
    and "sys_yield k (sys_block_current_task k
           (w4\<lparr>unparked := (unparked w4)(sys_getpid k w := False)\<rparr>)) = None"
  shows "block_on api k future st (Some d) w = None"
proof -
  have "network_delay api now' w4 = Some (Return None, w4)"
    using assms(6-8) by (simp add: network_delay_def)
  then have "idle_or_park api k (sys_getpid k w) w3 = None"
    using assms(5,9,10) by (simp add: idle_or_park_def park_def swap_unparked_def block_current_def)
  moreover have "timed_out api k (Some d) start w2 = Some (Return False, w3)"
    using assms(3,4) by (simp add: timed_out_Some)
  ultimately show ?thesis
    using block_driver.driver_stuck
      [where future = "future (ThreadWaker (sys_getpid k w))", OF assms(2)] assms(1)
    by (simp add: block_on_def Let_def)
qed

definition demo_lonely_kernel :: "(demo_world, nat) kernel" where
  "demo_lonely_kernel = demo_kernel\<lparr>sys_yield := (\<lambda>w. None)\<rparr>"

definition demo_idle_world :: demo_world where
  "demo_idle_world = demo_world0\<lparr>nic_state := Initialized (demo_nic\<lparr>iface :=
     \<lparr>if_work = 0, if_addrs = [], if_routes = []\<rparr>\<rparr>)\<rparr>"

theorem block_on_timeout_not_enforced_witness:
  "block_on demo_stack demo_lonely_kernel (\<lambda>cx st. pret (Pending :: unit poll, st)) () (Some 10) demo_idle_world = None"
  by (rule block_on_timeout_not_enforced [where nic = "demo_nic\<lparr>iface :=
     \<lparr>if_work = 0, if_addrs = [], if_routes = []\<rparr>\<rparr>"])
    (simp add: demo_lonely_kernel_def demo_idle_world_def demo_defs poll_delay_def)+

text \<open>
  \<open>run_executor\<close> returns only when the run queue is empty: the last call on the queue found nothing.
\<close>
theorem run_executor_drains:
  assumes "run_executor api k w = Some (Return (), w')"
  shows "\<exists>w0. queue_pop k w0 = (None, w')"
proof -
  have "(\<lambda>(out, w'). out = Return () \<longrightarrow> (\<exists>w0. queue_pop k w0 = (None, w'))) (Return (), w')"
    using assms unfolding run_executor_def
    by (rule rust_loop_invariant [where Inv = "\<lambda>_ _. True"])
      (auto simp: pbind_Return_iff split: option.splits prod.splits)
  then show ?thesis by simp
qed

theorem run_executor_drains_witness:
  "\<exists>w0. queue_pop demo_kernel w0 = (None, demo_world0)"
  by (rule run_executor_drains [OF demo_run_executor_empty]) (simp add: demo_world0_def)

end
