(* ===== verification/Async_Socket.thy ===== *)
theory Async_Socket
  imports Executor
begin

text \<open>
  The asynchronous sockets of \<open>hermit-sys/src/net/mod.rs\<close> (\<open>AsyncSocket\<close>). A closure that is run
  by \<open>with\<close> is a computation on the socket; the closure of a \<open>poll_fn\<close> is a function from the waker
  and the socket to the poll result, the new socket and the wakers the stack called. An \<open>async fn\<close>
  is a state machine: a datatype with one constructor per suspension point and a poll function.

  The locale \<open>socket_poll\<close> is the contract of a \<open>poll_fn\<close> closure: it leaves \<open>Pending\<close> only after it
  has registered the waker with the socket. What this gives through \<open>with\<close> is proved once and the
  locale is interpreted on the six closures of the source.
\<close>

section \<open>Sockets and \<open>with\<close>\<close>

definition AsyncSocket_new :: "('ifc, 'set, 'sock, 'dhcp) smoltcp \<Rightarrow>
    (('ifc, 'set, 'dhcp, 'x) world_scheme, Handle) prog" where
  "AsyncSocket_new api = nic_lock (\<lambda>w.
     case as_nic_mut (nic_state w) of
       Err e \<Rightarrow> ppanic e w
     | Ok nic \<Rightarrow>
         (case create_handle api nic of (r, nic') \<Rightarrow>
            pbind (pmodify (set_nic nic')) (\<lambda>_. punwrap ''create_handle'' r) w))"

definition socket_with :: "('ifc, 'set, 'sock, 'dhcp) smoltcp \<Rightarrow>
    ('ifc, 'set, 'dhcp, 'x, 'r) hkernel \<Rightarrow> Handle \<Rightarrow>
    ('sock \<Rightarrow> (('ifc, 'set, 'dhcp, 'x) world_scheme, 'a \<times> 'sock) prog) \<Rightarrow>
    (('ifc, 'set, 'dhcp, 'x) world_scheme, 'a) prog" where
  "socket_with api k h f = nic_lock (\<lambda>w.
     case as_nic_mut (nic_state w) of
       Err e \<Rightarrow> ppanic e w
     | Ok nic \<Rightarrow>
         (case SocketSet_get api (sockets nic) h of
            None \<Rightarrow> ppanic ''handle does not refer to a valid socket'' w
          | Some s \<Rightarrow>
              pbind (f s) (\<lambda>(res, s').
                pbind (nic_wake k (nic\<lparr>sockets := SocketSet_put api h s' (sockets nic)\<rparr>)) (\<lambda>nic'.
                  pbind (pmodify (set_nic nic')) (\<lambda>_. pret res))) w))"

text \<open>A socket operation of the stack, with the wake-ups it makes.\<close>

definition run_op :: "('ifc, 'set, 'dhcp, 'x, 'r) hkernel \<Rightarrow> ('sock, 'a) sock_op \<Rightarrow> 'sock \<Rightarrow>
    (('ifc, 'set, 'dhcp, 'x) world_scheme, 'a \<times> 'sock) prog" where
  "run_op k op s = (case op s of (r, s', ws) \<Rightarrow> pbind (wake_all k ws) (\<lambda>_. pret (r, s')))"

definition pend :: "('sock, unit) sock_op \<Rightarrow> ('sock, 'a poll) sock_op" where
  "pend register s = (case register s of (u, s', ws) \<Rightarrow> (Pending, s', ws))"

section \<open>The closures of the \<open>poll_fn\<close> futures\<close>

definition connect_poll :: "('ifc, 'set, 'sock, 'dhcp) smoltcp \<Rightarrow> Handle \<Rightarrow> Waker \<Rightarrow>
    ('sock, (Handle, smoltcp_error) result poll) sock_op" where
  "connect_poll api h cx s =
     (case TcpSocket_state api s of
        Closed \<Rightarrow> (Ready (Err Unaddressable), s, [])
      | TimeWait \<Rightarrow> (Ready (Err Unaddressable), s, [])
      | Listen \<Rightarrow> (Ready (Err Illegal), s, [])
      | SynSent \<Rightarrow> pend (TcpSocket_register_send_waker api cx) s
      | SynReceived \<Rightarrow> pend (TcpSocket_register_send_waker api cx) s
      | _ \<Rightarrow> (Ready (Ok h), s, []))"

definition accept_poll :: "('ifc, 'set, 'sock, 'dhcp) smoltcp \<Rightarrow> Waker \<Rightarrow>
    ('sock, (unit, smoltcp_error) result poll) sock_op" where
  "accept_poll api cx s =
     (if TcpSocket_is_active api s then (Ready (Ok ()), s, [])
      else case TcpSocket_state api s of
        Closed \<Rightarrow> (Ready (Err Illegal), s, [])
      | Closing \<Rightarrow> (Ready (Err Illegal), s, [])
      | FinWait1 \<Rightarrow> (Ready (Err Illegal), s, [])
      | FinWait2 \<Rightarrow> (Ready (Err Illegal), s, [])
      | _ \<Rightarrow> pend (TcpSocket_register_recv_waker api cx) s)"

text \<open>The pattern \<open>FinWait1 | FinWait2 | Closed | Closing | TimeWait\<close> of \<open>read\<close>, \<open>write\<close> and \<open>close\<close>.\<close>

fun is_shut :: "TcpState \<Rightarrow> bool" where
  "is_shut FinWait1 = True"
| "is_shut FinWait2 = True"
| "is_shut Closed = True"
| "is_shut Closing = True"
| "is_shut TimeWait = True"
| "is_shut _ = False"

definition map_ready :: "('a \<Rightarrow> 'b) \<Rightarrow> 'a \<times> 'sock \<times> Waker list \<Rightarrow> 'b poll \<times> 'sock \<times> Waker list" where
  "map_ready f r = (case r of (a, s, ws) \<Rightarrow> (Ready (f a), s, ws))"

definition read_poll :: "('ifc, 'set, 'sock, 'dhcp) smoltcp \<Rightarrow> nat \<Rightarrow> Waker \<Rightarrow>
    ('sock, (u8 list, smoltcp_error) result poll) sock_op" where
  "read_poll api len cx s =
     (if is_shut (TcpSocket_state api s) then (Ready (Err Illegal), s, [])
      else if TcpSocket_can_recv api s then map_ready id (TcpSocket_recv_slice api len s)
      else if \<not> TcpSocket_may_recv api s then (Ready (Ok []), s, [])
      else pend (TcpSocket_register_recv_waker api cx) s)"

definition write_poll :: "('ifc, 'set, 'sock, 'dhcp) smoltcp \<Rightarrow> u8 list \<Rightarrow> Waker \<Rightarrow>
    ('sock, (nat, smoltcp_error) result poll) sock_op" where
  "write_poll api buffer cx s =
     (if is_shut (TcpSocket_state api s) then (Ready (Err Illegal), s, [])
      else if \<not> TcpSocket_may_recv api s then (Ready (Ok 0), s, [])
      else if TcpSocket_can_send api s
      then map_ready (map_err (\<lambda>_. Illegal)) (TcpSocket_send_slice api buffer s)
      else pend (TcpSocket_register_send_waker api cx) s)"

definition close_drain_poll :: "('ifc, 'set, 'sock, 'dhcp) smoltcp \<Rightarrow> Waker \<Rightarrow>
    ('sock, (unit, smoltcp_error) result poll) sock_op" where
  "close_drain_poll api cx s =
     (if is_shut (TcpSocket_state api s) then (Ready (Err Illegal), s, [])
      else if TcpSocket_send_queue api s > 0 then pend (TcpSocket_register_send_waker api cx) s
      else map_ready Ok (TcpSocket_close api s))"

definition close_wait_poll :: "('ifc, 'set, 'sock, 'dhcp) smoltcp \<Rightarrow> Waker \<Rightarrow>
    ('sock, (unit, smoltcp_error) result poll) sock_op" where
  "close_wait_poll api cx s =
     (if is_shut (TcpSocket_state api s) then (Ready (Ok ()), s, [])
      else pend (TcpSocket_register_send_waker api cx) s)"

section \<open>The \<open>async fn\<close>s\<close>

text \<open>A \<open>poll_fn\<close> that runs one of the closures through \<open>with\<close>.\<close>

definition poll_with :: "('ifc, 'set, 'sock, 'dhcp) smoltcp \<Rightarrow>
    ('ifc, 'set, 'dhcp, 'x, 'r) hkernel \<Rightarrow> Handle \<Rightarrow> ('sock, 'a poll) sock_op \<Rightarrow>
    (('ifc, 'set, 'dhcp, 'x) world_scheme, 'a poll) prog" where
  "poll_with api k h op = socket_with api k h (run_op k op)"

definition resumed_after_completion :: "('w, 'a) prog" where
  "resumed_after_completion = ppanic ''`async fn` resumed after completion''"

datatype connect_future = ConnectStart "u8 list" u16 | ConnectWait | ConnectDone

text \<open>The closure of the first \<open>with\<close> of \<open>connect\<close>: the port is drawn while the lock is held.\<close>

definition connect_start :: "('ifc, 'set, 'sock, 'dhcp) smoltcp \<Rightarrow>
    ('ifc, 'set, 'dhcp, 'x, 'r) hkernel \<Rightarrow> IpAddress \<times> u16 \<Rightarrow> 'sock \<Rightarrow>
    (('ifc, 'set, 'dhcp, 'x) world_scheme, (unit, smoltcp_error) result \<times> 'sock) prog" where
  "connect_start api k remote s =
     pbind (pcall (\<lambda>w. (LOCAL_ENDPOINT w, w\<lparr>LOCAL_ENDPOINT := LOCAL_ENDPOINT w + 1\<rparr>)))
       (\<lambda>local_port. run_op k (TcpSocket_connect api remote local_port) s)"

definition connect_wait :: "('ifc, 'set, 'sock, 'dhcp) smoltcp \<Rightarrow>
    ('ifc, 'set, 'dhcp, 'x, 'r) hkernel \<Rightarrow> Handle \<Rightarrow> Waker \<Rightarrow>
    (('ifc, 'set, 'dhcp, 'x) world_scheme,
     (Handle, smoltcp_error) result poll \<times> connect_future) prog" where
  "connect_wait api k h cx =
     pbind (poll_with api k h (connect_poll api h cx)) (\<lambda>p.
       pret (p, case p of Pending \<Rightarrow> ConnectWait | Ready _ \<Rightarrow> ConnectDone))"

fun AsyncSocket_connect :: "('ifc, 'set, 'sock, 'dhcp) smoltcp \<Rightarrow>
    ('ifc, 'set, 'dhcp, 'x, 'r) hkernel \<Rightarrow> Handle \<Rightarrow> Waker \<Rightarrow> connect_future \<Rightarrow>
    (('ifc, 'set, 'dhcp, 'x) world_scheme,
     (Handle, smoltcp_error) result poll \<times> connect_future) prog" where
  "AsyncSocket_connect api k h cx (ConnectStart ip port) =
     (case from_utf8 ip of
        Err _ \<Rightarrow> pret (Ready (Err Illegal), ConnectDone)
      | Ok str \<Rightarrow>
          (case IpAddress_from_str api str of
             Err _ \<Rightarrow> pret (Ready (Err Illegal), ConnectDone)
           | Ok address \<Rightarrow>
               pbind (socket_with api k h (connect_start api k (address, port))) (\<lambda>r.
                 case r of
                   Err _ \<Rightarrow> pret (Ready (Err Illegal), ConnectDone)
                 | Ok _ \<Rightarrow> connect_wait api k h cx)))"
| "AsyncSocket_connect api k h cx ConnectWait = connect_wait api k h cx"
| "AsyncSocket_connect api k h cx ConnectDone = resumed_after_completion"

datatype accept_future = AcceptStart u16 | AcceptWait | AcceptDone

definition DEFAULT_KEEP_ALIVE_INTERVAL :: u64 where
  "DEFAULT_KEEP_ALIVE_INTERVAL = 75000"

text \<open>The body shared by the end of \<open>accept\<close> and \<open>sys_tcp_stream_peer_addr\<close>.\<close>

definition keep_alive_and_endpoint :: "('ifc, 'set, 'sock, 'dhcp) smoltcp \<Rightarrow> Handle \<Rightarrow>
    (('ifc, 'set, 'dhcp, 'x) world_scheme, (IpAddress \<times> u16, string) result) prog" where
  "keep_alive_and_endpoint api h = nic_lock (\<lambda>w.
     case as_nic_mut (nic_state w) of
       Err e \<Rightarrow> pret (Err e) w
     | Ok nic \<Rightarrow>
         (case SocketSet_get api (sockets nic) h of
            None \<Rightarrow> ppanic ''handle does not refer to a valid socket'' w
          | Some s \<Rightarrow>
              let s' = TcpSocket_set_keep_alive api (Some DEFAULT_KEEP_ALIVE_INTERVAL) s
              in pbind (pmodify (set_nic (nic\<lparr>sockets := SocketSet_put api h s' (sockets nic)\<rparr>)))
                   (\<lambda>_. pret (Ok (TcpSocket_remote_endpoint api s'))) w))"

definition accept_wait :: "('ifc, 'set, 'sock, 'dhcp) smoltcp \<Rightarrow>
    ('ifc, 'set, 'dhcp, 'x, 'r) hkernel \<Rightarrow> Handle \<Rightarrow> Waker \<Rightarrow>
    (('ifc, 'set, 'dhcp, 'x) world_scheme,
     (IpAddress \<times> u16, smoltcp_error) result poll \<times> accept_future) prog" where
  "accept_wait api k h cx =
     pbind (poll_with api k h (accept_poll api cx)) (\<lambda>p.
       case p of
         Pending \<Rightarrow> pret (Pending, AcceptWait)
       | Ready (Err e) \<Rightarrow> pret (Ready (Err e), AcceptDone)
       | Ready (Ok _) \<Rightarrow>
           pbind (keep_alive_and_endpoint api h) (\<lambda>r.
             pret (Ready (map_err (\<lambda>_. Illegal) r), AcceptDone)))"

fun AsyncSocket_accept :: "('ifc, 'set, 'sock, 'dhcp) smoltcp \<Rightarrow>
    ('ifc, 'set, 'dhcp, 'x, 'r) hkernel \<Rightarrow> Handle \<Rightarrow> Waker \<Rightarrow> accept_future \<Rightarrow>
    (('ifc, 'set, 'dhcp, 'x) world_scheme,
     (IpAddress \<times> u16, smoltcp_error) result poll \<times> accept_future) prog" where
  "AsyncSocket_accept api k h cx (AcceptStart port) =
     pbind (socket_with api k h (run_op k (TcpSocket_listen api port))) (\<lambda>r.
       case r of
         Err _ \<Rightarrow> pret (Ready (Err Illegal), AcceptDone)
       | Ok _ \<Rightarrow> accept_wait api k h cx)"
| "AsyncSocket_accept api k h cx AcceptWait = accept_wait api k h cx"
| "AsyncSocket_accept api k h cx AcceptDone = resumed_after_completion"

datatype read_future = ReadWait nat | ReadDone

fun AsyncSocket_read :: "('ifc, 'set, 'sock, 'dhcp) smoltcp \<Rightarrow>
    ('ifc, 'set, 'dhcp, 'x, 'r) hkernel \<Rightarrow> Handle \<Rightarrow> Waker \<Rightarrow> read_future \<Rightarrow>
    (('ifc, 'set, 'dhcp, 'x) world_scheme,
     (u8 list, smoltcp_error) result poll \<times> read_future) prog" where
  "AsyncSocket_read api k h cx (ReadWait len) =
     pbind (poll_with api k h (read_poll api len cx)) (\<lambda>p.
       pret (case p of
         Pending \<Rightarrow> (Pending, ReadWait len)
       | Ready r \<Rightarrow> (Ready (map_err (\<lambda>_. Illegal) r), ReadDone)))"
| "AsyncSocket_read api k h cx ReadDone = resumed_after_completion"

datatype write_future = WriteWait "u8 list" | WriteDone

fun AsyncSocket_write :: "('ifc, 'set, 'sock, 'dhcp) smoltcp \<Rightarrow>
    ('ifc, 'set, 'dhcp, 'x, 'r) hkernel \<Rightarrow> Handle \<Rightarrow> Waker \<Rightarrow> write_future \<Rightarrow>
    (('ifc, 'set, 'dhcp, 'x) world_scheme,
     (nat, smoltcp_error) result poll \<times> write_future) prog" where
  "AsyncSocket_write api k h cx (WriteWait buffer) =
     pbind (poll_with api k h (write_poll api buffer cx)) (\<lambda>p.
       pret (case p of
         Pending \<Rightarrow> (Pending, WriteWait buffer)
       | Ready r \<Rightarrow> (Ready r, WriteDone)))"
| "AsyncSocket_write api k h cx WriteDone = resumed_after_completion"

datatype close_future = CloseDrain | CloseAwait | CloseDone

definition close_await :: "('ifc, 'set, 'sock, 'dhcp) smoltcp \<Rightarrow>
    ('ifc, 'set, 'dhcp, 'x, 'r) hkernel \<Rightarrow> Handle \<Rightarrow> Waker \<Rightarrow>
    (('ifc, 'set, 'dhcp, 'x) world_scheme,
     (unit, smoltcp_error) result poll \<times> close_future) prog" where
  "close_await api k h cx =
     pbind (poll_with api k h (close_wait_poll api cx)) (\<lambda>p.
       pret (p, case p of Pending \<Rightarrow> CloseAwait | Ready _ \<Rightarrow> CloseDone))"

fun AsyncSocket_close :: "('ifc, 'set, 'sock, 'dhcp) smoltcp \<Rightarrow>
    ('ifc, 'set, 'dhcp, 'x, 'r) hkernel \<Rightarrow> Handle \<Rightarrow> Waker \<Rightarrow> close_future \<Rightarrow>
    (('ifc, 'set, 'dhcp, 'x) world_scheme,
     (unit, smoltcp_error) result poll \<times> close_future) prog" where
  "AsyncSocket_close api k h cx CloseDrain =
     pbind (poll_with api k h (close_drain_poll api cx)) (\<lambda>p.
       case p of
         Pending \<Rightarrow> pret (Pending, CloseDrain)
       | Ready (Err e) \<Rightarrow> pret (Ready (Err e), CloseDone)
       | Ready (Ok _) \<Rightarrow> close_await api k h cx)"
| "AsyncSocket_close api k h cx CloseAwait = close_await api k h cx"
| "AsyncSocket_close api k h cx CloseDone = resumed_after_completion"

section \<open>What \<open>with\<close> does\<close>

lemma nic_wake_Return_iff:
  "nic_wake k nic w = Some (Return nic', w') \<longleftrightarrow>
     nic' = nic\<lparr>nic_waker := \<lparr>waker = None\<rparr>\<rparr> \<and>
     wake_all k (case waker (nic_waker nic) of None \<Rightarrow> [] | Some t \<Rightarrow> [t]) w = Some (Return (), w')"
  by (cases "nic_waker nic")
    (auto simp: nic_wake_def WakerRegistration_wake_def pbind_Return_iff split: option.splits)

lemma socket_with_Return_iff:
  "socket_with api k h f w = Some (Return res, w') \<longleftrightarrow> \<not> nic_poisoned w \<and>
     (\<exists>nic s s' w1 w2. nic_state w = Initialized nic \<and> SocketSet_get api (sockets nic) h = Some s \<and>
        f s w = Some (Return (res, s'), w1) \<and>
        wake_all k (case waker (nic_waker nic) of None \<Rightarrow> [] | Some t \<Rightarrow> [t]) w1
          = Some (Return (), w2) \<and>
        w' = set_nic (nic\<lparr>sockets := SocketSet_put api h s' (sockets nic),
                          nic_waker := \<lparr>waker = None\<rparr>\<rparr>) w2)"
  by (auto simp: socket_with_def nic_lock_Return_iff nic_wake_Return_iff pbind_Return_iff
      as_nic_mut_cases split: result.splits option.splits)

lemma run_op_Return_iff:
  "run_op k op s w = Some (Return (r, s'), w') \<longleftrightarrow>
     (\<exists>ws. op s = (r, s', ws) \<and> wake_all k ws w = Some (Return (), w'))"
  by (auto simp: run_op_def pbind_Return_iff split: prod.splits)

lemma socket_with_uninitialized:
  "\<not> nic_poisoned w \<Longrightarrow> \<not> is_initialized (nic_state w) \<Longrightarrow>
     socket_with api k h f w = Some (Panic ''Network is not initialized!'', w\<lparr>nic_poisoned := True\<rparr>)"
  by (cases "nic_state w") (simp_all add: socket_with_def)

lemma AsyncSocket_new_uninitialized:
  "\<not> nic_poisoned w \<Longrightarrow> \<not> is_initialized (nic_state w) \<Longrightarrow>
     AsyncSocket_new api w = Some (Panic ''Network is not initialized!'', w\<lparr>nic_poisoned := True\<rparr>)"
  by (cases "nic_state w") (simp_all add: AsyncSocket_new_def)

lemma socket_with_poisoned:
  "nic_poisoned w \<Longrightarrow> socket_with api k h f w = Some (Panic ''PoisonError'', w)"
  by (simp add: socket_with_def)

lemma socket_with_total:
  assumes "wake_frame k" and "\<not> nic_poisoned w" and "nic_state w = Initialized nic"
    and "SocketSet_get api (sockets nic) h = Some s" and "f s w = Some (Return (res, s'), w1)"
  shows "\<exists>w'. socket_with api k h f w = Some (Return res, w') \<and>
    nic_state w' = Initialized (nic\<lparr>sockets := SocketSet_put api h s' (sockets nic),
      nic_waker := \<lparr>waker = None\<rparr>\<rparr>) \<and>
    nic_poisoned w' = nic_poisoned w1 \<and> LOCAL_ENDPOINT w' = LOCAL_ENDPOINT w1"
proof -
  from wake_all_frame [OF assms(1)] obtain w2 where
    "wake_all k (case waker (nic_waker nic) of None \<Rightarrow> [] | Some t \<Rightarrow> [t]) w1 = Some (Return (), w2)"
    and "same_statics w1 w2" by blast
  with assms(2-5) show ?thesis
    by (auto simp: socket_with_Return_iff set_nic_def same_statics_def)
qed

lemma run_op_total:
  assumes "wake_frame k" and "op s = (r, s', ws)"
  shows "\<exists>w'. run_op k op s w = Some (Return (r, s'), w') \<and> same_statics w w'"
  using wake_all_frame [OF assms(1), of ws w] assms(2) by (auto simp: run_op_Return_iff)

section \<open>The contract of a \<open>poll_fn\<close> closure\<close>

text \<open>
  One section of an operation under the lock of the interface, from \<open>w\<close> to \<open>w'\<close>: \<open>f\<close> has run on the
  socket, then the waker that the interface held for the task that drives the network has been woken.
\<close>

definition locked_section :: "('ifc, 'set, 'sock, 'dhcp) smoltcp \<Rightarrow>
    ('ifc, 'set, 'dhcp, 'x, 'r) hkernel \<Rightarrow> Handle \<Rightarrow>
    ('sock \<Rightarrow> (('ifc, 'set, 'dhcp, 'x) world_scheme, 'a \<times> 'sock) prog) \<Rightarrow>
    ('ifc, 'set, 'dhcp, 'x) world_scheme \<Rightarrow> ('ifc, 'set, 'dhcp, 'x) world_scheme \<Rightarrow> bool" where
  "locked_section api k h f w w' \<longleftrightarrow>
     (\<exists>nic s r s' w1 w2. nic_state w = Initialized nic \<and> SocketSet_get api (sockets nic) h = Some s \<and>
        f s w = Some (Return (r, s'), w1) \<and>
        wake_all k (case waker (nic_waker nic) of None \<Rightarrow> [] | Some t \<Rightarrow> [t]) w1 = Some (Return (), w2) \<and>
        w' = set_nic (nic\<lparr>sockets := SocketSet_put api h s' (sockets nic),
                          nic_waker := \<lparr>waker = None\<rparr>\<rparr>) w2)"

text \<open>
  How a future is left pending: in its last section it has registered the waker \<open>cx\<close> of its task with the
  socket, by \<open>register\<close>, and nothing else, and has woken the network task.
\<close>

definition registered_in :: "('ifc, 'set, 'sock, 'dhcp) smoltcp \<Rightarrow>
    ('ifc, 'set, 'dhcp, 'x, 'r) hkernel \<Rightarrow> (Waker \<Rightarrow> ('sock, unit) sock_op) \<Rightarrow> Waker \<Rightarrow> Handle \<Rightarrow>
    ('ifc, 'set, 'dhcp, 'x) world_scheme \<Rightarrow> ('ifc, 'set, 'dhcp, 'x) world_scheme \<Rightarrow> bool" where
  "registered_in api k register cx h w w' \<longleftrightarrow> locked_section api k h (run_op k (register cx)) w w'"

lemma socket_with_section:
  "socket_with api k h f w = Some (Return r, w') \<Longrightarrow> locked_section api k h f w w'"
  unfolding socket_with_Return_iff locked_section_def by blast

lemma poll_with_section:
  "poll_with api k h op w = Some (Return p, w') \<Longrightarrow> locked_section api k h (run_op k op) w w'"
  unfolding poll_with_def by (rule socket_with_section)

locale socket_poll =
  fixes api :: "('ifc, 'set, 'sock, 'dhcp) smoltcp"
    and poll :: "Waker \<Rightarrow> ('sock, 'a poll) sock_op"
    and register :: "Waker \<Rightarrow> ('sock, unit) sock_op"
  assumes pending_registers: "poll cx s = (Pending, s', ws) \<Longrightarrow> register cx s = ((), s', ws)"
begin

lemma pending_registered:
  assumes "poll_with api k h (poll cx) w = Some (Return Pending, w')"
  shows "registered_in api k register cx h w w'"
proof -
  have "run_op k (register cx) s w = Some (Return ((), s'), w1)"
    if "run_op k (poll cx) s w = Some (Return (Pending, s'), w1)" for s s' w w1
    using that by (auto simp: run_op_Return_iff dest: pending_registers)
  with assms show ?thesis
    unfolding registered_in_def locked_section_def poll_with_def socket_with_Return_iff by blast
qed

lemma ready_result:
  assumes "poll_with api k h (poll cx) w = Some (Return (Ready r), w')"
  shows "\<exists>nic s s' ws. nic_state w = Initialized nic \<and>
    SocketSet_get api (sockets nic) h = Some s \<and> poll cx s = (Ready r, s', ws) \<and>
    (\<exists>nic'. nic_state w' = Initialized nic' \<and>
      sockets nic' = SocketSet_put api h s' (sockets nic))"
  using assms unfolding poll_with_def socket_with_Return_iff run_op_Return_iff
  by (auto simp: set_nic_def)

end

lemma pend_eq: "pend op s = (Pending, s', ws) \<longleftrightarrow> op s = ((), s', ws)"
  by (auto simp: pend_def split: prod.splits)

lemma pend_not_ready [simp]: "pend op s \<noteq> (Ready r, s', ws)"
  by (auto simp: pend_def split: prod.splits)

lemma map_ready_eq:
  "map_ready f x = (p, s', ws) \<longleftrightarrow> (\<exists>a. x = (a, s', ws) \<and> p = Ready (f a))"
  by (auto simp: map_ready_def split: prod.splits)

interpretation connect_p: socket_poll api "connect_poll api h" "TcpSocket_register_send_waker api" for api h
  by unfold_locales (auto simp: connect_poll_def pend_eq split: TcpState.splits)

interpretation accept_p: socket_poll api "accept_poll api" "TcpSocket_register_recv_waker api" for api
  by unfold_locales (auto simp: accept_poll_def pend_eq split: TcpState.splits if_splits)

interpretation read_p: socket_poll api "read_poll api len" "TcpSocket_register_recv_waker api" for api len
  by unfold_locales (auto simp: read_poll_def pend_eq map_ready_eq split: if_splits)

interpretation write_p: socket_poll api "write_poll api buffer" "TcpSocket_register_send_waker api" for api buffer
  by unfold_locales (auto simp: write_poll_def pend_eq map_ready_eq split: if_splits)

interpretation close_drain_p: socket_poll api "close_drain_poll api" "TcpSocket_register_send_waker api" for api
  by unfold_locales (auto simp: close_drain_poll_def pend_eq map_ready_eq split: if_splits)

interpretation close_wait_p: socket_poll api "close_wait_poll api" "TcpSocket_register_send_waker api" for api
  by unfold_locales (auto simp: close_wait_poll_def pend_eq split: if_splits)

section \<open>Futures\<close>

lemma connect_wait_Return:
  "connect_wait api k h cx w = Some (Return (p, st), w') \<Longrightarrow>
     poll_with api k h (connect_poll api h cx) w = Some (Return p, w')"
  by (auto simp: connect_wait_def pbind_Return_iff)

lemma connect_pending:
  assumes "AsyncSocket_connect api k h cx st w = Some (Return (Pending, st'), w')"
  shows "case st of
      ConnectStart ip port \<Rightarrow> \<exists>remote r w0. snd remote = port \<and>
        socket_with api k h (connect_start api k remote) w = Some (Return r, w0) \<and>
        poll_with api k h (connect_poll api h cx) w0 = Some (Return Pending, w')
    | ConnectWait \<Rightarrow> poll_with api k h (connect_poll api h cx) w = Some (Return Pending, w')
    | ConnectDone \<Rightarrow> False"
proof (cases st)
  case (ConnectStart ip port)
  with assms obtain address r w0 where
    "socket_with api k h (connect_start api k (address, port)) w = Some (Return r, w0)"
    and "connect_wait api k h cx w0 = Some (Return (Pending, st'), w')"
    by (auto elim!: pbind_ReturnE split: result.split_asm)
  with ConnectStart connect_wait_Return [OF this(2)] show ?thesis by fastforce
qed (use assms in \<open>auto simp: resumed_after_completion_def dest: connect_wait_Return\<close>)

lemma accept_wait_pending:
  "accept_wait api k h cx w = Some (Return (Pending, st), w') \<Longrightarrow>
     poll_with api k h (accept_poll api cx) w = Some (Return Pending, w')"
  by (auto simp: accept_wait_def elim!: pbind_ReturnE split: poll.split_asm result.split_asm)

lemma accept_pending:
  assumes "AsyncSocket_accept api k h cx st w = Some (Return (Pending, st'), w')"
  shows "case st of
      AcceptStart port \<Rightarrow> \<exists>r w0. socket_with api k h (run_op k (TcpSocket_listen api port)) w = Some (Return r, w0) \<and>
        poll_with api k h (accept_poll api cx) w0 = Some (Return Pending, w')
    | AcceptWait \<Rightarrow> poll_with api k h (accept_poll api cx) w = Some (Return Pending, w')
    | AcceptDone \<Rightarrow> False"
  using assms
  by (cases st) (auto simp: resumed_after_completion_def elim!: pbind_ReturnE dest!: accept_wait_pending
    split: result.split_asm)

lemma read_pending:
  "AsyncSocket_read api k h cx st w = Some (Return (Pending, st'), w') \<Longrightarrow>
     \<exists>len. st = ReadWait len \<and> poll_with api k h (read_poll api len cx) w = Some (Return Pending, w')"
  by (cases st)
    (auto simp: resumed_after_completion_def elim!: pbind_ReturnE split: poll.split_asm)

lemma write_pending:
  "AsyncSocket_write api k h cx st w = Some (Return (Pending, st'), w') \<Longrightarrow>
     \<exists>bs. st = WriteWait bs \<and> poll_with api k h (write_poll api bs cx) w = Some (Return Pending, w')"
  by (cases st)
    (auto simp: resumed_after_completion_def elim!: pbind_ReturnE split: poll.split_asm)

lemma close_await_Return:
  "close_await api k h cx w = Some (Return (p, st), w') \<Longrightarrow>
     poll_with api k h (close_wait_poll api cx) w = Some (Return p, w')"
  by (auto simp: close_await_def pbind_Return_iff)

lemma close_pending:
  assumes "AsyncSocket_close api k h cx st w = Some (Return (Pending, st'), w')"
  shows "case st of
      CloseDrain \<Rightarrow> poll_with api k h (close_drain_poll api cx) w = Some (Return Pending, w') \<or>
        (\<exists>r w0. poll_with api k h (close_drain_poll api cx) w = Some (Return (Ready (Ok r)), w0) \<and>
           poll_with api k h (close_wait_poll api cx) w0 = Some (Return Pending, w'))
    | CloseAwait \<Rightarrow> poll_with api k h (close_wait_poll api cx) w = Some (Return Pending, w')
    | CloseDone \<Rightarrow> False"
  using assms
  by (cases st) (auto simp: resumed_after_completion_def elim!: pbind_ReturnE dest!: close_await_Return
    split: poll.split_asm result.split_asm)

lemma read_ready:
  assumes "AsyncSocket_read api k h cx (ReadWait len) w = Some (Return (Ready r, st'), w')"
  shows "\<exists>q. poll_with api k h (read_poll api len cx) w = Some (Return (Ready q), w') \<and>
    r = map_err (\<lambda>_. Illegal) q"
  using assms by (auto elim!: pbind_ReturnE split: poll.split_asm)

lemma write_ready:
  assumes "AsyncSocket_write api k h cx (WriteWait bs) w = Some (Return (Ready r, st'), w')"
  shows "poll_with api k h (write_poll api bs cx) w = Some (Return (Ready r), w')"
  using assms by (auto elim!: pbind_ReturnE split: poll.split_asm)

lemma read_reaches:
  "future_reaches (AsyncSocket_read api k h cx) (ReadWait len) s \<Longrightarrow> s = ReadWait len"
  by (erule future_reaches_invariant)
    (auto elim!: pbind_ReturnE split: poll.split_asm)

lemma write_reaches:
  "future_reaches (AsyncSocket_write api k h cx) (WriteWait bs) s \<Longrightarrow> s = WriteWait bs"
  by (erule future_reaches_invariant)
    (auto elim!: pbind_ReturnE split: poll.split_asm)

lemma poll_with_total:
  assumes "wake_frame k" and "\<not> nic_poisoned w" and "nic_state w = Initialized nic"
    and "SocketSet_get api (sockets nic) h = Some s" and "op s = (p, s', ws)"
  shows "\<exists>w'. poll_with api k h op w = Some (Return p, w') \<and> \<not> nic_poisoned w' \<and>
    LOCAL_ENDPOINT w' = LOCAL_ENDPOINT w \<and>
    nic_state w' = Initialized (nic\<lparr>sockets := SocketSet_put api h s' (sockets nic),
      nic_waker := \<lparr>waker = None\<rparr>\<rparr>)"
proof -
  from run_op_total [OF assms(1), of op s p s' ws w] assms(5) obtain w1
    where "run_op k op s w = Some (Return (p, s'), w1)" and "same_statics w w1" by blast
  with socket_with_total [OF assms(1-4)] show ?thesis
    using assms(2) by (fastforce simp: poll_with_def same_statics_def)
qed

text \<open>
  \<open>close\<close> succeeds only when the connection is shut: the socket is in one of the states \<open>FinWait1\<close>,
  \<open>FinWait2\<close>, \<open>Closed\<close>, \<open>Closing\<close> and \<open>TimeWait\<close>.
\<close>

lemma close_ready_shut:
  assumes laws: "socket_set_laws api"
    and ret: "AsyncSocket_close api k h cx st w = Some (Return (Ready (Ok ()), st'), w')"
  shows "\<exists>nic s. nic_state w' = Initialized nic \<and> SocketSet_get api (sockets nic) h = Some s \<and>
    is_shut (TcpSocket_state api s)"
proof -
  from ret have "\<exists>w1. close_await api k h cx w1 = Some (Return (Ready (Ok ()), st'), w')"
    by (cases st)
      (auto simp: resumed_after_completion_def elim!: pbind_ReturnE
        split: poll.split_asm result.split_asm)
  then obtain w1 where "poll_with api k h (close_wait_poll api cx) w1 = Some (Return (Ready (Ok ())), w')"
    by (blast dest: close_await_Return)
  from close_wait_p.ready_result [OF this] obtain nic s s' ws nic' where
    "nic_state w1 = Initialized nic" and get: "SocketSet_get api (sockets nic) h = Some s"
    and p: "close_wait_poll api cx s = (Ready (Ok ()), s', ws)"
    and nic': "nic_state w' = Initialized nic'" "sockets nic' = SocketSet_put api h s' (sockets nic)"
    by blast
  from p have "s' = s" and "is_shut (TcpSocket_state api s)"
    by (auto simp: close_wait_poll_def split: if_splits)
  with get nic' socket_set_get_put [OF laws, of "sockets nic" h s h] show ?thesis by simp
qed

section \<open>Handles\<close>

text \<open>A handle is valid when the socket set of the interface has a socket for it.\<close>

definition valid_handle :: "('ifc, 'set, 'sock, 'dhcp) smoltcp \<Rightarrow> Handle \<Rightarrow>
    ('ifc, 'set, 'dhcp, 'x) world_scheme \<Rightarrow> bool" where
  "valid_handle api h w \<longleftrightarrow>
     (\<exists>nic. nic_state w = Initialized nic \<and> SocketSet_get api (sockets nic) h \<noteq> None)"

text \<open>
  A property of the socket set that writing one socket keeps is kept by everything the crate does with
  that socket.
\<close>

definition in_sockets :: "('set \<Rightarrow> bool) \<Rightarrow> ('ifc, 'set, 'dhcp, 'x) world_scheme \<Rightarrow> bool" where
  "in_sockets Q w \<longleftrightarrow> (\<exists>nic. nic_state w = Initialized nic \<and> Q (sockets nic))"

locale socket_set_invariant =
  fixes api :: "('ifc, 'set, 'sock, 'dhcp) smoltcp"
    and h :: Handle
    and Q :: "'set \<Rightarrow> bool"
  assumes put: "Q ss \<Longrightarrow> SocketSet_get api ss h = Some t \<Longrightarrow> Q (SocketSet_put api h s ss)"
begin

lemma socket_with_keeps: "keeps (in_sockets Q) (socket_with api k h f)"
  unfolding keeps_def socket_with_Return_iff in_sockets_def set_nic_def by (auto intro: put)

lemma poll_with_keeps: "keeps (in_sockets Q) (poll_with api k h op)"
  unfolding poll_with_def by (rule socket_with_keeps)

lemma keep_alive_keeps: "keeps (in_sockets Q) (keep_alive_and_endpoint api h)"
  unfolding keeps_def in_sockets_def set_nic_def keep_alive_and_endpoint_def nic_lock_Return_iff
  by (auto simp: Let_def set_nic_def intro: put split: option.split_asm)

lemmas socket_keeps = socket_with_keeps poll_with_keeps keep_alive_keeps

lemma connect_keeps: "keeps (in_sockets Q) (AsyncSocket_connect api k h cx cst)"
  by (cases cst) (auto simp: connect_wait_def resumed_after_completion_def intro!: socket_keeps
      split: result.split)

lemma accept_keeps: "keeps (in_sockets Q) (AsyncSocket_accept api k h cx ast)"
  by (cases ast) (auto simp: accept_wait_def resumed_after_completion_def intro!: socket_keeps
      split: result.split poll.split)

lemma read_keeps: "keeps (in_sockets Q) (AsyncSocket_read api k h cx rst)"
  by (cases rst) (auto simp: resumed_after_completion_def intro!: poll_with_keeps)

lemma write_keeps: "keeps (in_sockets Q) (AsyncSocket_write api k h cx wst)"
  by (cases wst) (auto simp: resumed_after_completion_def intro!: poll_with_keeps)

lemma close_keeps: "keeps (in_sockets Q) (AsyncSocket_close api k h cx dst)"
  by (cases dst) (auto simp: close_await_def resumed_after_completion_def intro!: poll_with_keeps
      split: poll.split result.split)

end

text \<open>Two such properties: the set has a socket for a handle; another socket is the given one.\<close>

interpretation valid_set: socket_set_invariant api h
  "\<lambda>ss. socket_set_laws api \<longrightarrow> SocketSet_get api ss h' \<noteq> None" for api h h'
  by unfold_locales (simp add: socket_set_get_put)

interpretation other_socket: socket_set_invariant api h
  "\<lambda>ss. socket_set_laws api \<and> h' \<noteq> h \<longrightarrow> SocketSet_get api ss h' = Some s" for api h h' s
  by unfold_locales (simp add: socket_set_get_put)

lemma keeps_valid_handle:
  assumes "keeps (in_sockets (\<lambda>ss. socket_set_laws api \<longrightarrow> SocketSet_get api ss h \<noteq> None)) m"
    and "socket_set_laws api"
  shows "keeps (valid_handle api h) m"
  using assms by (simp add: keeps_def in_sockets_def valid_handle_def)

lemmas futures_keep = valid_set.connect_keeps [THEN keeps_valid_handle]
  valid_set.accept_keeps [THEN keeps_valid_handle] valid_set.read_keeps [THEN keeps_valid_handle]
  valid_set.write_keeps [THEN keeps_valid_handle] valid_set.close_keeps [THEN keeps_valid_handle]

lemma AsyncSocket_new_valid:
  assumes laws: "socket_set_laws api" and ret: "AsyncSocket_new api w = Some (Return h, w')"
  shows "valid_handle api h w' \<and> \<not> valid_handle api h w \<and>
    (valid_handle api h' w \<longrightarrow> valid_handle api h' w')"
proof -
  from ret obtain nic where nic: "nic_state w = Initialized nic"
    by (auto simp: AsyncSocket_new_def nic_lock_Return_iff as_nic_mut_cases split: result.split_asm)
  obtain ss where add: "SocketSet_add api (TcpSocket_new api (replicate 65535 0) (replicate 65535 0))
      (sockets nic) = (h, ss)" and w': "w' = set_nic (nic\<lparr>sockets := ss\<rparr>) w"
    using ret nic by (auto simp: AsyncSocket_new_def nic_lock_Return_iff create_handle_def Let_def
        split: prod.splits)
  from socket_set_add [OF laws add] nic w' show ?thesis
    by (auto simp: valid_handle_def set_nic_def)
qed

section \<open>Properties\<close>

text \<open>
  C5: no future of a socket is left pending without a wake-up on its way. When a poll of \<open>connect\<close>,
  \<open>accept\<close>, \<open>read\<close>, \<open>write\<close> or \<open>close\<close> returns \<open>Pending\<close>, its last section under the lock has registered the
  waker of the task with the socket, for receiving in \<open>accept\<close> and \<open>read\<close> and for sending in the others;
  and in every section, also the one that opens or closes the connection first, the waker that the
  interface held for the network task has been taken out and called.
\<close>
theorem pending_futures_are_registered:
  shows "(AsyncSocket_connect api k h cx cst w = Some (Return (Pending, cst'), w') \<longrightarrow>
      (case cst of
         ConnectStart ip port \<Rightarrow> \<exists>address w0. locked_section api k h (connect_start api k (address, port)) w w0 \<and>
           registered_in api k (TcpSocket_register_send_waker api) cx h w0 w'
       | ConnectWait \<Rightarrow> registered_in api k (TcpSocket_register_send_waker api) cx h w w'
       | ConnectDone \<Rightarrow> False)) \<and>
    (AsyncSocket_accept api k h cx ast w = Some (Return (Pending, ast'), w') \<longrightarrow>
      (case ast of
         AcceptStart port \<Rightarrow> \<exists>w0. locked_section api k h (run_op k (TcpSocket_listen api port)) w w0 \<and>
           registered_in api k (TcpSocket_register_recv_waker api) cx h w0 w'
       | AcceptWait \<Rightarrow> registered_in api k (TcpSocket_register_recv_waker api) cx h w w'
       | AcceptDone \<Rightarrow> False)) \<and>
    (AsyncSocket_read api k h cx rst w = Some (Return (Pending, rst'), w') \<longrightarrow>
      registered_in api k (TcpSocket_register_recv_waker api) cx h w w') \<and>
    (AsyncSocket_write api k h cx wst w = Some (Return (Pending, wst'), w') \<longrightarrow>
      registered_in api k (TcpSocket_register_send_waker api) cx h w w') \<and>
    (AsyncSocket_close api k h cx dst w = Some (Return (Pending, dst'), w') \<longrightarrow>
      (case dst of
         CloseDrain \<Rightarrow> registered_in api k (TcpSocket_register_send_waker api) cx h w w' \<or>
           (\<exists>w0. locked_section api k h (run_op k (close_drain_poll api cx)) w w0 \<and>
             registered_in api k (TcpSocket_register_send_waker api) cx h w0 w')
       | CloseAwait \<Rightarrow> registered_in api k (TcpSocket_register_send_waker api) cx h w w'
       | CloseDone \<Rightarrow> False))"
proof (intro conjI impI)
  assume "AsyncSocket_connect api k h cx cst w = Some (Return (Pending, cst'), w')"
  from connect_pending [OF this] show "case cst of
      ConnectStart ip port \<Rightarrow> \<exists>address w0. locked_section api k h (connect_start api k (address, port)) w w0 \<and>
        registered_in api k (TcpSocket_register_send_waker api) cx h w0 w'
    | ConnectWait \<Rightarrow> registered_in api k (TcpSocket_register_send_waker api) cx h w w'
    | ConnectDone \<Rightarrow> False"
    by (cases cst) (auto dest!: connect_p.pending_registered socket_with_section)
next
  assume "AsyncSocket_accept api k h cx ast w = Some (Return (Pending, ast'), w')"
  from accept_pending [OF this] show "case ast of
      AcceptStart port \<Rightarrow> \<exists>w0. locked_section api k h (run_op k (TcpSocket_listen api port)) w w0 \<and>
        registered_in api k (TcpSocket_register_recv_waker api) cx h w0 w'
    | AcceptWait \<Rightarrow> registered_in api k (TcpSocket_register_recv_waker api) cx h w w'
    | AcceptDone \<Rightarrow> False"
    by (cases ast) (auto dest!: accept_p.pending_registered socket_with_section)
next
  assume "AsyncSocket_close api k h cx dst w = Some (Return (Pending, dst'), w')"
  from close_pending [OF this] show "case dst of
      CloseDrain \<Rightarrow> registered_in api k (TcpSocket_register_send_waker api) cx h w w' \<or>
        (\<exists>w0. locked_section api k h (run_op k (close_drain_poll api cx)) w w0 \<and>
          registered_in api k (TcpSocket_register_send_waker api) cx h w0 w')
    | CloseAwait \<Rightarrow> registered_in api k (TcpSocket_register_send_waker api) cx h w w'
    | CloseDone \<Rightarrow> False"
    by (cases dst) (auto dest!: close_drain_p.pending_registered close_wait_p.pending_registered
      dest: poll_with_section)
qed (auto dest!: read_pending write_pending read_p.pending_registered write_p.pending_registered)

definition demo_conn_world :: "demo_sock \<Rightarrow> demo_world" where
  "demo_conn_world s = demo_world0\<lparr>nic_state := Initialized (demo_nic\<lparr>sockets := [s]\<rparr>)\<rparr>"

lemmas demo_run_defs = demo_conn_world_def demo_defs poll_with_def socket_with_def run_op_def
  nic_wake_def WakerRegistration_wake_def set_nic_def pend_def schedule_def map_ready_def

lemma demo_read_pending:
  "\<exists>w'. AsyncSocket_read demo_stack demo_kernel 0 (ThreadWaker 7) (ReadWait 4)
     (demo_conn_world (demo_closed\<lparr>sk_state := Established\<rparr>)) = Some (Return (Pending, ReadWait 4), w')"
  by (simp add: demo_run_defs read_poll_def)

theorem pending_futures_are_registered_witness:
  "\<exists>w'. AsyncSocket_read demo_stack demo_kernel 0 (ThreadWaker 7) (ReadWait 4)
     (demo_conn_world (demo_closed\<lparr>sk_state := Established\<rparr>)) = Some (Return (Pending, ReadWait 4), w')
     \<and> registered_in demo_stack demo_kernel (TcpSocket_register_recv_waker demo_stack) (ThreadWaker 7) 0
         (demo_conn_world (demo_closed\<lparr>sk_state := Established\<rparr>)) w'"
  using demo_read_pending pending_futures_are_registered [of demo_stack demo_kernel 0 "ThreadWaker 7"] by blast

text \<open>
  using a socket before the network is initialised panics while the lock is held, so it poisons
  the mutex: from then on every operation on any socket, the creation of sockets, the delay query and
  the network task itself panic.
\<close>
theorem uninitialized_use_poisons:
  assumes "\<not> nic_poisoned w" and "\<not> is_initialized (nic_state w)"
  shows "\<exists>w'. AsyncSocket_new api w = Some (Panic ''Network is not initialized!'', w') \<and>
    AsyncSocket_new api w' = Some (Panic ''PoisonError'', w') \<and>
    socket_with api k h f w' = Some (Panic ''PoisonError'', w') \<and>
    network_delay api ts w' = Some (Panic ''PoisonError'', w') \<and>
    network_run_poll api k cx w' = Some (Panic ''PoisonError'', w')"
proof (intro exI [of _ "w\<lparr>nic_poisoned := True\<rparr>"] conjI)
  show "AsyncSocket_new api w =
    Some (Panic ''Network is not initialized!'', w\<lparr>nic_poisoned := True\<rparr>)"
    using assms by (rule AsyncSocket_new_uninitialized)
qed (simp_all add: AsyncSocket_new_def socket_with_def network_delay_def network_run_poll_def)

theorem uninitialized_use_poisons_witness:
  "\<exists>w'. AsyncSocket_new demo_stack (demo_world0\<lparr>nic_state := Missing\<rparr>)
     = Some (Panic ''Network is not initialized!'', w') \<and>
     network_run_poll demo_stack demo_kernel (TaskWaker 0) w' = Some (Panic ''PoisonError'', w')"
  using uninitialized_use_poisons [of "demo_world0\<lparr>nic_state := Missing\<rparr>" demo_stack demo_kernel]
  by (simp add: demo_world0_def) blast

text \<open>
  C12: a handle that is valid stays valid: creating sockets (which returns a handle that was not in
  use), every poll of every future of any socket, the network task and the network thread keep it, so
  \<open>sockets.get\<close> never panics on a handle that \<open>connect\<close> or \<open>accept\<close> returned. In particular nothing ever
  removes a socket from the set, neither a failed \<open>connect\<close> nor \<open>close\<close>.
\<close>
theorem handles_stay_valid:
  assumes "socket_set_laws api" and "iface_socket_laws api" and "valid_handle api h w"
  shows "(AsyncSocket_new api w = Some (Return h', w') \<longrightarrow> valid_handle api h w' \<and> valid_handle api h' w' \<and> h' \<noteq> h) \<and>
    (AsyncSocket_connect api k h' cx cst w = Some (Return cres, w') \<longrightarrow> valid_handle api h w') \<and>
    (AsyncSocket_accept api k h' cx ast w = Some (Return ares, w') \<longrightarrow> valid_handle api h w') \<and>
    (AsyncSocket_read api k h' cx rst w = Some (Return rres, w') \<longrightarrow> valid_handle api h w') \<and>
    (AsyncSocket_write api k h' cx wst w = Some (Return wres, w') \<longrightarrow> valid_handle api h w') \<and>
    (AsyncSocket_close api k h' cx dst w = Some (Return dres, w') \<longrightarrow> valid_handle api h w') \<and>
    (network_run_poll api k cx w = Some (Return p, w') \<longrightarrow> valid_handle api h w') \<and>
    (nic_thread_check api k w = Some (Return u, w') \<longrightarrow> valid_handle api h w')"
proof (intro conjI impI)
  obtain nic where nic: "nic_state w = Initialized nic"
    and get: "SocketSet_get api (sockets nic) h \<noteq> None"
    using assms(3) unfolding valid_handle_def by blast
  show "valid_handle api h w'" if "network_run_poll api k cx w = Some (Return p, w')"
    using handle_inv.network_run_keeps [OF nic _ that, of h] get assms(2)
    unfolding valid_handle_def by blast
  show "valid_handle api h w'" if "nic_thread_check api k w = Some (Return u, w')"
    using handle_inv.nic_thread_check_keeps [OF nic _ that, of h] get assms(2)
    unfolding valid_handle_def by blast
qed (use AsyncSocket_new_valid [OF assms(1)] assms(3) in \<open>auto dest: futures_keep [OF assms(1), THEN keepsD]\<close>)

theorem handles_stay_valid_witness:
  "\<exists>w'. AsyncSocket_read demo_stack demo_kernel 0 (ThreadWaker 7) (ReadWait 4)
     (demo_conn_world (demo_closed\<lparr>sk_state := Established\<rparr>)) = Some (Return (Pending, ReadWait 4), w')
     \<and> valid_handle demo_stack 0 w'"
proof -
  have "valid_handle demo_stack 0 (demo_conn_world (demo_closed\<lparr>sk_state := Established\<rparr>))"
    by (simp add: valid_handle_def demo_conn_world_def demo_stack_def)
  then show ?thesis
    using demo_read_pending
      handles_stay_valid [OF demo_socket_set_laws demo_iface_socket_laws] by blast
qed

text \<open>
  \<open>write\<close> to a peer that has shut down its sending side. The closure tests \<open>may_recv\<close>, the state of
  the other direction, before \<open>can_send\<close>: on a socket that is open for sending but has nothing left to
  receive, \<open>write\<close> completes at once with \<open>Ok(0)\<close>, whatever the buffer, and the socket is unchanged.
\<close>
theorem write_half_closed_sends_nothing:
  assumes "wake_frame k" and "socket_set_laws api" and "\<not> nic_poisoned w"
    and "nic_state w = Initialized nic" and "SocketSet_get api (sockets nic) h = Some s"
    and "\<not> is_shut (TcpSocket_state api s)" and "TcpSocket_can_send api s"
    and "\<not> TcpSocket_may_recv api s"
  shows "\<exists>w' nic'. AsyncSocket_write api k h cx (WriteWait buffer) w = Some (Return (Ready (Ok 0), WriteDone), w') \<and>
    nic_state w' = Initialized nic' \<and> SocketSet_get api (sockets nic') h = Some s"
proof -
  have "write_poll api buffer cx s = (Ready (Ok 0), s, [])"
    using assms(6,8) by (simp add: write_poll_def)
  from poll_with_total [where op = "write_poll api buffer cx", OF assms(1,3,4,5) this]
  obtain w' where "poll_with api k h (write_poll api buffer cx) w = Some (Return (Ready (Ok 0)), w')"
    and "nic_state w' = Initialized (nic\<lparr>sockets := SocketSet_put api h s (sockets nic),
      nic_waker := \<lparr>waker = None\<rparr>\<rparr>)" by blast
  with assms(2,5) show ?thesis by (simp add: socket_set_get_put)
qed

theorem write_half_closed_sends_nothing_witness:
  "\<exists>w'. AsyncSocket_write demo_stack demo_kernel 0 (ThreadWaker 7) (WriteWait [1, 2])
     (demo_conn_world (demo_closed\<lparr>sk_state := CloseWait\<rparr>)) = Some (Return (Ready (Ok 0), WriteDone), w')"
proof -
  let ?w = "demo_conn_world (demo_closed\<lparr>sk_state := CloseWait\<rparr>)"
  let ?nic = "demo_nic\<lparr>sockets := [demo_closed\<lparr>sk_state := CloseWait\<rparr>]\<rparr>"
  have "\<not> nic_poisoned ?w" and "nic_state ?w = Initialized ?nic"
    by (simp_all add: demo_conn_world_def demo_world0_def)
  from write_half_closed_sends_nothing [OF demo_wake_frame demo_socket_set_laws this,
      of 0 "demo_closed\<lparr>sk_state := CloseWait\<rparr>"] show ?thesis
    by (simp add: demo_stack_def demo_closed_def) blast
qed

end
