(* ===== verification/Device.thy ===== *)
theory Device
  imports Network_Interface
begin

unbundle bit_operations_syntax

text \<open>
  The network device of \<open>hermit-sys/src/net/device.rs\<close>: the constructor of the network interface in
  its two configurations (static address from the constants the build script writes, DHCP), the
  \<open>Device\<close> implementation of \<open>HermitNet\<close> and the transmit and receive tokens. The packet-buffer
  calls of the kernel are the record \<open>netdev\<close>, the constructors of the stack the record
  \<open>smoltcp_builder\<close>.
\<close>

section \<open>Imported functions\<close>

record 'w netdev =
  sys_get_mac_address :: "'w \<Rightarrow> (u8 list, unit) result \<times> 'w"
  sys_get_mtu :: "'w \<Rightarrow> (u16, unit) result \<times> 'w"
  sys_get_tx_buffer :: "nat \<Rightarrow> 'w \<Rightarrow> (nat \<times> nat, unit) result \<times> 'w"
  sys_send_tx_buffer :: "nat \<Rightarrow> nat \<Rightarrow> 'w \<Rightarrow> (unit, unit) result \<times> 'w"
  sys_receive_rx_buffer :: "'w \<Rightarrow> (u8 list \<times> nat, unit) result \<times> 'w"
  sys_rx_buffer_consumed :: "nat \<Rightarrow> 'w \<Rightarrow> (unit, unit) result \<times> 'w"
  sys_free_tx_buffer :: "nat \<Rightarrow> 'w \<Rightarrow> 'w"
  slice_read :: "nat \<Rightarrow> nat \<Rightarrow> 'w \<Rightarrow> u8 list" \<comment> \<open>the bytes behind a raw pointer\<close>
  slice_write :: "nat \<Rightarrow> u8 list \<Rightarrow> 'w \<Rightarrow> 'w"

record ('ifc, 'set, 'dhcp) smoltcp_builder =
  EthernetInterface_build :: "u16 \<Rightarrow> u8 list \<Rightarrow> IpCidr list \<Rightarrow> Ipv4Address option \<Rightarrow> 'ifc"
  Routes_add_default :: "Ipv4Address \<Rightarrow> (unit, smoltcp_error) result"
  SocketSet_new :: 'set
  Dhcpv4Client_new :: "nat \<Rightarrow> nat \<Rightarrow> instant \<Rightarrow> 'set \<Rightarrow> 'dhcp \<times> 'set"

section \<open>Addresses\<close>

text \<open>\<open>str::parse::<Ipv4Addr>\<close>: four decimal octets without leading zeros, separated by dots.\<close>

definition parse_octet :: "string \<Rightarrow> u8 option" where
  "parse_octet cs =
     (if cs = [] \<or> length cs > 3 \<or> (length cs > 1 \<and> hd cs = CHR ''0'') then None
      else case digits_value cs 0 of
        None \<Rightarrow> None
      | Some n \<Rightarrow> if n < 256 then Some (of_nat n) else None)"

definition parse_ipv4 :: "string \<Rightarrow> (u8 \<times> u8 \<times> u8 \<times> u8, unit) result" where
  "parse_ipv4 s =
     (case map parse_octet (split_on CHR ''.'' s) of
        [Some a, Some b, Some c, Some d] \<Rightarrow> Ok (a, b, c, d)
      | _ \<Rightarrow> Err ())"

text \<open>The dotted notation of an address, which \<open>parse_ipv4\<close> reads back.\<close>

definition show_octet :: "u8 \<Rightarrow> string" where
  "show_octet b =
     (let k = unat b
      in (if k \<ge> 100 then [digit (k div 100)] else []) @ (if k \<ge> 10 then [digit (k div 10 mod 10)] else []) @ [digit (k mod 10)])"

definition show_ipv4 :: "u8 \<times> u8 \<times> u8 \<times> u8 \<Rightarrow> string" where
  "show_ipv4 addr = (case addr of (a, b, c, d) \<Rightarrow> join_with CHR ''.'' (map show_octet [a, b, c, d]))"

lemma unat_octet: "unat (b :: u8) < 256"
  using unsigned_less [of b, where 'a = nat] by simp

lemma parse_show_octet [simp]: "parse_octet (show_octet b) = Some b"
proof -
  let ?k = "unat b"
  have k: "?k < 256" "?k div 100 < 10" "?k mod 10 < 10" "?k div 10 mod 10 < 10" using unat_octet [of b] by simp_all
  have zero: "digit d \<noteq> CHR ''0''" if "0 < d" "d < 10" for d
    using that of_char_digit [of d] by (intro notI) simp
  consider "?k < 10" | "10 \<le> ?k" "?k < 100" | "100 \<le> ?k" by linarith
  then show ?thesis
  proof cases
    case 1
    then have "show_octet b = [digit ?k]" by (simp add: show_octet_def)
    with 1 show ?thesis by (simp add: parse_octet_def)
  next
    case 2
    then have d: "0 < ?k div 10" "?k div 10 < 10" "10 * (?k div 10) + ?k mod 10 = ?k"
      by (auto simp: div_greater_zero_iff)
    have "show_octet b = [digit (?k div 10), digit (?k mod 10)]" using 2 d(2) by (simp add: show_octet_def Let_def)
    moreover have "parse_octet [digit (?k div 10), digit (?k mod 10)] = Some (of_nat ?k)"
      using zero [OF d(1,2)] d(2,3) by (simp add: parse_octet_def) (intro conjI impI; use k(1,3) in linarith)
    ultimately show ?thesis by simp
  next
    case 3
    have d: "10 * (10 * (?k div 100) + ?k div 10 mod 10) + ?k mod 10 = ?k"
      using div_mult2_eq [of ?k 10 10] mult_div_mod_eq [of 10 "?k div 10"] mult_div_mod_eq [of 10 ?k] by simp
    have pos: "0 < ?k div 100" using 3 by (simp add: div_greater_zero_iff)
    have "show_octet b = [digit (?k div 100), digit (?k div 10 mod 10), digit (?k mod 10)]"
      using 3 by (simp add: show_octet_def Let_def)
    with k d zero [OF pos k(2)] show ?thesis by (simp add: parse_octet_def) (intro conjI impI; use k(3,4) in linarith)
  qed
qed

lemma show_octet_codes: "c \<in> set (show_octet b) \<Longrightarrow> (48 :: nat) \<le> of_char c \<and> (of_char c :: nat) < 58"
  using unat_octet [of b] by (auto simp: show_octet_def Let_def split: if_splits)

lemma show_octet_plain: "CHR ''.'' \<notin> set (show_octet b)" "CHR 0x22 \<notin> set (show_octet b)" "CHR 0x5C \<notin> set (show_octet b)"
  using show_octet_codes [of "CHR ''.''" b] show_octet_codes [of "CHR 0x22" b] show_octet_codes [of "CHR 0x5C" b]
  by auto

lemma parse_show_ipv4 [simp]: "parse_ipv4 (show_ipv4 addr) = Ok addr"
proof -
  obtain a b c d where addr: "addr = (a, b, c, d)" by (cases addr)
  have "split_on CHR ''.'' (join_with CHR ''.'' (map show_octet [a, b, c, d])) = map show_octet [a, b, c, d]"
    using show_octet_plain by (intro split_join) auto
  then show ?thesis unfolding parse_ipv4_def show_ipv4_def addr by simp
qed

text \<open>The dotted notation has no character that a string literal would escape.\<close>

lemma show_ipv4_plain: "CHR 0x22 \<notin> set (show_ipv4 addr) \<and> CHR 0x5C \<notin> set (show_ipv4 addr)"
proof -
  obtain a b c d where addr: "addr = (a, b, c, d)" by (cases addr)
  show ?thesis by (simp add: show_ipv4_def addr show_octet_plain)
qed

text \<open>The length of the network prefix, computed octet by octet.\<close>

definition netmask_prefix_len :: "u8 \<times> u8 \<times> u8 \<times> u8 \<Rightarrow> nat" where
  "netmask_prefix_len mymask =
     (case mymask of (m0, m1, m2, m3) \<Rightarrow>
        let prefix_len = trailing_zeros (NOT m0);
            prefix_len = (if prefix_len = 8 then prefix_len + trailing_zeros (NOT m1) else prefix_len);
            prefix_len = (if prefix_len = 16 then prefix_len + trailing_zeros (NOT m2) else prefix_len);
            prefix_len = (if prefix_len = 24 then prefix_len + trailing_zeros (NOT m3) else prefix_len)
        in prefix_len)"

section \<open>Constructing the interface\<close>

record HermitNet =
  mtu :: u16

definition HermitNet_new :: "u16 \<Rightarrow> HermitNet" where
  "HermitNet_new m = \<lparr>mtu = m\<rparr>"

definition NetworkInterface_new_dhcp :: "'w netdev \<Rightarrow> ('ifc, 'set, 'dhcp) smoltcp_builder \<Rightarrow>
    ('w \<Rightarrow> instant \<times> 'w) \<Rightarrow> ('w, ('ifc, 'set, 'dhcp) NetworkState) prog" where
  "NetworkInterface_new_dhcp dev bld now =
     pbind (pcall (sys_get_mtu dev)) (\<lambda>r.
       case r of Err _ \<Rightarrow> pret InitializationFailed
       | Ok m \<Rightarrow>
         pbind (pcall (sys_get_mac_address dev)) (\<lambda>r.
           case r of Err _ \<Rightarrow> pret InitializationFailed
           | Ok mac \<Rightarrow>
             pbind (pcall now) (\<lambda>ts.
               let device = HermitNet_new m;
                   ip_addrs = [CidrV4 (Ipv4Cidr IPV4_UNSPECIFIED 0)];
                   (d, ss) = Dhcpv4Client_new bld 900 600 ts (SocketSet_new bld)
               in pret (Initialized
                 \<lparr>iface = EthernetInterface_build bld (mtu device) mac ip_addrs None,
                  sockets = ss, dhcp = Some d,
                  prev_cidr = Ipv4Cidr IPV4_UNSPECIFIED 0,
                  nic_waker = WakerRegistration_new\<rparr>))))"

definition NetworkInterface_new_static :: "'w netdev \<Rightarrow> ('ifc, 'set, 'dhcp) smoltcp_builder \<Rightarrow>
    string \<Rightarrow> string \<Rightarrow> string \<Rightarrow> ('w, ('ifc, 'set, 'dhcp) NetworkState) prog" where
  "NetworkInterface_new_static dev bld hermit_ip hermit_gateway hermit_mask =
     pbind (pcall (sys_get_mtu dev)) (\<lambda>r.
       case r of Err _ \<Rightarrow> pret InitializationFailed
       | Ok m \<Rightarrow>
         pbind (pcall (sys_get_mac_address dev)) (\<lambda>r.
           case r of Err _ \<Rightarrow> pret InitializationFailed
           | Ok mac \<Rightarrow>
             pbind (punwrap ''Unable to parse IPv4 address'' (parse_ipv4 hermit_ip)) (\<lambda>(i0, i1, i2, i3).
             pbind (punwrap ''Unable to parse IPv4 address'' (parse_ipv4 hermit_gateway)) (\<lambda>(g0, g1, g2, g3).
             pbind (punwrap ''Unable to parse IPv4 address'' (parse_ipv4 hermit_mask)) (\<lambda>mymask.
               let device = HermitNet_new m;
                   cidr = Ipv4Cidr (Ipv4Address i0 i1 i2 i3) (netmask_prefix_len mymask);
                   default_v4_gw = Ipv4Address g0 g1 g2 g3
               in pbind (punwrap ''add_default_ipv4_route'' (Routes_add_default bld default_v4_gw)) (\<lambda>_.
                    pret (Initialized
                      \<lparr>iface = EthernetInterface_build bld (mtu device) mac [CidrV4 cidr] (Some default_v4_gw),
                       sockets = SocketSet_new bld, dhcp = None,
                       prev_cidr = Ipv4Cidr IPV4_UNSPECIFIED 0, \<comment> \<open>field of the other configuration\<close>
                       nic_waker = WakerRegistration_new\<rparr>)))))))"

section \<open>Device and tokens\<close>

record RxToken =
  rx_buffer :: "u8 list"
  rx_handle :: nat

datatype TxToken = TxToken

definition capabilities :: "HermitNet \<Rightarrow> nat" where
  "capabilities dev = unat (mtu dev)" \<comment> \<open>\<open>max_transmission_unit\<close>, the only field that is set\<close>

definition receive :: "'w netdev \<Rightarrow> 'w \<Rightarrow> (RxToken \<times> TxToken) option \<times> 'w" where
  "receive dev w =
     (case sys_receive_rx_buffer dev w of
        (Ok (buffer, handle), w') \<Rightarrow> (Some (\<lparr>rx_buffer = buffer, rx_handle = handle\<rparr>, TxToken), w')
      | (Err _, w') \<Rightarrow> (None, w'))"

definition transmit :: "TxToken option" where
  "transmit = Some TxToken"

definition RxToken_consume :: "'w netdev \<Rightarrow> RxToken \<Rightarrow>
    (u8 list \<Rightarrow> 'w \<Rightarrow> ('a, smoltcp_error) result \<times> 'w) \<Rightarrow> 'w \<Rightarrow>
    ('a, smoltcp_error) result \<times> 'w" where
  "RxToken_consume dev self f w =
     (case f (rx_buffer self) w of (res, w1) \<Rightarrow>
        (case sys_rx_buffer_consumed dev (rx_handle self) w1 of (r, w2) \<Rightarrow>
           if is_ok r then (res, w2) else (Err Exhausted, w2)))"

definition TxToken_consume :: "'w netdev \<Rightarrow> TxToken \<Rightarrow> nat \<Rightarrow>
    (u8 list \<Rightarrow> ('a, smoltcp_error) result \<times> u8 list) \<Rightarrow> 'w \<Rightarrow>
    ('a, smoltcp_error) result \<times> 'w" where
  "TxToken_consume dev self len f w =
     (case sys_get_tx_buffer dev len w of
        (Err _, w1) \<Rightarrow> (Err Exhausted, w1)
      | (Ok (tx_buffer, handle), w1) \<Rightarrow>
          (case f (slice_read dev tx_buffer len w1) of (res, tx_slice) \<Rightarrow>
             let w2 = slice_write dev tx_buffer tx_slice w1
             in case res of
                  Ok a \<Rightarrow>
                    (case sys_send_tx_buffer dev handle len w2 of (r, w3) \<Rightarrow>
                       if is_ok r then (Ok a, w3) else (Err Exhausted, w3))
                | Err e \<Rightarrow> (Err e, sys_free_tx_buffer dev handle w2)))"

section \<open>The prefix length\<close>

text \<open>The four octets of the network mask with \<open>p\<close> leading ones.\<close>

definition mask_octet :: "nat \<Rightarrow> nat \<Rightarrow> u8" where
  "mask_octet p i = of_nat (256 - 2 ^ (8 - min 8 (p - 8 * i)))"

definition netmask :: "nat \<Rightarrow> u8 \<times> u8 \<times> u8 \<times> u8" where
  "netmask p = (mask_octet p 0, mask_octet p 1, mask_octet p 2, mask_octet p 3)"

lemma prefix_len_table: "list_all (\<lambda>p. netmask_prefix_len (netmask p) = 8 * (p div 8)) [0..<33]"
  by code_simp

text \<open>
  C34: for every contiguous mask the computed prefix length is the number of its octets that are all
  ones, times eight: the length is right for the masks /0, /8, /16, /24 and /32 and rounded down to
  the octet boundary for every other mask (255.255.240.0 gives 16 instead of 20), because
  \<open>trailing_zeros\<close> of the complement looks at the low end of the octet.
\<close>
theorem prefix_len_octet_boundary:
  assumes "p \<le> 32"
  shows "netmask_prefix_len (netmask p) = 8 * (p div 8)"
  using prefix_len_table assms by (auto simp: list_all_iff)

theorem prefix_len_octet_boundary_witness:
  "(24::nat) \<le> 32 \<and> netmask_prefix_len (netmask 24) = 24 \<and> netmask_prefix_len (netmask 20) = 16"
  using prefix_len_octet_boundary [of 24] prefix_len_octet_boundary [of 20] by simp

section \<open>Packet buffers\<close>

text \<open>
  What a transmit token relies on: \<open>hist\<close> is what the kernel has been asked to do with transmit buffers so
  far. Every handed out buffer is entered, every buffer sent with its length and every buffer freed,
  whatever the kernel answers; writing to a buffer is none of these.
\<close>

datatype tx_event = Handed nat | Sent nat nat | Freed nat

definition tx_buffer_laws :: "'w netdev \<Rightarrow> ('w \<Rightarrow> tx_event list) \<Rightarrow> bool" where
  "tx_buffer_laws dev hist \<longleftrightarrow>
     (\<forall>len w r w'. sys_get_tx_buffer dev len w = (r, w') \<longrightarrow>
        hist w' = hist w @ (case r of Ok (p, h) \<Rightarrow> [Handed h] | Err _ \<Rightarrow> [])) \<and>
     (\<forall>h len w. hist (snd (sys_send_tx_buffer dev h len w)) = hist w @ [Sent h len]) \<and>
     (\<forall>h w. hist (sys_free_tx_buffer dev h w) = hist w @ [Freed h]) \<and>
     (\<forall>p bs w. hist (slice_write dev p bs w) = hist w)"

text \<open>
  C33: a transmit token gives every buffer that it gets back exactly once. If the kernel has none, the
  result is \<open>Exhausted\<close> and nothing is asked for; if the closure succeeds, the buffer it has filled is sent,
  once, with the length of the packet, and not freed, and its result is kept unless the kernel refuses the
  packet; if it fails, the buffer is freed, once, and not sent, and its error is passed on.
\<close>
theorem TxToken_consume_balanced:
  assumes "tx_buffer_laws dev hist"
    and "TxToken_consume dev t len f w = (r, w')"
  shows "case sys_get_tx_buffer dev len w of
      (Err _, w1) \<Rightarrow> hist w' = hist w \<and> r = Err Exhausted
    | (Ok (p, h), w1) \<Rightarrow>
        (case f (slice_read dev p len w1) of
           (Ok a, bs) \<Rightarrow> hist w' = hist w @ [Handed h, Sent h len] \<and>
             (\<exists>ack. sys_send_tx_buffer dev h len (slice_write dev p bs w1) = (ack, w') \<and>
               r = (if is_ok ack then Ok a else Err Exhausted))
         | (Err e, bs) \<Rightarrow> hist w' = hist w @ [Handed h, Freed h] \<and> r = Err e)"
proof -
  have send: "hist w' = hist w @ [Sent h len]" if "sys_send_tx_buffer dev h len w = (ack, w')" for h w ack w'
    using assms(1) that unfolding tx_buffer_laws_def by (metis snd_conv)
  have free: "hist (sys_free_tx_buffer dev h w) = hist w @ [Freed h]"
    and slice: "hist (slice_write dev p bs w) = hist w" for h w p bs
    using assms(1) by (simp_all add: tx_buffer_laws_def)
  obtain g w1 where g: "sys_get_tx_buffer dev len w = (g, w1)" by fastforce
  with assms(1) have h1: "hist w1 = hist w @ (case g of Ok (p, h) \<Rightarrow> [Handed h] | Err _ \<Rightarrow> [])"
    by (simp add: tx_buffer_laws_def)
  show ?thesis
  proof (cases g)
    case (Err u)
    with assms(2) g h1 show ?thesis by (simp add: TxToken_consume_def)
  next
    case (Ok ph)
    obtain p h where ph: "ph = (p, h)" by fastforce
    obtain res bs where f: "f (slice_read dev p len w1) = (res, bs)" by fastforce
    obtain ack w3 where s: "sys_send_tx_buffer dev h len (slice_write dev p bs w1) = (ack, w3)" by fastforce
    from assms(2) g Ok ph f s h1 send [OF s] show ?thesis
      by (cases res) (auto simp: TxToken_consume_def Let_def free slice split: if_splits)
  qed
qed

text \<open>An instance of the contract: the kernel keeps the history and the bytes of the last buffer.\<close>

definition pool_dev :: "(tx_event list \<times> u8 list) netdev" where
  "pool_dev = \<lparr>
     sys_get_mac_address = (\<lambda>w. (Ok [2, 0, 0, 0, 0, 1], w)),
     sys_get_mtu = (\<lambda>w. (Ok 1500, w)),
     sys_get_tx_buffer = (\<lambda>len (es, bs). (Ok (0, length es), (es @ [Handed (length es)], replicate len 0))),
     sys_send_tx_buffer = (\<lambda>h len (es, bs). (Ok (), (es @ [Sent h len], bs))),
     sys_receive_rx_buffer = (\<lambda>w. (Err (), w)),
     sys_rx_buffer_consumed = (\<lambda>h w. (Ok (), w)),
     sys_free_tx_buffer = (\<lambda>h (es, bs). (es @ [Freed h], bs)),
     slice_read = (\<lambda>p len (es, bs). take len bs),
     slice_write = (\<lambda>p bs' (es, bs). (es, bs'))\<rparr>"

lemma pool_dev_laws: "tx_buffer_laws pool_dev fst"
  by (auto simp: tx_buffer_laws_def pool_dev_def)

theorem TxToken_consume_balanced_witness:
  "TxToken_consume pool_dev TxToken 2 (\<lambda>bs. (Ok (), [7, 8])) ([], []) =
     (Ok () :: (unit, smoltcp_error) result, ([Handed 0, Sent 0 2], [7, 8])) \<and>
   fst ([Handed 0, Sent 0 2], [7, 8 :: u8]) = [Handed 0, Sent 0 2]"
proof -
  have run: "TxToken_consume pool_dev TxToken 2 (\<lambda>bs. (Ok (), [7, 8])) ([], []) =
     (Ok () :: (unit, smoltcp_error) result, ([Handed 0, Sent 0 2], [7, 8]))"
    by (simp add: TxToken_consume_def pool_dev_def numeral_2_eq_2)
  have "sys_get_tx_buffer pool_dev 2 ([], []) = (Ok (0, 0), ([Handed 0], [0, 0]))"
    by (simp add: pool_dev_def numeral_2_eq_2)
  with TxToken_consume_balanced [OF pool_dev_laws run] run show ?thesis by simp
qed

text \<open>
  a receive token hands its buffer back to the kernel exactly once and last, whatever the closure
  returned; the result of the closure is kept unless the kernel refuses the buffer.
\<close>
theorem RxToken_consume_returns_buffer:
  "\<exists>w1 ack. f (rx_buffer t) w = (fst (f (rx_buffer t) w), w1) \<and>
     sys_rx_buffer_consumed dev (rx_handle t) w1 = (ack, snd (RxToken_consume dev t f w)) \<and>
     fst (RxToken_consume dev t f w) =
       (case ack of Ok _ \<Rightarrow> fst (f (rx_buffer t) w) | Err _ \<Rightarrow> Err Exhausted)"
  by (auto simp: RxToken_consume_def split: prod.splits result.splits)

end
