(* ===== verification/Sys_Logger.thy ===== *)
theory Sys_Logger
  imports Prelude
begin

text \<open>
  The logger of \<open>hermit-sys/src/lib.rs\<close>: \<open>SysLogger\<close> and the choice of the level filter. The crate
  \<open>log\<close> is the record \<open>log_crate\<close>: registering the logger, setting the filter, and what one of its
  macros (\<open>debug!(..)\<close>) does with the function \<open>log\<close> of the registered logger; \<open>println\<close> is an
  argument. \<open>log_laws\<close> states the documented behaviour of the crate.
\<close>

datatype Level = LvlError | LvlWarn | LvlInfo | LvlDebug | LvlTrace

datatype LevelFilter = Off | Error | Warn | Info | Debug | Trace

fun show_level :: "Level \<Rightarrow> string" where
  "show_level LvlError = ''ERROR''"
| "show_level LvlWarn = ''WARN''"
| "show_level LvlInfo = ''INFO''"
| "show_level LvlDebug = ''DEBUG''"
| "show_level LvlTrace = ''TRACE''"

definition SysLogger_enabled :: "Level \<Rightarrow> bool" where
  "SysLogger_enabled metadata = True"

definition SysLogger_flush :: "'w \<Rightarrow> 'w" where
  "SysLogger_flush w = w"

definition SysLogger_log :: "(string \<Rightarrow> 'w \<Rightarrow> 'w) \<Rightarrow> Level \<Rightarrow> string \<Rightarrow> 'w \<Rightarrow> 'w" where
  "SysLogger_log println level args w =
     (if SysLogger_enabled level then println (''['' @ show_level level @ ''] '' @ args) w else w)"

definition max_level :: "string option \<Rightarrow> LevelFilter" where
  "max_level log_level =
     (if log_level = Some ''Error'' then Error
      else if log_level = Some ''Debug'' then Debug
      else if log_level = Some ''Off'' then Off
      else if log_level = Some ''Trace'' then Trace
      else if log_level = Some ''Warn'' then Warn
      else if log_level = Some ''Info'' then Info
      else Info)"

section \<open>The crate \<open>log\<close>\<close>

record 'w log_crate =
  set_logger :: "'w \<Rightarrow> (unit, unit) result \<times> 'w"
  set_max_level :: "LevelFilter \<Rightarrow> 'w \<Rightarrow> 'w"
  log_macro :: "(Level \<Rightarrow> string \<Rightarrow> 'w \<Rightarrow> 'w) \<Rightarrow> Level \<Rightarrow> string \<Rightarrow> 'w \<Rightarrow> 'w"

fun level_rank :: "Level \<Rightarrow> nat" where
  "level_rank LvlError = 1"
| "level_rank LvlWarn = 2"
| "level_rank LvlInfo = 3"
| "level_rank LvlDebug = 4"
| "level_rank LvlTrace = 5"

fun filter_rank :: "LevelFilter \<Rightarrow> nat" where
  "filter_rank Off = 0"
| "filter_rank Error = 1"
| "filter_rank Warn = 2"
| "filter_rank Info = 3"
| "filter_rank Debug = 4"
| "filter_rank Trace = 5"

text \<open>
  A logger can be registered once; a macro hands its record to the logger if its level passes the
  filter; neither setting prints anything. \<open>has_logger\<close>, \<open>filter_of\<close> and \<open>lines\<close> read the world.
\<close>

definition log_laws :: "'w log_crate \<Rightarrow> (string \<Rightarrow> 'w \<Rightarrow> 'w) \<Rightarrow>
    ('w \<Rightarrow> bool) \<Rightarrow> ('w \<Rightarrow> LevelFilter) \<Rightarrow> ('w \<Rightarrow> string list) \<Rightarrow> bool" where
  "log_laws lc println has_logger filter_of lines \<longleftrightarrow>
     (\<forall>w. case set_logger lc w of (r, w') \<Rightarrow> is_ok r = (\<not> has_logger w) \<and> has_logger w' \<and> lines w' = lines w) \<and>
     (\<forall>l w. filter_of (set_max_level lc l w) = l \<and> has_logger (set_max_level lc l w) = has_logger w \<and>
        lines (set_max_level lc l w) = lines w) \<and>
     (\<forall>lg lvl msg w. log_macro lc lg lvl msg w =
        (if level_rank lvl \<le> filter_rank (filter_of w) then lg lvl msg w else w)) \<and>
     (\<forall>s w. lines (println s w) = lines w @ [s] \<and> has_logger (println s w) = has_logger w)"

lemma log_lawsD:
  assumes "log_laws lc println has_logger filter_of lines"
  shows "set_logger lc w = (r, w') \<Longrightarrow> is_ok r = (\<not> has_logger w) \<and> has_logger w' \<and> lines w' = lines w"
    and "filter_of (set_max_level lc l w) = l" and "has_logger (set_max_level lc l w) = has_logger w"
    and "lines (set_max_level lc l w) = lines w"
    and "log_macro lc lg lvl msg w =
      (if level_rank lvl \<le> filter_rank (filter_of w) then lg lvl msg w else w)"
    and "lines (println s w) = lines w @ [s]" and "has_logger (println s w) = has_logger w"
proof -
  note L = assms [unfolded log_laws_def]
  show "set_logger lc w = (r, w') \<Longrightarrow> is_ok r = (\<not> has_logger w) \<and> has_logger w' \<and> lines w' = lines w"
    using L [THEN conjunct1, rule_format, of w] by simp
  show "filter_of (set_max_level lc l w) = l" and "has_logger (set_max_level lc l w) = has_logger w"
    and "lines (set_max_level lc l w) = lines w"
    using L [THEN conjunct2, THEN conjunct1, rule_format, of l w] by simp_all
  show "log_macro lc lg lvl msg w =
      (if level_rank lvl \<le> filter_rank (filter_of w) then lg lvl msg w else w)"
    using L [THEN conjunct2, THEN conjunct2, THEN conjunct1] by simp
  show "lines (println s w) = lines w @ [s]" and "has_logger (println s w) = has_logger w"
    using L [THEN conjunct2, THEN conjunct2, THEN conjunct2, rule_format, of s w] by simp_all
qed

lemma SysLogger_lines:
  assumes "log_laws lc println has_logger filter_of lines"
  shows "lines (log_macro lc (SysLogger_log println) lvl msg w) = lines w @
    (if level_rank lvl \<le> filter_rank (filter_of w) then [''['' @ show_level lvl @ ''] '' @ msg] else [])"
    and "has_logger (log_macro lc (SysLogger_log println) lvl msg w) = has_logger w"
  using log_lawsD [OF assms] by (simp_all add: SysLogger_log_def SysLogger_enabled_def)

section \<open>An instance of the crate\<close>

type_synonym log_world = "bool \<times> LevelFilter \<times> string list"

definition demo_log_crate :: "log_world log_crate" where
  "demo_log_crate = \<lparr>
     set_logger = (\<lambda>(h, f, ls). (if h then Err () else Ok (), True, f, ls)),
     set_max_level = (\<lambda>l (h, f, ls). (h, l, ls)),
     log_macro = (\<lambda>lg lvl msg w. if level_rank lvl \<le> filter_rank (fst (snd w)) then lg lvl msg w else w)\<rparr>"

definition demo_println :: "string \<Rightarrow> log_world \<Rightarrow> log_world" where
  "demo_println s w = (case w of (h, f, ls) \<Rightarrow> (h, f, ls @ [s]))"

lemma demo_log_laws: "log_laws demo_log_crate demo_println fst (\<lambda>w. fst (snd w)) (\<lambda>w. snd (snd w))"
  by (auto simp: log_laws_def demo_log_crate_def demo_println_def)

end
