(* ===== verification/Tcp_Syscalls.thy ===== *)
theory Tcp_Syscalls
  imports Async_Socket Device Sys_Logger
begin

text \<open>
  The functions \<open>hermit-sys\<close> exports: the start of the network (\<open>network_init\<close>, \<open>sys_network_init\<close>)
  and the TCP calls \<open>sys_tcp_*\<close>, which run an \<open>async fn\<close> of \<open>AsyncSocket\<close> with one of the two drivers.
  A buffer that a call fills is modelled by its length going in and the bytes coming out.
\<close>

section \<open>Start of the network\<close>

text \<open>\<open>start_endpoint\<close>: the time stamp counter modulo \<open>u16::MAX\<close>, converted with \<open>try_into\<close>.\<close>

definition start_endpoint :: "u64 \<Rightarrow> ('w, u16) prog" where
  "start_endpoint counter =
     (let r = counter mod 65535
      in if unat r < 2 ^ 16 then pret (ucast r) else ppanic ''TryFromIntError'')"

definition network_init :: "('ifc, 'set, 'sock, 'dhcp) smoltcp \<Rightarrow>
    ('ifc, 'set, 'dhcp, 'x, 'r) hkernel \<Rightarrow>
    (('ifc, 'set, 'dhcp, 'x) world_scheme, ('ifc, 'set, 'dhcp) NetworkState) prog \<Rightarrow>
    (('ifc, 'set, 'dhcp, 'x) world_scheme, (unit, unit) result) prog" where
  "network_init api k NetworkInterface_new =
     pbind (pcall (read_counter k)) (\<lambda>counter.
     pbind (start_endpoint counter) (\<lambda>endpoint.
     pbind (pmodify (\<lambda>w. w\<lparr>LOCAL_ENDPOINT := endpoint\<rparr>)) (\<lambda>_.
     nic_lock (
       pbind NetworkInterface_new (\<lambda>st.
       pbind (pmodify (\<lambda>w. w\<lparr>nic_state := st\<rparr>)) (\<lambda>_.
         case st of
           Initialized nic \<Rightarrow>
             pbind (pcall (instant_now k)) (\<lambda>now.
             pbind (poll_common api k now nic) (\<lambda>nic'.
             pbind (pmodify (set_nic nic')) (\<lambda>_.
             pbind (pcall (sys_spawn_nic_thread k 3 0)) (\<lambda>ret.
             pbind (spawn k NetworkRun) (\<lambda>_.
             pbind (sys_yield k) (\<lambda>_. pret (Ok ())))))))
         | _ \<Rightarrow> pret (Ok ())))))))"

text \<open>
  \<open>sys_network_init\<close>: \<open>net\<close> is \<open>network_init\<close> when the feature \<open>smoltcp\<close> is on, \<open>log_level\<close> the value the
  environment variable had when the crate was compiled.
\<close>

definition sys_network_init :: "'w log_crate \<Rightarrow> (string \<Rightarrow> 'w \<Rightarrow> 'w) \<Rightarrow>
    string option \<Rightarrow> ('w, (unit, unit) result) prog option \<Rightarrow> ('w, int) prog" where
  "sys_network_init lc println log_level net =
     pbind (pcall (set_logger lc)) (\<lambda>r.
     pbind (punwrap ''Can't initialize logger'' r) (\<lambda>_.
     pbind (pmodify (set_max_level lc (max_level log_level))) (\<lambda>_.
     pbind (case net of
         Some init \<Rightarrow> pbind init (\<lambda>r. pret (if is_ok r then 0 else - 1))
       | None \<Rightarrow> pret (- 1)) (\<lambda>ret.
     pbind (if ret < 0
         then pmodify (log_macro lc (SysLogger_log println) LvlDebug ''uhyve network isn't available!'')
         else pret ()) (\<lambda>_. pret ret)))))"

section \<open>TCP calls\<close>

fun flatten_result :: "(('a, 'e) result, unit) result \<Rightarrow> ('a, unit) result" where
  "flatten_result (Err u) = Err ()"
| "flatten_result (Ok r) = map_err (\<lambda>_. ()) r"

definition sys_tcp_stream_connect :: "('ifc, 'set, 'sock, 'dhcp) smoltcp \<Rightarrow>
    ('ifc, 'set, 'dhcp, 'x, 'r) hkernel \<Rightarrow> u8 list \<Rightarrow> u16 \<Rightarrow> u64 option \<Rightarrow>
    (('ifc, 'set, 'dhcp, 'x) world_scheme, (Handle, unit) result) prog" where
  "sys_tcp_stream_connect api k ip port timeout =
     pbind (AsyncSocket_new api) (\<lambda>socket.
       pbind (block_on api k (AsyncSocket_connect api k socket) (ConnectStart ip port) timeout)
         (\<lambda>r. pret (flatten_result r)))"

definition sys_tcp_stream_read :: "('ifc, 'set, 'sock, 'dhcp) smoltcp \<Rightarrow>
    ('ifc, 'set, 'dhcp, 'x, 'r) hkernel \<Rightarrow> Handle \<Rightarrow> nat \<Rightarrow>
    (('ifc, 'set, 'dhcp, 'x) world_scheme, (u8 list, unit) result) prog" where
  "sys_tcp_stream_read api k handle len =
     pbind (poll_on api k (AsyncSocket_read api k handle) (ReadWait len) None)
       (\<lambda>r. pret (flatten_result r))"

definition sys_tcp_stream_write :: "('ifc, 'set, 'sock, 'dhcp) smoltcp \<Rightarrow>
    ('ifc, 'set, 'dhcp, 'x, 'r) hkernel \<Rightarrow> Handle \<Rightarrow> u8 list \<Rightarrow>
    (('ifc, 'set, 'dhcp, 'x) world_scheme, (nat, unit) result) prog" where
  "sys_tcp_stream_write api k handle buffer =
     pbind (poll_on api k (AsyncSocket_write api k handle) (WriteWait buffer) None)
       (\<lambda>r. pret (flatten_result r))"

definition sys_tcp_stream_close :: "('ifc, 'set, 'sock, 'dhcp) smoltcp \<Rightarrow>
    ('ifc, 'set, 'dhcp, 'x, 'r) hkernel \<Rightarrow> Handle \<Rightarrow>
    (('ifc, 'set, 'dhcp, 'x) world_scheme, (unit, unit) result) prog" where
  "sys_tcp_stream_close api k handle =
     pbind (block_on api k (AsyncSocket_close api k handle) CloseDrain None)
       (\<lambda>r. pret (flatten_result r))"

definition sys_tcp_stream_shutdown :: "('ifc, 'set, 'sock, 'dhcp) smoltcp \<Rightarrow>
    ('ifc, 'set, 'dhcp, 'x, 'r) hkernel \<Rightarrow> Handle \<Rightarrow> int \<Rightarrow>
    (('ifc, 'set, 'dhcp, 'x) world_scheme, (unit, unit) result) prog" where
  "sys_tcp_stream_shutdown api k handle how =
     (if how = 0 then pret (Ok ())
      else if how = 1 then sys_tcp_stream_close api k handle
      else if how = 2 then sys_tcp_stream_close api k handle
      else ppanic ''Invalid shutdown argument'')"

definition sys_tcp_stream_set_read_timeout :: "Handle \<Rightarrow> u64 option \<Rightarrow> ('w, (unit, unit) result) prog" where
  "sys_tcp_stream_set_read_timeout handle timeout = pret (Err ())"

definition sys_tcp_stream_get_read_timeout :: "Handle \<Rightarrow> ('w, (u64 option, unit) result) prog" where
  "sys_tcp_stream_get_read_timeout handle = pret (Err ())"

definition sys_tcp_stream_set_write_timeout :: "Handle \<Rightarrow> u64 option \<Rightarrow> ('w, (unit, unit) result) prog" where
  "sys_tcp_stream_set_write_timeout handle timeout = pret (Err ())"

definition sys_tcp_stream_get_write_timeout :: "Handle \<Rightarrow> ('w, (u64 option, unit) result) prog" where
  "sys_tcp_stream_get_write_timeout handle = pret (Err ())"

definition sys_tcp_stream_duplicate :: "Handle \<Rightarrow> ('w, (Handle, unit) result) prog" where
  "sys_tcp_stream_duplicate handle = pret (Err ())"

definition sys_tcp_stream_peek :: "Handle \<Rightarrow> nat \<Rightarrow> ('w, (u8 list, unit) result) prog" where
  "sys_tcp_stream_peek handle len = pret (Err ())"

definition sys_tcp_stream_set_nonblocking :: "Handle \<Rightarrow> bool \<Rightarrow> ('w, (unit, unit) result) prog" where
  "sys_tcp_stream_set_nonblocking handle mode = pret (Err ())"

definition sys_tcp_stream_set_tll :: "Handle \<Rightarrow> u32 \<Rightarrow> ('w, (unit, unit) result) prog" where
  "sys_tcp_stream_set_tll handle ttl = pret (Err ())"

definition sys_tcp_stream_get_tll :: "Handle \<Rightarrow> ('w, (u32, unit) result) prog" where
  "sys_tcp_stream_get_tll handle = pret (Err ())"

definition sys_tcp_stream_peer_addr :: "('ifc, 'set, 'sock, 'dhcp) smoltcp \<Rightarrow> Handle \<Rightarrow>
    (('ifc, 'set, 'dhcp, 'x) world_scheme, (IpAddress \<times> u16, unit) result) prog" where
  "sys_tcp_stream_peer_addr api handle =
     pbind (keep_alive_and_endpoint api handle) (\<lambda>r. pret (map_err (\<lambda>_. ()) r))"

definition sys_tcp_listener_accept :: "('ifc, 'set, 'sock, 'dhcp) smoltcp \<Rightarrow>
    ('ifc, 'set, 'dhcp, 'x, 'r) hkernel \<Rightarrow> u16 \<Rightarrow>
    (('ifc, 'set, 'dhcp, 'x) world_scheme, (Handle \<times> IpAddress \<times> u16, unit) result) prog" where
  "sys_tcp_listener_accept api k port =
     pbind (AsyncSocket_new api) (\<lambda>socket.
       pbind (block_on api k (AsyncSocket_accept api k socket) (AcceptStart port) None) (\<lambda>r.
         pret (case flatten_result r of
             Err u \<Rightarrow> Err ()
           | Ok (addr, port) \<Rightarrow> Ok (socket, addr, port))))"

section \<open>Results of the calls\<close>

lemma flatten_result_Ok [simp]: "flatten_result r = Ok a \<longleftrightarrow> r = Ok (Ok a)"
  by (cases r) auto

lemma sys_tcp_stream_read_Ok:
  assumes "sys_tcp_stream_read api k h len w = Some (Return (Ok bs), w')"
  shows "\<exists>cx w0 w1. poll_with api k h (read_poll api len cx) w0 = Some (Return (Ready (Ok bs)), w1) \<and>
    w' = sys_set_network_polling_mode k False w1"
proof -
  from assms have "poll_on api k (AsyncSocket_read api k h) (ReadWait len) None w
      = Some (Return (Ok (Ok bs)), w')"
    by (auto simp: sys_tcp_stream_read_def elim!: pbind_ReturnE)
  from poll_driver_result [OF this] obtain s s' w0 w1 cx where
    "future_reaches (AsyncSocket_read api k h cx) (ReadWait len) s"
    and run: "AsyncSocket_read api k h cx s w0 = Some (Return (Ready (Ok bs), s'), w1)"
    and w': "w' = sys_set_network_polling_mode k False w1" by auto
  then have "s = ReadWait len" using read_reaches by blast
  with run read_ready [of api k h cx len w0 "Ok bs" s' w1] w' show ?thesis
    by (metis map_err_eq_simps(1))
qed

lemma sys_tcp_stream_write_Ok:
  assumes "sys_tcp_stream_write api k h bs w = Some (Return (Ok n), w')"
  shows "\<exists>cx w0 w1. poll_with api k h (write_poll api bs cx) w0 = Some (Return (Ready (Ok n)), w1) \<and>
    w' = sys_set_network_polling_mode k False w1"
proof -
  from assms have "poll_on api k (AsyncSocket_write api k h) (WriteWait bs) None w
      = Some (Return (Ok (Ok n)), w')"
    by (auto simp: sys_tcp_stream_write_def elim!: pbind_ReturnE)
  from poll_driver_result [OF this] obtain s s' w0 w1 cx where
    "future_reaches (AsyncSocket_write api k h cx) (WriteWait bs) s"
    and run: "AsyncSocket_write api k h cx s w0 = Some (Return (Ready (Ok n), s'), w1)"
    and w': "w' = sys_set_network_polling_mode k False w1" by auto
  then have "s = WriteWait bs" using write_reaches by blast
  with run write_ready [of api k h cx bs w0 "Ok n" s' w1] w' show ?thesis by blast
qed

section \<open>Local ports\<close>

lemma start_endpoint_total:
  "start_endpoint counter w = Some (Return (ucast (counter mod 65535)), w)"
  "unat (ucast (counter mod 65535 :: u64) :: u16) = unat counter mod 65535"
proof -
  have u: "unat (counter mod 65535) = unat counter mod 65535" by (simp add: unat_mod_distrib)
  also have "\<dots> < 65535" by simp
  finally have b: "unat (counter mod 65535) < 65535" .
  then show "start_endpoint counter w = Some (Return (ucast (counter mod 65535)), w)"
    by (simp add: start_endpoint_def Let_def)
  show "unat (ucast (counter mod 65535 :: u64) :: u16) = unat counter mod 65535"
    using b by (simp add: unsigned_ucast_eq u take_bit_eq_mod)
qed

lemma connect_start_total:
  assumes "wake_frame k" and "TcpSocket_connect api remote (LOCAL_ENDPOINT w) s = (r, s', ws)"
  shows "\<exists>w'. connect_start api k remote s w = Some (Return (r, s'), w') \<and>
    nic_poisoned w' = nic_poisoned w \<and> nic_state w' = nic_state w \<and>
    LOCAL_ENDPOINT w' = LOCAL_ENDPOINT w + 1"
  using run_op_total [of k "TcpSocket_connect api remote (LOCAL_ENDPOINT w)" s r s' ws
      "w\<lparr>LOCAL_ENDPOINT := LOCAL_ENDPOINT w + 1\<rparr>"] assms
  by (fastforce simp: connect_start_def same_statics_def)

section \<open>Properties\<close>

text \<open>
  what a successful \<open>sys_tcp_stream_read\<close> returns. The bytes fit in the buffer; they are what
  \<open>recv_slice\<close> gave on an open socket with data, or there are none and the peer will send no more
  (end of file): an open connection without data never makes the call return \<open>Ok(0)\<close> by itself.
\<close>
theorem sys_tcp_stream_read_result:
  fixes api :: "('ifc, 'set, 'sock, 'dhcp) smoltcp"
    and k :: "('ifc, 'set, 'dhcp, 'x, 'r) hkernel"
  assumes "slice_laws api" and "sys_tcp_stream_read api k h len w = Some (Return (Ok bs), w')"
  shows "length bs \<le> len \<and> (\<exists>w0 nic s. nic_state (w0 :: ('ifc, 'set, 'dhcp, 'x) world_scheme) = Initialized nic \<and>
    SocketSet_get api (sockets nic) h = Some s \<and> \<not> is_shut (TcpSocket_state api s) \<and>
    (if TcpSocket_can_recv api s then \<exists>s' ws. TcpSocket_recv_slice api len s = (Ok bs, s', ws)
     else \<not> TcpSocket_may_recv api s \<and> bs = []))"
proof -
  from sys_tcp_stream_read_Ok [OF assms(2)] obtain cx w0 w1 where
    "poll_with api k h (read_poll api len cx) w0 = Some (Return (Ready (Ok bs)), w1)" by blast
  from read_p.ready_result [OF this] obtain nic s s' ws where
    nic: "nic_state w0 = Initialized nic" and get: "SocketSet_get api (sockets nic) h = Some s"
    and p: "read_poll api len cx s = (Ready (Ok bs), s', ws)" by blast
  from assms(1) p have "length bs \<le> len"
    by (auto simp: read_poll_def map_ready_eq dest: slice_lawsD split: if_splits)
  with nic get p show ?thesis
    by (intro conjI exI [of _ w0] exI [of _ nic] exI [of _ s])
      (auto simp: read_poll_def map_ready_eq split: if_splits)
qed

text \<open>
  a successful \<open>sys_tcp_stream_write\<close> reports at most the length of the buffer, and it reports what
  \<open>send_slice\<close> accepted, or zero when nothing more can be received.
\<close>
theorem sys_tcp_stream_write_result:
  fixes api :: "('ifc, 'set, 'sock, 'dhcp) smoltcp"
    and k :: "('ifc, 'set, 'dhcp, 'x, 'r) hkernel"
  assumes "slice_laws api" and "sys_tcp_stream_write api k h bs w = Some (Return (Ok n), w')"
  shows "n \<le> length bs \<and> (\<exists>w0 nic s. nic_state (w0 :: ('ifc, 'set, 'dhcp, 'x) world_scheme) = Initialized nic \<and>
    SocketSet_get api (sockets nic) h = Some s \<and> \<not> is_shut (TcpSocket_state api s) \<and>
    (if TcpSocket_may_recv api s
     then TcpSocket_can_send api s \<and> (\<exists>s' ws. TcpSocket_send_slice api bs s = (Ok n, s', ws))
     else n = 0))"
proof -
  from sys_tcp_stream_write_Ok [OF assms(2)] obtain cx w0 w1 where
    "poll_with api k h (write_poll api bs cx) w0 = Some (Return (Ready (Ok n)), w1)" by blast
  from write_p.ready_result [OF this] obtain nic s s' ws where
    nic: "nic_state w0 = Initialized nic" and get: "SocketSet_get api (sockets nic) h = Some s"
    and p: "write_poll api bs cx s = (Ready (Ok n), s', ws)" by blast
  from assms(1) p have "n \<le> length bs"
    by (auto simp: write_poll_def map_ready_eq dest: slice_lawsD split: if_splits)
  with nic get p show ?thesis
    by (intro conjI exI [of _ w0] exI [of _ nic] exI [of _ s])
      (auto simp: write_poll_def map_ready_eq split: if_splits)
qed

text \<open>
  A call that is driven by \<open>poll_on\<close> and whose first poll of the socket is ready: it returns without
  waiting, updates this socket only and leaves the mutex usable.
\<close>

lemma poll_on_at_once:
  assumes "kernel_frame k" and "socket_set_laws api" and "\<not> nic_poisoned w"
    and "nic_state w = Initialized nic" and "SocketSet_get api (sockets nic) h = Some s"
    and f: "future (ThreadWaker (sys_getpid k w)) st = pbind (poll_with api k h op) (\<lambda>p. pret (g p))"
    and op: "op s = (p, s', ws)" and g: "g p = (Ready r, st')"
  shows "\<exists>w1 nic'. poll_on api k future st timeout w
      = Some (Return (Ok r), sys_set_network_polling_mode k False w1) \<and>
    \<not> nic_poisoned w1 \<and> nic_state w1 = Initialized nic' \<and>
    (\<forall>h'. SocketSet_get api (sockets nic') h' =
      (if h' = h then Some s' else SocketSet_get api (sockets nic) h'))"
proof -
  obtain start w2 where now: "instant_now k (sys_set_network_polling_mode k True w) = (start, w2)" by fastforce
  have "same_statics w w2"
    using kernel_frame_mode [OF assms(1)] kernel_frame_now [OF assms(1) now]
    by (rule same_statics_trans)
  then have "\<not> nic_poisoned w2" and "nic_state w2 = Initialized nic"
    using assms(3,4) by (simp_all add: same_statics_def)
  from poll_with_total [where op = op, OF kernel_frame_wake [OF assms(1)] this assms(5) op] obtain w3 where
    "poll_with api k h op w2 = Some (Return p, w3)"
    and w3: "\<not> nic_poisoned w3" "nic_state w3 = Initialized (nic\<lparr>sockets :=
        SocketSet_put api h s' (sockets nic), nic_waker := \<lparr>waker = None\<rparr>\<rparr>)" by blast
  then have "future (ThreadWaker (sys_getpid k w)) st w2 = Some (Return (Ready r, st'), w3)"
    by (simp add: f g)
  then have "poll_on api k future st timeout w = Some (Return (Ok r), sys_set_network_polling_mode k False w3)"
    by (simp add: poll_on_def Let_def now poll_driver.driver_ready)
  with w3 assms(2,5) show ?thesis by (auto simp: socket_set_get_put)
qed

text \<open>\<open>sys_tcp_stream_read\<close> with data, and \<open>sys_tcp_stream_write\<close> with room in the send buffer.\<close>

lemma read_at_once:
  assumes "kernel_frame k" and "socket_set_laws api" and "\<not> nic_poisoned w"
    and "nic_state w = Initialized nic" and "SocketSet_get api (sockets nic) h = Some s"
    and "\<not> is_shut (TcpSocket_state api s)" and "TcpSocket_can_recv api s"
    and "TcpSocket_recv_slice api len s = (Ok bs, s', ws)"
  shows "\<exists>w1 nic'. sys_tcp_stream_read api k h len w
      = Some (Return (Ok bs), sys_set_network_polling_mode k False w1) \<and>
    \<not> nic_poisoned w1 \<and> nic_state w1 = Initialized nic' \<and>
    (\<forall>h'. SocketSet_get api (sockets nic') h' =
      (if h' = h then Some s' else SocketSet_get api (sockets nic) h'))"
proof -
  let ?cx = "ThreadWaker (sys_getpid k w)"
  have "read_poll api len ?cx s = (Ready (Ok bs), s', ws)"
    using assms(6-8) by (simp add: read_poll_def map_ready_def)
  from poll_on_at_once [OF assms(1-5), where future = "AsyncSocket_read api k h" and st = "ReadWait len"
      and g = "\<lambda>p. case p of Pending \<Rightarrow> (Pending, ReadWait len) | Ready r \<Rightarrow> (Ready (map_err (\<lambda>_. Illegal) r), ReadDone)" and r = "Ok bs" and st' = ReadDone and timeout = None,
      OF AsyncSocket_read.simps(1), OF this, simplified] obtain w1 nic' where
    "poll_on api k (AsyncSocket_read api k h) (ReadWait len) None w
       = Some (Return (Ok (Ok bs)), sys_set_network_polling_mode k False w1)"
    and "\<not> nic_poisoned w1" and "nic_state w1 = Initialized nic'"
    and "\<forall>h'. SocketSet_get api (sockets nic') h' = (if h' = h then Some s' else SocketSet_get api (sockets nic) h')"
    by (elim exE conjE)
  then show ?thesis unfolding sys_tcp_stream_read_def
    by (intro exI [of _ w1] exI [of _ nic'] conjI) (simp, assumption+)
qed

lemma write_at_once:
  assumes "kernel_frame k" and "socket_set_laws api" and "\<not> nic_poisoned w"
    and "nic_state w = Initialized nic" and "SocketSet_get api (sockets nic) h = Some s"
    and "\<not> is_shut (TcpSocket_state api s)" and "TcpSocket_may_recv api s" and "TcpSocket_can_send api s"
    and "TcpSocket_send_slice api bs s = (Ok n, s', ws)"
  shows "\<exists>w1 nic'. sys_tcp_stream_write api k h bs w
      = Some (Return (Ok n), sys_set_network_polling_mode k False w1) \<and>
    \<not> nic_poisoned w1 \<and> nic_state w1 = Initialized nic' \<and>
    (\<forall>h'. SocketSet_get api (sockets nic') h' =
      (if h' = h then Some s' else SocketSet_get api (sockets nic) h'))"
proof -
  let ?cx = "ThreadWaker (sys_getpid k w)"
  have "write_poll api bs ?cx s = (Ready (Ok n), s', ws)"
    using assms(6-9) by (simp add: write_poll_def map_ready_def)
  from poll_on_at_once [OF assms(1-5), where future = "AsyncSocket_write api k h" and st = "WriteWait bs"
      and g = "\<lambda>p. case p of Pending \<Rightarrow> (Pending, WriteWait bs) | Ready r \<Rightarrow> (Ready r, WriteDone)" and r = "Ok n" and st' = WriteDone and timeout = None,
      OF AsyncSocket_write.simps(1), OF this, simplified] obtain w1 nic' where
    "poll_on api k (AsyncSocket_write api k h) (WriteWait bs) None w
       = Some (Return (Ok (Ok n)), sys_set_network_polling_mode k False w1)"
    and "\<not> nic_poisoned w1" and "nic_state w1 = Initialized nic'"
    and "\<forall>h'. SocketSet_get api (sockets nic') h' = (if h' = h then Some s' else SocketSet_get api (sockets nic) h')"
    by (elim exE conjE)
  then show ?thesis unfolding sys_tcp_stream_write_def
    by (intro exI [of _ w1] exI [of _ nic'] conjI) (simp, assumption+)
qed

text \<open>
  C7: \<open>sys_tcp_stream_read\<close> on a connection with data returns without waiting: it hands over what
  \<open>recv_slice\<close> gives, updates this socket only, leaves the mutex usable and switches the polling mode
  off at the end. The kernel calls leave the statics of the crate alone (\<open>kernel_frame\<close>): no other thread
  touches the interface during the call; with other threads at work see \<open>Tcp_Stream\<close>.
\<close>
theorem sys_tcp_stream_read_available:
  assumes "kernel_frame k" and "socket_set_laws api" and "\<not> nic_poisoned w"
    and "nic_state w = Initialized nic" and "SocketSet_get api (sockets nic) h = Some s"
    and "\<not> is_shut (TcpSocket_state api s)" and "TcpSocket_can_recv api s"
    and "TcpSocket_recv_slice api len s = (Ok bs, s', ws)"
  shows "\<exists>w1 nic'. sys_tcp_stream_read api k h len w
      = Some (Return (Ok bs), sys_set_network_polling_mode k False w1) \<and>
    \<not> nic_poisoned w1 \<and> nic_state w1 = Initialized nic' \<and>
    (\<forall>h'. SocketSet_get api (sockets nic') h' =
      (if h' = h then Some s' else SocketSet_get api (sockets nic) h'))"
  using assms by (rule read_at_once)

definition demo_data_sock :: demo_sock where
  "demo_data_sock = demo_closed\<lparr>sk_state := Established, sk_rx := [1, 2, 3]\<rparr>"

theorem sys_tcp_stream_read_available_witness:
  "\<exists>w'. sys_tcp_stream_read demo_stack demo_kernel 0 2 (demo_conn_world demo_data_sock)
     = Some (Return (Ok [1, 2]), w')"
proof -
  let ?w = "demo_conn_world demo_data_sock"
  have "\<not> nic_poisoned ?w" and "nic_state ?w = Initialized (demo_nic\<lparr>sockets := [demo_data_sock]\<rparr>)"
    by (simp_all add: demo_conn_world_def demo_world0_def)
  from sys_tcp_stream_read_available [OF demo_kernel_frame demo_socket_set_laws this,
      of 0 demo_data_sock 2] show ?thesis
    by (simp add: demo_stack_def demo_data_sock_def demo_closed_def) blast
qed

lemma demo_read_runs:
  "\<exists>w'. sys_tcp_stream_read demo_stack demo_kernel 0 2 (demo_conn_world demo_data_sock)
     = Some (Return (Ok [1, 2]), w')"
  by (simp add: sys_tcp_stream_read_def poll_on_def Let_def poll_driver.driver_ready demo_run_defs
      read_poll_def demo_data_sock_def)

theorem sys_tcp_stream_read_result_witness:
  "length [1, 2 :: u8] \<le> 2 \<and> (\<exists>w'. sys_tcp_stream_read demo_stack demo_kernel 0 2
     (demo_conn_world demo_data_sock) = Some (Return (Ok [1, 2]), w'))"
  using demo_read_runs sys_tcp_stream_read_result [OF demo_slice_laws] by blast

lemma demo_write_runs:
  "\<exists>w'. sys_tcp_stream_write demo_stack demo_kernel 0 [9, 8] (demo_conn_world demo_data_sock)
     = Some (Return (Ok 2), w')"
  by (simp add: sys_tcp_stream_write_def poll_on_def Let_def poll_driver.driver_ready demo_run_defs
      write_poll_def demo_data_sock_def)

theorem sys_tcp_stream_write_result_witness:
  "2 \<le> length [9, 8 :: u8] \<and> (\<exists>w'. sys_tcp_stream_write demo_stack demo_kernel 0 [9, 8]
     (demo_conn_world demo_data_sock) = Some (Return (Ok 2), w'))"
  using demo_write_runs sys_tcp_stream_write_result [OF demo_slice_laws] by blast

text \<open>
  C20: a successful shutdown of the writing side or of both sides leaves the connection shut; shutting
  down the reading side is accepted and changes nothing; any other argument never returns.
\<close>
theorem sys_tcp_stream_shutdown_result:
  assumes "socket_set_laws api" and "sys_tcp_stream_shutdown api k h how w = Some (Return (Ok ()), w')"
  shows "(how = 0 \<and> w' = w) \<or> ((how = 1 \<or> how = 2) \<and>
    (\<exists>nic s. nic_state w' = Initialized nic \<and> SocketSet_get api (sockets nic) h = Some s \<and>
       is_shut (TcpSocket_state api s)))"
proof (cases "how = 0")
  case True
  with assms(2) show ?thesis by (simp add: sys_tcp_stream_shutdown_def)
next
  case False
  with assms(2) have how: "how = 1 \<or> how = 2"
    and "sys_tcp_stream_close api k h w = Some (Return (Ok ()), w')"
    by (auto simp: sys_tcp_stream_shutdown_def split: if_splits)
  then have "block_on api k (AsyncSocket_close api k h) CloseDrain None w
      = Some (Return (Ok (Ok ())), w')"
    by (auto simp: sys_tcp_stream_close_def elim!: pbind_ReturnE)
  from block_driver_result [OF this] obtain cx s s' w0 where
    "AsyncSocket_close api k h cx s w0 = Some (Return (Ready (Ok ()), s'), w')" by auto
  from close_ready_shut [OF assms(1) this] how show ?thesis by blast
qed

lemma demo_shutdown_runs:
  "\<exists>w'. sys_tcp_stream_shutdown demo_stack demo_kernel 0 2 (demo_conn_world demo_data_sock)
     = Some (Return (Ok ()), w')"
  by (simp add: sys_tcp_stream_shutdown_def sys_tcp_stream_close_def block_on_def Let_def
      block_driver.driver_ready demo_run_defs close_drain_poll_def close_await_def close_wait_poll_def
      demo_data_sock_def demo_close_def)

theorem sys_tcp_stream_shutdown_result_witness:
  "\<exists>w' nic s. sys_tcp_stream_shutdown demo_stack demo_kernel 0 2 (demo_conn_world demo_data_sock)
     = Some (Return (Ok ()), w') \<and> nic_state w' = Initialized nic \<and>
     SocketSet_get demo_stack (sockets nic) 0 = Some s \<and> is_shut (TcpSocket_state demo_stack s)"
  using demo_shutdown_runs sys_tcp_stream_shutdown_result [OF demo_socket_set_laws] by fastforce

text \<open>
  the system calls before the network is initialised (or after its initialisation failed).
  \<open>sys_tcp_stream_connect\<close> and \<open>sys_tcp_listener_accept\<close> panic instead of returning an error, and leave
  the mutex poisoned; \<open>sys_tcp_stream_peer_addr\<close> returns the error.
\<close>
theorem syscalls_without_network:
  assumes "\<not> nic_poisoned w" and "\<not> is_initialized (nic_state w)"
  shows "sys_tcp_stream_connect api k ip port timeout w
      = Some (Panic ''Network is not initialized!'', w\<lparr>nic_poisoned := True\<rparr>) \<and>
    sys_tcp_listener_accept api k port w
      = Some (Panic ''Network is not initialized!'', w\<lparr>nic_poisoned := True\<rparr>) \<and>
    sys_tcp_stream_peer_addr api h w = Some (Return (Err ()), w)"
proof (intro conjI)
  show "sys_tcp_stream_peer_addr api h w = Some (Return (Err ()), w)"
    using assms by (cases "nic_state w")
      (simp_all add: sys_tcp_stream_peer_addr_def keep_alive_and_endpoint_def)
qed (simp_all add: sys_tcp_stream_connect_def sys_tcp_listener_accept_def
    AsyncSocket_new_uninitialized [OF assms])

theorem syscalls_without_network_witness:
  "sys_tcp_stream_connect demo_stack demo_kernel [1] 80 None (demo_world0\<lparr>nic_state := InitializationFailed\<rparr>)
     = Some (Panic ''Network is not initialized!'',
         demo_world0\<lparr>nic_state := InitializationFailed, nic_poisoned := True\<rparr>)"
  using syscalls_without_network [of "demo_world0\<lparr>nic_state := InitializationFailed\<rparr>" demo_stack demo_kernel]
  by (simp add: demo_world0_def)

text \<open>
  \<open>network_init\<close> has no failing return: whenever it returns, it returns \<open>Ok(())\<close>, and so
  \<open>sys_network_init\<close> with the feature \<open>smoltcp\<close> reports 0, also when the constructor of the interface
  answered \<open>InitializationFailed\<close>.
\<close>
lemma network_init_Ok:
  "network_init api k new w = Some (Return r, w') \<Longrightarrow> r = Ok ()"
  by (auto simp: network_init_def nic_lock_Return_iff elim!: pbind_ReturnE
        split: NetworkState.split_asm)

lemma sys_network_init_smoltcp:
  assumes "sys_network_init lc println level (Some init) w = Some (Return r, w')"
    and "\<And>w x w'. init w = Some (Return x, w') \<Longrightarrow> x = Ok ()"
  shows "r = 0"
  using assms(1) by (auto simp: sys_network_init_def elim!: pbind_ReturnE dest!: assms(2))

theorem network_init_never_reports_failure:
  "(\<forall>r w'. network_init api k new w = Some (Return r, w') \<longrightarrow> r = Ok ()) \<and>
   (\<forall>r w'. sys_network_init lc println level (Some (network_init api k new)) w
      = Some (Return r, w') \<longrightarrow> r = 0)"
  using network_init_Ok sys_network_init_smoltcp by metis

definition quiet_log :: "'w log_crate" where
  "quiet_log = \<lparr>set_logger = (\<lambda>w. (Ok (), w)), set_max_level = (\<lambda>l w. w), log_macro = (\<lambda>lg lvl msg w. w)\<rparr>"

theorem network_init_never_reports_failure_witness:
  "\<exists>w'. sys_network_init quiet_log (\<lambda>s w. w) None
     (Some (network_init demo_stack demo_kernel (pret InitializationFailed))) demo_world0
     = Some (Return 0, w')"
proof -
  let ?run = "sys_network_init quiet_log (\<lambda>s w. w) None
     (Some (network_init demo_stack demo_kernel (pret InitializationFailed))) demo_world0"
  have "\<exists>r w'. ?run = Some (Return r, w')"
    by (simp add: sys_network_init_def quiet_log_def network_init_def start_endpoint_def demo_defs)
  then show ?thesis
    using network_init_never_reports_failure by fastforce
qed

lemma sys_network_init_offline:
  assumes "set_logger lc w = (Ok (), w1)"
  shows "sys_network_init lc println level None w = Some (Return (- 1),
    log_macro lc (SysLogger_log println) LvlDebug ''uhyve network isn't available!''
      (set_max_level lc (max_level level) w1))"
  by (simp add: sys_network_init_def assms)

lemma debug_passes:
  "level_rank LvlDebug \<le> filter_rank (max_level level) \<longleftrightarrow> level = Some ''Debug'' \<or> level = Some ''Trace''"
  by (simp add: max_level_def)

text \<open>
  C36: the start of a build without \<open>smoltcp\<close>. The first \<open>sys_network_init\<close> returns -1 and prints its
  message exactly when the filter chosen at compile time lets debug messages pass, which the default
  filter does not. A second call, in either build, panics before it does anything: a logger is
  registered already.
\<close>
theorem sys_network_init_result:
  assumes "log_laws lc println has_logger filter_of lines" and "\<not> has_logger w"
  shows "\<exists>w'. sys_network_init lc println level None w = Some (Return (- 1), w') \<and>
    lines w' = lines w @ (if level = Some ''Debug'' \<or> level = Some ''Trace''
      then [''[DEBUG] uhyve network isn't available!''] else []) \<and>
    (\<exists>w2. sys_network_init lc println level net w' = Some (Panic ''Can't initialize logger'', w2) \<and>
      lines w2 = lines w')"
proof -
  note laws = log_lawsD [OF assms(1)]
  let ?log = "\<lambda>w. log_macro lc (SysLogger_log println) LvlDebug ''uhyve network isn't available!''
    (set_max_level lc (max_level level) w)"
  obtain x w1 where set: "set_logger lc w = (x, w1)" by fastforce
  with laws(1) [OF set] assms(2) have x: "x = Ok ()" "has_logger w1" "lines w1 = lines w"
    by (cases x; simp)+
  have "has_logger (?log w1)" by (simp only: SysLogger_lines(2) [OF assms(1)] laws(3) x(2))
  moreover obtain y w2 where again: "set_logger lc (?log w1) = (y, w2)" by fastforce
  ultimately have "y = Err ()" and "lines w2 = lines (?log w1)"
    using laws(1) [OF again] by (cases y; simp)+
  with again have "sys_network_init lc println level net (?log w1) = Some (Panic ''Can't initialize logger'', w2)
    \<and> lines w2 = lines (?log w1)" by (simp add: sys_network_init_def)
  moreover have "lines (?log w1) = lines w @ (if level = Some ''Debug'' \<or> level = Some ''Trace''
      then [''[DEBUG] uhyve network isn't available!''] else [])"
    unfolding SysLogger_lines(1) [OF assms(1)] laws(2) laws(4) x(3) debug_passes by simp
  moreover have "sys_network_init lc println level None w = Some (Return (- 1), ?log w1)"
    using set x(1) by (intro sys_network_init_offline) simp
  ultimately show ?thesis by blast
qed

theorem sys_network_init_result_witness:
  "\<exists>w'. sys_network_init demo_log_crate demo_println (Some ''Debug'') None (False, Off, [])
     = Some (Return (- 1), w') \<and> snd (snd w') = [''[DEBUG] uhyve network isn't available!''] \<and>
     (\<exists>w2. sys_network_init demo_log_crate demo_println (Some ''Debug'') None w'
       = Some (Panic ''Can't initialize logger'', w2))"
proof -
  have "\<not> fst (False, Off, [] :: string list)" by simp
  from sys_network_init_result [OF demo_log_laws this, of "Some ''Debug''" None]
  obtain w' where "sys_network_init demo_log_crate demo_println (Some ''Debug'') None (False, Off, [])
     = Some (Return (- 1), w')" and "snd (snd w') = [''[DEBUG] uhyve network isn't available!'']"
    and "\<exists>w2. sys_network_init demo_log_crate demo_println (Some ''Debug'') None w'
       = Some (Panic ''Can't initialize logger'', w2)" unfolding snd_conv by auto
  then show ?thesis by blast
qed

text \<open>
  the local ports of outgoing connections. The conversion in \<open>start_endpoint\<close> never fails and yields
  the counter modulo 65535, so the first port can be 0, and \<open>fetch_add\<close> wraps to 0 as well. \<open>connect\<close>
  takes the port as it is: where the stack rejects local port 0 (as \<open>smoltcp\<close> does), the first \<open>connect\<close>
  after such a start fails with \<open>Error::Illegal\<close>, whatever the remote address; the counter moves on.
\<close>
theorem connect_from_port_zero_fails:
  assumes "wake_frame k" and "\<not> nic_poisoned w" and "nic_state w = Initialized nic"
    and "SocketSet_get api (sockets nic) h = Some s"
    and port0: "start_endpoint counter w = Some (Return (LOCAL_ENDPOINT w), w)" "unat counter mod 65535 = 0"
    and ip: "from_utf8 ip = Ok str" "IpAddress_from_str api str = Ok address"
    and rejects: "\<And>remote. \<exists>e s' ws. TcpSocket_connect api remote 0 s = (Err e, s', ws)"
  shows "\<exists>w'. AsyncSocket_connect api k h cx (ConnectStart ip port) w
      = Some (Return (Ready (Err Illegal), ConnectDone), w') \<and> LOCAL_ENDPOINT w' = 1"
proof -
  have "LOCAL_ENDPOINT w = ucast (counter mod 65535)"
    using port0(1) start_endpoint_total(1) [of counter w] by simp
  then have zero: "LOCAL_ENDPOINT w = 0"
    using port0(2) start_endpoint_total(2) [of counter] by (simp add: unat_eq_zero)
  obtain e s' ws where "TcpSocket_connect api (address, port) 0 s = (Err e, s', ws)"
    using rejects by blast
  with zero connect_start_total [OF assms(1), of api "(address, port)" w s "Err e" s' ws] obtain w1
    where "connect_start api k (address, port) s w = Some (Return (Err e, s'), w1)"
      and "LOCAL_ENDPOINT w1 = 1" by auto
  from socket_with_total [where f = "connect_start api k (address, port)", OF assms(1-4) this(1)] this(2)
  obtain w2
    where "socket_with api k h (connect_start api k (address, port)) w = Some (Return (Err e), w2)"
      and "LOCAL_ENDPOINT w2 = 1" by auto
  with ip show ?thesis by simp
qed

theorem connect_from_port_zero_fails_witness:
  "\<exists>w'. AsyncSocket_connect demo_stack demo_kernel 0 (ThreadWaker 7) (ConnectStart [49] 80)
     (demo_conn_world demo_closed\<lparr>LOCAL_ENDPOINT := 0\<rparr>)
     = Some (Return (Ready (Err Illegal), ConnectDone), w') \<and> LOCAL_ENDPOINT w' = 1"
proof (rule connect_from_port_zero_fails [OF demo_wake_frame,
      where nic = "demo_nic\<lparr>sockets := [demo_closed]\<rparr>" and s = demo_closed and counter = 0])
  show "from_utf8 [49] = Ok [49]"
    by (simp add: from_utf8_def utf8_len_def)
qed (simp_all add: demo_conn_world_def demo_world0_def demo_stack_def demo_closed_def start_endpoint_def)

end
