(* ===== verification/Hermit_Abi.thy ===== *)
theory Hermit_Abi
  imports Tcp_Syscalls
begin

text \<open>
  The crate \<open>hermit-abi\<close>: the calls an application (through the standard library) makes into the
  unikernel. \<open>kernel_abi\<close> is the \<open>extern\<close> block of \<open>lib.rs\<close>, whose functions belong to the kernel and are
  parameters; \<open>tcp_symbols\<close> is the \<open>extern\<close> block of \<open>tcpstream.rs\<close> and \<open>tcplistener.rs\<close>, whose functions
  \<open>hermit-sys\<close> defines (theory \<open>Tcp_Backends\<close>). Signed integers are \<open>int\<close>, \<open>usize\<close> and pointers are 64-bit
  words, a mutable buffer is its length as an argument and its new contents in the result. A call of
  type \<open>!\<close> has the result type \<open>unit\<close>. The functions of \<open>lib.rs\<close> have the prefix \<open>abi\<close>, those of the two
  modules the name of their module.
\<close>

section \<open>Types and constants\<close>

datatype Priority = Priority u8

primrec Priority_into :: "Priority \<Rightarrow> u8" where
  "Priority_into (Priority x) = x"

definition Priority_from :: "u8 \<Rightarrow> Priority" where
  "Priority_from x = Priority x"

text \<open>The derived order of a tuple struct is the order of its field.\<close>

instantiation Priority :: linorder
begin

definition less_eq_Priority :: "Priority \<Rightarrow> Priority \<Rightarrow> bool" where
  "a \<le> b \<longleftrightarrow> Priority_into a \<le> Priority_into b"

definition less_Priority :: "Priority \<Rightarrow> Priority \<Rightarrow> bool" where
  "a < b \<longleftrightarrow> Priority_into a < Priority_into b"

instance
proof
  fix a b :: Priority assume "a \<le> b" and "b \<le> a"
  then show "a = b" by (cases a; cases b) (simp add: less_eq_Priority_def)
qed (auto simp: less_eq_Priority_def less_Priority_def)

end

definition NO_PRIORITIES :: nat where "NO_PRIORITIES = 31"

definition HIGH_PRIO :: Priority where "HIGH_PRIO = Priority_from 3"
definition NORMAL_PRIO :: Priority where "NORMAL_PRIO = Priority_from 2"
definition LOW_PRIO :: Priority where "LOW_PRIO = Priority_from 1"

definition NSEC_PER_SEC :: u64 where "NSEC_PER_SEC = 1000000000"
definition CLOCK_REALTIME :: u64 where "CLOCK_REALTIME = 1"
definition CLOCK_MONOTONIC :: u64 where "CLOCK_MONOTONIC = 4"
definition STDIN_FILENO :: int where "STDIN_FILENO = 0"
definition STDOUT_FILENO :: int where "STDOUT_FILENO = 1"
definition STDERR_FILENO :: int where "STDERR_FILENO = 2"

text \<open>The flags of \<open>open\<close>, in octal in the source.\<close>

definition O_RDONLY :: int where "O_RDONLY = 0"
definition O_WRONLY :: int where "O_WRONLY = 1"
definition O_RDWR :: int where "O_RDWR = 2"
definition O_CREAT :: int where "O_CREAT = 1 * 8 ^ 2"
definition O_EXCL :: int where "O_EXCL = 2 * 8 ^ 2"
definition O_TRUNC :: int where "O_TRUNC = 1 * 8 ^ 3"
definition O_APPEND :: int where "O_APPEND = 2 * 8 ^ 3"

definition RAND_MAX :: u64 where "RAND_MAX = 2147483647"

record timespec =
  tv_sec :: int
  tv_nsec :: int

text \<open>The constructors carry the name of the type: \<open>Unspecified\<close>, \<open>Ipv4\<close> and \<open>Ipv6\<close> also belong to \<open>IpAddress\<close>.\<close>

datatype Version = VersionUnspecified | VersionIpv4 | VersionIpv6

section \<open>System calls of the kernel\<close>

record 'w kernel_abi =
  sys_secure_rand64 :: "('w, u64 option) prog"
  sys_secure_rand32 :: "('w, u32 option) prog"
  sys_rand :: "('w, u32) prog"
  sys_srand :: "u32 \<Rightarrow> ('w, unit) prog"
  sys_get_processor_count :: "('w, u64) prog"
  sys_malloc :: "u64 \<Rightarrow> u64 \<Rightarrow> ('w, u64) prog"
  sys_realloc :: "u64 \<Rightarrow> u64 \<Rightarrow> u64 \<Rightarrow> u64 \<Rightarrow> ('w, u64) prog"
  sys_free :: "u64 \<Rightarrow> u64 \<Rightarrow> u64 \<Rightarrow> ('w, unit) prog"
  sys_init_queue :: "u64 \<Rightarrow> ('w, int) prog"
  sys_notify :: "u64 \<Rightarrow> int \<Rightarrow> ('w, int) prog"
  sys_add_queue :: "u64 \<Rightarrow> int \<Rightarrow> ('w, int) prog"
  sys_wait :: "u64 \<Rightarrow> ('w, int) prog"
  sys_destroy_queue :: "u64 \<Rightarrow> ('w, int) prog"
  sys_read :: "int \<Rightarrow> u64 \<Rightarrow> u64 \<Rightarrow> ('w, int) prog"
  sys_write :: "int \<Rightarrow> u64 \<Rightarrow> u64 \<Rightarrow> ('w, int) prog"
  sys_close :: "int \<Rightarrow> ('w, int) prog"
  sys_sem_init :: "u64 \<Rightarrow> u32 \<Rightarrow> ('w, int) prog"
  sys_sem_destroy :: "u64 \<Rightarrow> ('w, int) prog"
  sys_sem_post :: "u64 \<Rightarrow> ('w, int) prog"
  sys_sem_trywait :: "u64 \<Rightarrow> ('w, int) prog"
  sys_sem_timedwait :: "u64 \<Rightarrow> u32 \<Rightarrow> ('w, int) prog"
  sys_recmutex_init :: "u64 \<Rightarrow> ('w, int) prog"
  sys_recmutex_destroy :: "u64 \<Rightarrow> ('w, int) prog"
  sys_recmutex_lock :: "u64 \<Rightarrow> ('w, int) prog"
  sys_recmutex_unlock :: "u64 \<Rightarrow> ('w, int) prog"
  sys_getpid :: "('w, u32) prog"
  sys_exit :: "int \<Rightarrow> ('w, unit) prog"
  sys_abort :: "('w, unit) prog"
  sys_usleep :: "u64 \<Rightarrow> ('w, unit) prog"
  sys_spawn :: "u64 \<Rightarrow> u64 \<Rightarrow> u64 \<Rightarrow> u8 \<Rightarrow> int \<Rightarrow> ('w, int) prog"
  sys_spawn2 :: "u64 \<Rightarrow> u64 \<Rightarrow> u8 \<Rightarrow> u64 \<Rightarrow> int \<Rightarrow> ('w, Tid) prog"
  sys_join :: "Tid \<Rightarrow> ('w, int) prog"
  sys_yield :: "('w, unit) prog"
  sys_clock_gettime :: "u64 \<Rightarrow> u64 \<Rightarrow> ('w, int) prog"
  sys_open :: "u64 \<Rightarrow> int \<Rightarrow> int \<Rightarrow> ('w, int) prog"
  sys_unlink :: "u64 \<Rightarrow> ('w, int) prog"
  sys_network_init :: "('w, int) prog"
  sys_block_current_task :: "('w, unit) prog"
  sys_wakeup_task :: "Tid \<Rightarrow> ('w, unit) prog"
  sys_get_priority :: "('w, u8) prog"

definition abi_isatty :: "int \<Rightarrow> bool" where
  "abi_isatty fd = False"

definition abi_network_init :: "'w kernel_abi \<Rightarrow> ('w, int) prog" where
  "abi_network_init k = sys_network_init k"

definition abi_get_processor_count :: "'w kernel_abi \<Rightarrow> ('w, u64) prog" where
  "abi_get_processor_count k = sys_get_processor_count k"

definition abi_malloc :: "'w kernel_abi \<Rightarrow> u64 \<Rightarrow> u64 \<Rightarrow> ('w, u64) prog" where
  "abi_malloc k siz align = sys_malloc k siz align"

definition abi_realloc :: "'w kernel_abi \<Rightarrow> u64 \<Rightarrow> u64 \<Rightarrow> u64 \<Rightarrow> u64 \<Rightarrow> ('w, u64) prog" where
  "abi_realloc k ptr siz align new_size = sys_realloc k ptr siz align new_size"

definition abi_free :: "'w kernel_abi \<Rightarrow> u64 \<Rightarrow> u64 \<Rightarrow> u64 \<Rightarrow> ('w, unit) prog" where
  "abi_free k ptr siz align = sys_free k ptr siz align"

definition abi_notify :: "'w kernel_abi \<Rightarrow> u64 \<Rightarrow> int \<Rightarrow> ('w, int) prog" where
  "abi_notify k ident count = sys_notify k ident count"

definition abi_add_queue :: "'w kernel_abi \<Rightarrow> u64 \<Rightarrow> int \<Rightarrow> ('w, int) prog" where
  "abi_add_queue k ident timeout_ns = sys_add_queue k ident timeout_ns"

definition abi_wait :: "'w kernel_abi \<Rightarrow> u64 \<Rightarrow> ('w, int) prog" where
  "abi_wait k ident = sys_wait k ident"

definition abi_init_queue :: "'w kernel_abi \<Rightarrow> u64 \<Rightarrow> ('w, int) prog" where
  "abi_init_queue k ident = sys_init_queue k ident"

definition abi_destroy_queue :: "'w kernel_abi \<Rightarrow> u64 \<Rightarrow> ('w, int) prog" where
  "abi_destroy_queue k ident = sys_destroy_queue k ident"

definition abi_read :: "'w kernel_abi \<Rightarrow> int \<Rightarrow> u64 \<Rightarrow> u64 \<Rightarrow> ('w, int) prog" where
  "abi_read k fd buf len = sys_read k fd buf len"

definition abi_write :: "'w kernel_abi \<Rightarrow> int \<Rightarrow> u64 \<Rightarrow> u64 \<Rightarrow> ('w, int) prog" where
  "abi_write k fd buf len = sys_write k fd buf len"

definition abi_close :: "'w kernel_abi \<Rightarrow> int \<Rightarrow> ('w, int) prog" where
  "abi_close k fd = sys_close k fd"

definition abi_sem_init :: "'w kernel_abi \<Rightarrow> u64 \<Rightarrow> u32 \<Rightarrow> ('w, int) prog" where
  "abi_sem_init k sem value = sys_sem_init k sem value"

definition abi_sem_destroy :: "'w kernel_abi \<Rightarrow> u64 \<Rightarrow> ('w, int) prog" where
  "abi_sem_destroy k sem = sys_sem_destroy k sem"

definition abi_sem_post :: "'w kernel_abi \<Rightarrow> u64 \<Rightarrow> ('w, int) prog" where
  "abi_sem_post k sem = sys_sem_post k sem"

definition abi_sem_trywait :: "'w kernel_abi \<Rightarrow> u64 \<Rightarrow> ('w, int) prog" where
  "abi_sem_trywait k sem = sys_sem_trywait k sem"

definition abi_sem_timedwait :: "'w kernel_abi \<Rightarrow> u64 \<Rightarrow> u32 \<Rightarrow> ('w, int) prog" where
  "abi_sem_timedwait k sem ms = sys_sem_timedwait k sem ms"

definition abi_recmutex_init :: "'w kernel_abi \<Rightarrow> u64 \<Rightarrow> ('w, int) prog" where
  "abi_recmutex_init k recmutex = sys_recmutex_init k recmutex"

definition abi_recmutex_destroy :: "'w kernel_abi \<Rightarrow> u64 \<Rightarrow> ('w, int) prog" where
  "abi_recmutex_destroy k recmutex = sys_recmutex_destroy k recmutex"

definition abi_recmutex_lock :: "'w kernel_abi \<Rightarrow> u64 \<Rightarrow> ('w, int) prog" where
  "abi_recmutex_lock k recmutex = sys_recmutex_lock k recmutex"

definition abi_recmutex_unlock :: "'w kernel_abi \<Rightarrow> u64 \<Rightarrow> ('w, int) prog" where
  "abi_recmutex_unlock k recmutex = sys_recmutex_unlock k recmutex"

definition abi_getpid :: "'w kernel_abi \<Rightarrow> ('w, u32) prog" where
  "abi_getpid k = sys_getpid k"

definition abi_exit :: "'w kernel_abi \<Rightarrow> int \<Rightarrow> ('w, unit) prog" where
  "abi_exit k arg = sys_exit k arg"

definition abi_abort :: "'w kernel_abi \<Rightarrow> ('w, unit) prog" where
  "abi_abort k = sys_abort k"

definition abi_usleep :: "'w kernel_abi \<Rightarrow> u64 \<Rightarrow> ('w, unit) prog" where
  "abi_usleep k usecs = sys_usleep k usecs"

definition abi_spawn :: "'w kernel_abi \<Rightarrow> u64 \<Rightarrow> u64 \<Rightarrow> u64 \<Rightarrow> u8 \<Rightarrow> int \<Rightarrow> ('w, int) prog" where
  "abi_spawn k ident func arg prio core_id = sys_spawn k ident func arg prio core_id"

definition abi_spawn2 :: "'w kernel_abi \<Rightarrow> u64 \<Rightarrow> u64 \<Rightarrow> u8 \<Rightarrow> u64 \<Rightarrow> int \<Rightarrow> ('w, Tid) prog" where
  "abi_spawn2 k func arg prio stack_size core_id = sys_spawn2 k func arg prio stack_size core_id"

definition abi_join :: "'w kernel_abi \<Rightarrow> Tid \<Rightarrow> ('w, int) prog" where
  "abi_join k ident = sys_join k ident"

definition abi_yield_now :: "'w kernel_abi \<Rightarrow> ('w, unit) prog" where
  "abi_yield_now k = sys_yield k"

definition abi_clock_gettime :: "'w kernel_abi \<Rightarrow> u64 \<Rightarrow> u64 \<Rightarrow> ('w, int) prog" where
  "abi_clock_gettime k clock_id tp = sys_clock_gettime k clock_id tp"

definition abi_open :: "'w kernel_abi \<Rightarrow> u64 \<Rightarrow> int \<Rightarrow> int \<Rightarrow> ('w, int) prog" where
  "abi_open k name flags mode = sys_open k name flags mode"

definition abi_unlink :: "'w kernel_abi \<Rightarrow> u64 \<Rightarrow> ('w, int) prog" where
  "abi_unlink k name = sys_unlink k name"

definition abi_rand :: "'w kernel_abi \<Rightarrow> ('w, u32) prog" where
  "abi_rand k = sys_rand k"

definition abi_srand :: "'w kernel_abi \<Rightarrow> u32 \<Rightarrow> ('w, unit) prog" where
  "abi_srand k seed = sys_srand k seed"

definition abi_secure_rand32 :: "'w kernel_abi \<Rightarrow> ('w, u32 option) prog" where
  "abi_secure_rand32 k = sys_secure_rand32 k"

definition abi_secure_rand64 :: "'w kernel_abi \<Rightarrow> ('w, u64 option) prog" where
  "abi_secure_rand64 k = sys_secure_rand64 k"

definition abi_block_current_task :: "'w kernel_abi \<Rightarrow> ('w, unit) prog" where
  "abi_block_current_task k = sys_block_current_task k"

definition abi_wakeup_task :: "'w kernel_abi \<Rightarrow> Tid \<Rightarrow> ('w, unit) prog" where
  "abi_wakeup_task k tid = sys_wakeup_task k tid"

definition abi_get_priority :: "'w kernel_abi \<Rightarrow> ('w, Priority) prog" where
  "abi_get_priority k = pbind (sys_get_priority k) (\<lambda>x. pret (Priority_from x))"

section \<open>TCP streams and listeners\<close>

record 'w tcp_symbols =
  sym_tcp_stream_connect :: "u8 list \<Rightarrow> u16 \<Rightarrow> u64 option \<Rightarrow> ('w, (Handle, unit) result) prog"
  sym_tcp_stream_close :: "Handle \<Rightarrow> ('w, (unit, unit) result) prog"
  sym_tcp_stream_read :: "Handle \<Rightarrow> nat \<Rightarrow> ('w, (u8 list, unit) result) prog"
  sym_tcp_stream_write :: "Handle \<Rightarrow> u8 list \<Rightarrow> ('w, (nat, unit) result) prog"
  sym_tcp_stream_set_read_timeout :: "Handle \<Rightarrow> u64 option \<Rightarrow> ('w, (unit, unit) result) prog"
  sym_tcp_stream_get_read_timeout :: "Handle \<Rightarrow> ('w, (u64 option, unit) result) prog"
  sym_tcp_stream_set_write_timeout :: "Handle \<Rightarrow> u64 option \<Rightarrow> ('w, (unit, unit) result) prog"
  sym_tcp_stream_get_write_timeout :: "Handle \<Rightarrow> ('w, (u64 option, unit) result) prog"
  sym_tcp_stream_peek :: "Handle \<Rightarrow> nat \<Rightarrow> ('w, (u8 list, unit) result) prog"
  sym_tcp_stream_set_nonblocking :: "Handle \<Rightarrow> bool \<Rightarrow> ('w, (unit, unit) result) prog"
  sym_tcp_stream_set_tll :: "Handle \<Rightarrow> u32 \<Rightarrow> ('w, (unit, unit) result) prog"
  sym_tcp_stream_get_tll :: "Handle \<Rightarrow> ('w, (u32, unit) result) prog"
  sym_tcp_stream_shutdown :: "Handle \<Rightarrow> int \<Rightarrow> ('w, (unit, unit) result) prog"
  sym_tcp_stream_peer_addr :: "Handle \<Rightarrow> ('w, (IpAddress \<times> u16, unit) result) prog"
  sym_tcp_listener_accept :: "u16 \<Rightarrow> ('w, (Handle \<times> IpAddress \<times> u16, unit) result) prog"

definition tcpstream_connect :: "'w tcp_symbols \<Rightarrow> u8 list \<Rightarrow> u16 \<Rightarrow> u64 option \<Rightarrow> ('w, (Handle, unit) result) prog" where
  "tcpstream_connect t ip port timeout = sym_tcp_stream_connect t ip port timeout"

definition tcpstream_close :: "'w tcp_symbols \<Rightarrow> Handle \<Rightarrow> ('w, (unit, unit) result) prog" where
  "tcpstream_close t handle = sym_tcp_stream_close t handle"

definition tcpstream_peek :: "'w tcp_symbols \<Rightarrow> Handle \<Rightarrow> nat \<Rightarrow> ('w, (u8 list, unit) result) prog" where
  "tcpstream_peek t handle buf = sym_tcp_stream_peek t handle buf"

definition tcpstream_peer_addr :: "'w tcp_symbols \<Rightarrow> Handle \<Rightarrow> ('w, (IpAddress \<times> u16, unit) result) prog" where
  "tcpstream_peer_addr t handle = sym_tcp_stream_peer_addr t handle"

definition tcpstream_read :: "'w tcp_symbols \<Rightarrow> Handle \<Rightarrow> nat \<Rightarrow> ('w, (u8 list, unit) result) prog" where
  "tcpstream_read t handle buffer = sym_tcp_stream_read t handle buffer"

definition tcpstream_write :: "'w tcp_symbols \<Rightarrow> Handle \<Rightarrow> u8 list \<Rightarrow> ('w, (nat, unit) result) prog" where
  "tcpstream_write t handle buffer = sym_tcp_stream_write t handle buffer"

definition tcpstream_set_read_timeout :: "'w tcp_symbols \<Rightarrow> Handle \<Rightarrow> u64 option \<Rightarrow> ('w, (unit, unit) result) prog" where
  "tcpstream_set_read_timeout t handle timeout = sym_tcp_stream_set_read_timeout t handle timeout"

definition tcpstream_set_write_timeout :: "'w tcp_symbols \<Rightarrow> Handle \<Rightarrow> u64 option \<Rightarrow> ('w, (unit, unit) result) prog" where
  "tcpstream_set_write_timeout t handle timeout = sym_tcp_stream_set_write_timeout t handle timeout"

definition tcpstream_get_read_timeout :: "'w tcp_symbols \<Rightarrow> Handle \<Rightarrow> ('w, (u64 option, unit) result) prog" where
  "tcpstream_get_read_timeout t handle = sym_tcp_stream_get_read_timeout t handle"

definition tcpstream_get_write_timeout :: "'w tcp_symbols \<Rightarrow> Handle \<Rightarrow> ('w, (u64 option, unit) result) prog" where
  "tcpstream_get_write_timeout t handle = sym_tcp_stream_get_write_timeout t handle"

text \<open>smoltcp has no Nagle algorithm: it is always off.\<close>

definition tcpstream_set_nodelay :: "Handle \<Rightarrow> bool \<Rightarrow> ('w, (unit, unit) result) prog" where
  "tcpstream_set_nodelay h mode = pret (if mode then Ok () else Err ())"

definition tcpstream_nodelay :: "Handle \<Rightarrow> ('w, (bool, unit) result) prog" where
  "tcpstream_nodelay h = pret (Ok True)"

definition tcpstream_set_nonblocking :: "'w tcp_symbols \<Rightarrow> Handle \<Rightarrow> bool \<Rightarrow> ('w, (unit, unit) result) prog" where
  "tcpstream_set_nonblocking t handle mode = sym_tcp_stream_set_nonblocking t handle mode"

definition tcpstream_set_tll :: "'w tcp_symbols \<Rightarrow> Handle \<Rightarrow> u32 \<Rightarrow> ('w, (unit, unit) result) prog" where
  "tcpstream_set_tll t handle ttl = sym_tcp_stream_set_tll t handle ttl"

definition tcpstream_get_tll :: "'w tcp_symbols \<Rightarrow> Handle \<Rightarrow> ('w, (u32, unit) result) prog" where
  "tcpstream_get_tll t handle = sym_tcp_stream_get_tll t handle"

definition tcpstream_shutdown :: "'w tcp_symbols \<Rightarrow> Handle \<Rightarrow> int \<Rightarrow> ('w, (unit, unit) result) prog" where
  "tcpstream_shutdown t handle how = sym_tcp_stream_shutdown t handle how"

definition tcplistener_accept :: "'w tcp_symbols \<Rightarrow> u16 \<Rightarrow> ('w, (Handle \<times> IpAddress \<times> u16, unit) result) prog" where
  "tcplistener_accept t port = sym_tcp_listener_accept t port"

section \<open>Priorities\<close>

text \<open>
  \<open>Priority\<close> is a transparent wrapper: \<open>from\<close> and \<open>into\<close> are inverse to each other, the order of
  priorities is the order of their numbers, \<open>get_priority\<close> returns, in the state the kernel leaves, the
  priority whose number the kernel returned, and the three named priorities are in their order and below
  \<open>NO_PRIORITIES\<close>.
\<close>

theorem priority_roundtrip:
  "Priority_into (Priority_from x) = x \<and> Priority_from (Priority_into p) = p \<and>
   (Priority_from x \<le> Priority_from y \<longleftrightarrow> x \<le> y) \<and>
   (abi_get_priority k w = Some (Return p, w') \<longleftrightarrow> sys_get_priority k w = Some (Return (Priority_into p), w')) \<and>
   LOW_PRIO < NORMAL_PRIO \<and> NORMAL_PRIO < HIGH_PRIO \<and> unat (Priority_into HIGH_PRIO) < NO_PRIORITIES"
proof -
  have "Priority_from (Priority_into p) = p" for p by (cases p) (simp add: Priority_from_def)
  moreover have into: "Priority_into (Priority_from x) = x" for x by (simp add: Priority_from_def)
  ultimately show ?thesis
    by (auto simp: less_eq_Priority_def less_Priority_def abi_get_priority_def pbind_Return_iff
        LOW_PRIO_def NORMAL_PRIO_def HIGH_PRIO_def NO_PRIORITIES_def)
qed

end
