(* ===== verification/Tcp_Backends.thy ===== *)
theory Tcp_Backends
  imports Hermit_Abi
begin

text \<open>
  The two definitions of the TCP symbols that \<open>hermit-abi\<close> imports: the network stack (\<open>net/mod.rs\<close>, theory
  \<open>Tcp_Syscalls\<close>) and the stubs of \<open>dummy.rs\<close> for a build without the feature \<open>smoltcp\<close>; how the symbols of
  the crates fit together; and the contract of the socket options.
\<close>

section \<open>Stubs\<close>

definition dummy_tcp_stream_connect :: "u8 list \<Rightarrow> u16 \<Rightarrow> u64 option \<Rightarrow> ('w, (Handle, unit) result) prog" where
  "dummy_tcp_stream_connect ip port timeout = pret (Err ())"

definition dummy_tcp_stream_read :: "Handle \<Rightarrow> nat \<Rightarrow> ('w, (u8 list, unit) result) prog" where
  "dummy_tcp_stream_read handle buffer = pret (Err ())"

definition dummy_tcp_stream_write :: "Handle \<Rightarrow> u8 list \<Rightarrow> ('w, (nat, unit) result) prog" where
  "dummy_tcp_stream_write handle buffer = pret (Err ())"

definition dummy_tcp_stream_close :: "Handle \<Rightarrow> ('w, (unit, unit) result) prog" where
  "dummy_tcp_stream_close handle = pret (Err ())"

definition dummy_tcp_stream_shutdown :: "Handle \<Rightarrow> int \<Rightarrow> ('w, (unit, unit) result) prog" where
  "dummy_tcp_stream_shutdown handle how = pret (Err ())"

definition dummy_tcp_stream_set_read_timeout :: "Handle \<Rightarrow> u64 option \<Rightarrow> ('w, (unit, unit) result) prog" where
  "dummy_tcp_stream_set_read_timeout handle timeout = pret (Err ())"

definition dummy_tcp_stream_get_read_timeout :: "Handle \<Rightarrow> ('w, (u64 option, unit) result) prog" where
  "dummy_tcp_stream_get_read_timeout handle = pret (Err ())"

definition dummy_tcp_stream_set_write_timeout :: "Handle \<Rightarrow> u64 option \<Rightarrow> ('w, (unit, unit) result) prog" where
  "dummy_tcp_stream_set_write_timeout handle timeout = pret (Err ())"

definition dummy_tcp_stream_get_write_timeout :: "Handle \<Rightarrow> ('w, (u64 option, unit) result) prog" where
  "dummy_tcp_stream_get_write_timeout handle = pret (Err ())"

definition dummy_tcp_stream_duplicate :: "Handle \<Rightarrow> ('w, (Handle, unit) result) prog" where
  "dummy_tcp_stream_duplicate handle = pret (Err ())"

definition dummy_tcp_stream_peek :: "Handle \<Rightarrow> nat \<Rightarrow> ('w, (u8 list, unit) result) prog" where
  "dummy_tcp_stream_peek handle buf = pret (Err ())"

definition dummy_tcp_stream_set_nonblocking :: "Handle \<Rightarrow> bool \<Rightarrow> ('w, (unit, unit) result) prog" where
  "dummy_tcp_stream_set_nonblocking handle mode = pret (Err ())"

definition dummy_tcp_stream_set_tll :: "Handle \<Rightarrow> u32 \<Rightarrow> ('w, (unit, unit) result) prog" where
  "dummy_tcp_stream_set_tll handle ttl = pret (Err ())"

definition dummy_tcp_stream_get_tll :: "Handle \<Rightarrow> ('w, (u32, unit) result) prog" where
  "dummy_tcp_stream_get_tll handle = pret (Err ())"

text \<open>The stubs define neither \<open>sys_tcp_stream_peer_addr\<close> nor \<open>sys_tcp_listener_accept\<close>: both are parameters.\<close>

definition dummy_symbols :: "(Handle \<Rightarrow> ('w, (IpAddress \<times> u16, unit) result) prog) \<Rightarrow>
    (u16 \<Rightarrow> ('w, (Handle \<times> IpAddress \<times> u16, unit) result) prog) \<Rightarrow> 'w tcp_symbols" where
  "dummy_symbols peer_addr accept = \<lparr>
     sym_tcp_stream_connect = dummy_tcp_stream_connect,
     sym_tcp_stream_close = dummy_tcp_stream_close,
     sym_tcp_stream_read = dummy_tcp_stream_read,
     sym_tcp_stream_write = dummy_tcp_stream_write,
     sym_tcp_stream_set_read_timeout = dummy_tcp_stream_set_read_timeout,
     sym_tcp_stream_get_read_timeout = dummy_tcp_stream_get_read_timeout,
     sym_tcp_stream_set_write_timeout = dummy_tcp_stream_set_write_timeout,
     sym_tcp_stream_get_write_timeout = dummy_tcp_stream_get_write_timeout,
     sym_tcp_stream_peek = dummy_tcp_stream_peek,
     sym_tcp_stream_set_nonblocking = dummy_tcp_stream_set_nonblocking,
     sym_tcp_stream_set_tll = dummy_tcp_stream_set_tll,
     sym_tcp_stream_get_tll = dummy_tcp_stream_get_tll,
     sym_tcp_stream_shutdown = dummy_tcp_stream_shutdown,
     sym_tcp_stream_peer_addr = peer_addr,
     sym_tcp_listener_accept = accept\<rparr>"

text \<open>The network stack defines all of them.\<close>

definition net_symbols :: "('ifc, 'set, 'sock, 'dhcp) smoltcp \<Rightarrow> ('ifc, 'set, 'dhcp, 'x, 'r) hkernel \<Rightarrow>
    ('ifc, 'set, 'dhcp, 'x) world_scheme tcp_symbols" where
  "net_symbols api k = \<lparr>
     sym_tcp_stream_connect = sys_tcp_stream_connect api k,
     sym_tcp_stream_close = sys_tcp_stream_close api k,
     sym_tcp_stream_read = sys_tcp_stream_read api k,
     sym_tcp_stream_write = sys_tcp_stream_write api k,
     sym_tcp_stream_set_read_timeout = sys_tcp_stream_set_read_timeout,
     sym_tcp_stream_get_read_timeout = sys_tcp_stream_get_read_timeout,
     sym_tcp_stream_set_write_timeout = sys_tcp_stream_set_write_timeout,
     sym_tcp_stream_get_write_timeout = sys_tcp_stream_get_write_timeout,
     sym_tcp_stream_peek = sys_tcp_stream_peek,
     sym_tcp_stream_set_nonblocking = sys_tcp_stream_set_nonblocking,
     sym_tcp_stream_set_tll = sys_tcp_stream_set_tll,
     sym_tcp_stream_get_tll = sys_tcp_stream_get_tll,
     sym_tcp_stream_shutdown = sys_tcp_stream_shutdown api k,
     sym_tcp_stream_peer_addr = sys_tcp_stream_peer_addr api,
     sym_tcp_listener_accept = sys_tcp_listener_accept api k\<rparr>"

section \<open>Signatures\<close>

text \<open>
  The types that occur in the signatures of the symbols; \<open>Tid\<close> is written out as \<open>u32\<close>. \<open>Handle\<close> and \<open>IpAddress\<close> are declared anew in every
  crate, so the tables take them as arguments.
\<close>

datatype rty = RUnit | RNever | RVoid | RBool | RU8 | RU16 | RU32 | RU64 | RUsize | RI8 | RI32 | RI64 | RIsize | RFn
  | RNamed string | RNewtype rty | RArray rty nat | RSlice rty | RMutSlice rty | RConstPtr rty | RMutPtr rty
  | ROption rty | RResult rty rty | RTuple "rty list" | REnum "(string \<times> rty list) list"

record signature =
  sig_name :: string
  sig_params :: "rty list"
  sig_ret :: rty

definition sig :: "string \<Rightarrow> rty list \<Rightarrow> rty \<Rightarrow> signature" where
  "sig n ps r = \<lparr>sig_name = n, sig_params = ps, sig_ret = r\<rparr>"

definition abi_Handle :: rty where
  "abi_Handle = RNewtype RUsize"

definition abi_IpAddress :: rty where
  "abi_IpAddress = REnum [(''Unspecified'', []), (''Ipv4'', [RNewtype (RArray RU8 4)]), (''Ipv6'', [RNewtype (RArray RU8 16)])]"

definition dummy_Handle :: rty where
  "dummy_Handle = RNewtype RUsize"

definition abi_kernel_externs :: "signature list" where
  "abi_kernel_externs = [
   sig ''sys_secure_rand64'' [] (ROption RU64),
   sig ''sys_secure_rand32'' [] (ROption RU32),
   sig ''sys_rand'' [] RU32,
   sig ''sys_srand'' [RU32] RUnit,
   sig ''sys_get_processor_count'' [] RUsize,
   sig ''sys_malloc'' [RUsize, RUsize] (RMutPtr RU8),
   sig ''sys_realloc'' [RMutPtr RU8, RUsize, RUsize, RUsize] (RMutPtr RU8),
   sig ''sys_free'' [RMutPtr RU8, RUsize, RUsize] RUnit,
   sig ''sys_init_queue'' [RUsize] RI32,
   sig ''sys_notify'' [RUsize, RI32] RI32,
   sig ''sys_add_queue'' [RUsize, RI64] RI32,
   sig ''sys_wait'' [RUsize] RI32,
   sig ''sys_destroy_queue'' [RUsize] RI32,
   sig ''sys_read'' [RI32, RMutPtr RU8, RUsize] RIsize,
   sig ''sys_write'' [RI32, RConstPtr RU8, RUsize] RIsize,
   sig ''sys_close'' [RI32] RI32,
   sig ''sys_sem_init'' [RMutPtr (RConstPtr RVoid), RU32] RI32,
   sig ''sys_sem_destroy'' [RConstPtr RVoid] RI32,
   sig ''sys_sem_post'' [RConstPtr RVoid] RI32,
   sig ''sys_sem_trywait'' [RConstPtr RVoid] RI32,
   sig ''sys_sem_timedwait'' [RConstPtr RVoid, RU32] RI32,
   sig ''sys_recmutex_init'' [RMutPtr (RConstPtr RVoid)] RI32,
   sig ''sys_recmutex_destroy'' [RConstPtr RVoid] RI32,
   sig ''sys_recmutex_lock'' [RConstPtr RVoid] RI32,
   sig ''sys_recmutex_unlock'' [RConstPtr RVoid] RI32,
   sig ''sys_getpid'' [] RU32,
   sig ''sys_exit'' [RI32] RNever,
   sig ''sys_abort'' [] RNever,
   sig ''sys_usleep'' [RU64] RUnit,
   sig ''sys_spawn'' [RMutPtr RU32, RFn, RUsize, RU8, RIsize] RI32,
   sig ''sys_spawn2'' [RFn, RUsize, RU8, RUsize, RIsize] RU32,
   sig ''sys_join'' [RU32] RI32,
   sig ''sys_yield'' [] RUnit,
   sig ''sys_clock_gettime'' [RU64, RMutPtr (RNamed ''timespec'')] RI32,
   sig ''sys_open'' [RConstPtr RI8, RI32, RI32] RI32,
   sig ''sys_unlink'' [RConstPtr RI8] RI32,
   sig ''sys_network_init'' [] RI32,
   sig ''sys_block_current_task'' [] RUnit,
   sig ''sys_wakeup_task'' [RU32] RUnit,
   sig ''sys_get_priority'' [] RU8]"

text \<open>The \<open>extern\<close> blocks of \<open>net/mod.rs\<close> and \<open>net/executor.rs\<close>.\<close>

definition net_kernel_externs :: "signature list" where
  "net_kernel_externs = [
   sig ''sys_yield'' [] RUnit,
   sig ''sys_spawn'' [RMutPtr RU32, RFn, RUsize, RU8, RIsize] RI32,
   sig ''sys_netwait'' [] RUnit]"

definition executor_kernel_externs :: "signature list" where
  "executor_kernel_externs = [
   sig ''sys_getpid'' [] RU32,
   sig ''sys_yield'' [] RUnit,
   sig ''sys_wakeup_task'' [RU32] RUnit,
   sig ''sys_set_network_polling_mode'' [RBool] RUnit,
   sig ''sys_block_current_task_with_timeout'' [RU64] RUnit,
   sig ''sys_block_current_task'' [] RUnit]"

definition tcpstream_externs :: "rty \<Rightarrow> rty \<Rightarrow> signature list" where
  "tcpstream_externs handle ip = [
   sig ''sys_tcp_stream_connect'' [RSlice RU8, RU16, ROption RU64] (RResult handle RUnit),
   sig ''sys_tcp_stream_close'' [handle] (RResult RUnit RUnit),
   sig ''sys_tcp_stream_read'' [handle, RMutSlice RU8] (RResult RUsize RUnit),
   sig ''sys_tcp_stream_write'' [handle, RSlice RU8] (RResult RUsize RUnit),
   sig ''sys_tcp_stream_set_read_timeout'' [handle, ROption RU64] (RResult RUnit RUnit),
   sig ''sys_tcp_stream_get_read_timeout'' [handle] (RResult (ROption RU64) RUnit),
   sig ''sys_tcp_stream_set_write_timeout'' [handle, ROption RU64] (RResult RUnit RUnit),
   sig ''sys_tcp_stream_get_write_timeout'' [handle] (RResult (ROption RU64) RUnit),
   sig ''sys_tcp_stream_peek'' [handle, RMutSlice RU8] (RResult RUsize RUnit),
   sig ''sys_tcp_stream_set_nonblocking'' [handle, RBool] (RResult RUnit RUnit),
   sig ''sys_tcp_stream_set_tll'' [handle, RU32] (RResult RUnit RUnit),
   sig ''sys_tcp_stream_get_tll'' [handle] (RResult RU32 RUnit),
   sig ''sys_tcp_stream_shutdown'' [handle, RI32] (RResult RUnit RUnit),
   sig ''sys_tcp_stream_peer_addr'' [handle] (RResult (RTuple [ip, RU16]) RUnit)]"

definition tcplistener_externs :: "rty \<Rightarrow> rty \<Rightarrow> signature list" where
  "tcplistener_externs handle ip = [
   sig ''sys_tcp_listener_accept'' [RU16] (RResult (RTuple [handle, ip, RU16]) RUnit)]"

definition net_exports :: "rty \<Rightarrow> rty \<Rightarrow> signature list" where
  "net_exports handle ip = [
   sig ''sys_tcp_stream_connect'' [RSlice RU8, RU16, ROption RU64] (RResult handle RUnit),
   sig ''sys_tcp_stream_read'' [handle, RMutSlice RU8] (RResult RUsize RUnit),
   sig ''sys_tcp_stream_write'' [handle, RSlice RU8] (RResult RUsize RUnit),
   sig ''sys_tcp_stream_close'' [handle] (RResult RUnit RUnit),
   sig ''sys_tcp_stream_shutdown'' [handle, RI32] (RResult RUnit RUnit),
   sig ''sys_tcp_stream_set_read_timeout'' [handle, ROption RU64] (RResult RUnit RUnit),
   sig ''sys_tcp_stream_get_read_timeout'' [handle] (RResult (ROption RU64) RUnit),
   sig ''sys_tcp_stream_set_write_timeout'' [handle, ROption RU64] (RResult RUnit RUnit),
   sig ''sys_tcp_stream_get_write_timeout'' [handle] (RResult (ROption RU64) RUnit),
   sig ''sys_tcp_stream_duplicate'' [handle] (RResult handle RUnit),
   sig ''sys_tcp_stream_peek'' [handle, RMutSlice RU8] (RResult RUsize RUnit),
   sig ''sys_tcp_stream_set_nonblocking'' [handle, RBool] (RResult RUnit RUnit),
   sig ''sys_tcp_stream_set_tll'' [handle, RU32] (RResult RUnit RUnit),
   sig ''sys_tcp_stream_get_tll'' [handle] (RResult RU32 RUnit),
   sig ''sys_tcp_stream_peer_addr'' [handle] (RResult (RTuple [ip, RU16]) RUnit),
   sig ''sys_tcp_listener_accept'' [RU16] (RResult (RTuple [handle, ip, RU16]) RUnit)]"

definition dummy_exports :: "rty \<Rightarrow> signature list" where
  "dummy_exports handle = [
   sig ''sys_tcp_stream_connect'' [RSlice RU8, RU16, ROption RU64] (RResult handle RUnit),
   sig ''sys_tcp_stream_read'' [handle, RMutSlice RU8] (RResult RUsize RUnit),
   sig ''sys_tcp_stream_write'' [handle, RSlice RU8] (RResult RUsize RUnit),
   sig ''sys_tcp_stream_close'' [handle] (RResult RUnit RUnit),
   sig ''sys_tcp_stream_shutdown'' [handle, RI32] (RResult RUnit RUnit),
   sig ''sys_tcp_stream_set_read_timeout'' [handle, ROption RU64] (RResult RUnit RUnit),
   sig ''sys_tcp_stream_get_read_timeout'' [handle] (RResult (ROption RU64) RUnit),
   sig ''sys_tcp_stream_set_write_timeout'' [handle, ROption RU64] (RResult RUnit RUnit),
   sig ''sys_tcp_stream_get_write_timeout'' [handle] (RResult (ROption RU64) RUnit),
   sig ''sys_tcp_stream_duplicate'' [handle] (RResult handle RUnit),
   sig ''sys_tcp_stream_peek'' [handle, RMutSlice RU8] (RResult RUsize RUnit),
   sig ''sys_tcp_stream_set_nonblocking'' [handle, RBool] (RResult RUnit RUnit),
   sig ''sys_tcp_stream_set_tll'' [handle, RU32] (RResult RUnit RUnit),
   sig ''sys_tcp_stream_get_tll'' [handle] (RResult RU32 RUnit)]"

definition abi_tcp_externs :: "signature list" where
  "abi_tcp_externs = tcpstream_externs abi_Handle abi_IpAddress @ tcplistener_externs abi_Handle abi_IpAddress"

text \<open>
  Linking: every imported symbol needs a definition; its use is sound if that definition has the signature
  of the import.
\<close>

definition unresolved :: "signature list \<Rightarrow> signature list \<Rightarrow> string list" where
  "unresolved imports exports = filter (\<lambda>n. n \<notin> set (map sig_name exports)) (map sig_name imports)"

definition agree :: "signature list \<Rightarrow> signature list \<Rightarrow> bool" where
  "agree imports exports \<longleftrightarrow> list_all (\<lambda>s. list_all (\<lambda>t. sig_name s = sig_name t \<longrightarrow> s = t) exports) imports"

lemmas signature_tables = abi_tcp_externs_def tcpstream_externs_def tcplistener_externs_def net_exports_def
  dummy_exports_def abi_kernel_externs_def net_kernel_externs_def executor_kernel_externs_def

section \<open>The contract of a socket option\<close>

text \<open>
  An option has a setter and a getter. A setter that succeeds has taken effect, one that fails has changed
  nothing, and reading changes nothing.
\<close>

locale socket_option =
  fixes set_opt :: "Handle \<Rightarrow> 'v \<Rightarrow> ('w, (unit, unit) result) prog"
    and get_opt :: "Handle \<Rightarrow> ('w, ('v, unit) result) prog"
  assumes set_get: "set_opt h v w = Some (Return (Ok ()), w') \<Longrightarrow> get_opt h w' = Some (Return (Ok v), w')"
    and set_err: "set_opt h v w = Some (Return (Err ()), w') \<Longrightarrow> w' = w"
    and get_frame: "get_opt h w = Some (Return r, w') \<Longrightarrow> w' = w"
    and set_returns: "\<exists>r w'. set_opt h v w = Some (Return r, w')"
begin

text \<open>A program that sets an option and reads it back is told its value, or the error with nothing changed.\<close>

lemma set_then_get:
  "\<exists>r w'. pbind (set_opt h v) (\<lambda>r. case r of Ok _ \<Rightarrow> get_opt h | Err e \<Rightarrow> pret (Err e)) w = Some (Return r, w') \<and>
     (r = Ok v \<or> r = Err () \<and> w' = w)"
proof -
  obtain r w' where set: "set_opt h v w = Some (Return r, w')" using set_returns by blast
  show ?thesis
  proof (cases r)
    case (Ok u)
    with set have "get_opt h w' = Some (Return (Ok v), w')" by (simp add: set_get)
    with set Ok show ?thesis by simp
  next
    case (Err e)
    with set have "w' = w" by (simp add: set_err)
    with set Err show ?thesis by simp
  qed
qed

end

interpretation nodelay: socket_option tcpstream_set_nodelay tcpstream_nodelay
  by unfold_locales (auto simp: tcpstream_set_nodelay_def tcpstream_nodelay_def split: if_splits)

lemmas net_option_defs = net_symbols_def tcpstream_set_read_timeout_def tcpstream_get_read_timeout_def
  tcpstream_set_write_timeout_def tcpstream_get_write_timeout_def tcpstream_set_tll_def tcpstream_get_tll_def
  tcpstream_set_nonblocking_def tcpstream_peek_def
  sys_tcp_stream_set_read_timeout_def sys_tcp_stream_get_read_timeout_def sys_tcp_stream_set_write_timeout_def
  sys_tcp_stream_get_write_timeout_def sys_tcp_stream_set_tll_def sys_tcp_stream_get_tll_def
  sys_tcp_stream_set_nonblocking_def sys_tcp_stream_peek_def

interpretation net_read_timeout: socket_option "tcpstream_set_read_timeout (net_symbols api k)"
    "tcpstream_get_read_timeout (net_symbols api k)"
  by unfold_locales (auto simp: net_option_defs)

interpretation net_write_timeout: socket_option "tcpstream_set_write_timeout (net_symbols api k)"
    "tcpstream_get_write_timeout (net_symbols api k)"
  by unfold_locales (auto simp: net_option_defs)

interpretation net_ttl: socket_option "tcpstream_set_tll (net_symbols api k)" "tcpstream_get_tll (net_symbols api k)"
  by unfold_locales (auto simp: net_option_defs)

lemmas dummy_defs = dummy_symbols_def dummy_tcp_stream_connect_def dummy_tcp_stream_read_def dummy_tcp_stream_write_def
  dummy_tcp_stream_close_def dummy_tcp_stream_shutdown_def dummy_tcp_stream_set_read_timeout_def
  dummy_tcp_stream_get_read_timeout_def dummy_tcp_stream_set_write_timeout_def dummy_tcp_stream_get_write_timeout_def
  dummy_tcp_stream_peek_def dummy_tcp_stream_set_nonblocking_def dummy_tcp_stream_set_tll_def dummy_tcp_stream_get_tll_def

interpretation dummy_ttl: socket_option "tcpstream_set_tll (dummy_symbols peer acc)" "tcpstream_get_tll (dummy_symbols peer acc)"
  by unfold_locales (auto simp: dummy_defs tcpstream_set_tll_def tcpstream_get_tll_def)

section \<open>Properties\<close>

lemma net_resolved: "unresolved abi_tcp_externs (net_exports handle ip) = []"
  by (simp add: unresolved_def signature_tables sig_def)

lemma net_agree: "agree abi_tcp_externs (net_exports handle ip) \<longleftrightarrow> handle = abi_Handle \<and> ip = abi_IpAddress"
  by (auto simp: agree_def signature_tables sig_def)

lemma net_distinct: "distinct (map sig_name (net_exports handle ip))"
  by (simp add: signature_tables sig_def)

lemma kernel_agree:
  "agree net_kernel_externs abi_kernel_externs" "agree executor_kernel_externs abi_kernel_externs"
  "agree net_kernel_externs executor_kernel_externs"
  by (simp_all add: agree_def signature_tables sig_def)

text \<open>
  without the feature \<open>smoltcp\<close> two of the imported symbols have no definition, so that a program that
  uses them does not link; every call of \<open>hermit-abi\<close> that is defined returns the error and changes nothing.
\<close>

theorem dummy_backend_incomplete:
  "unresolved abi_tcp_externs (dummy_exports dummy_Handle)
     = [''sys_tcp_stream_peer_addr'', ''sys_tcp_listener_accept''] \<and>
   agree abi_tcp_externs (dummy_exports dummy_Handle) \<and>
   tcpstream_connect (dummy_symbols peer acc) addr port timeout w = Some (Return (Err ()), w) \<and>
   tcpstream_read (dummy_symbols peer acc) h n w = Some (Return (Err ()), w) \<and>
   tcpstream_write (dummy_symbols peer acc) h bs w = Some (Return (Err ()), w) \<and>
   tcpstream_close (dummy_symbols peer acc) h w = Some (Return (Err ()), w) \<and>
   tcpstream_shutdown (dummy_symbols peer acc) h how w = Some (Return (Err ()), w)"
proof -
  have "unresolved abi_tcp_externs (dummy_exports dummy_Handle)
      = [''sys_tcp_stream_peer_addr'', ''sys_tcp_listener_accept'']"
    by (simp add: unresolved_def signature_tables sig_def)
  moreover have "agree abi_tcp_externs (dummy_exports dummy_Handle)"
    by (simp add: agree_def signature_tables sig_def abi_Handle_def dummy_Handle_def)
  ultimately show ?thesis
    by (simp add: dummy_defs tcpstream_connect_def tcpstream_read_def tcpstream_write_def tcpstream_close_def
        tcpstream_shutdown_def)
qed

text \<open>
  the contract of the socket options, through \<open>hermit-abi\<close> on the network stack: a program that sets the
  Nagle option, a timeout or the time to live and reads it back gets the value it set, or the error with the
  state unchanged. Only the Nagle option can be set, and only to "off".
\<close>

theorem socket_options_contract:
  "(\<exists>r w'. pbind (tcpstream_set_nodelay h b) (\<lambda>r. case r of Ok _ \<Rightarrow> tcpstream_nodelay h | Err e \<Rightarrow> pret (Err e)) w
      = Some (Return r, w') \<and> (r = Ok b \<or> r = Err () \<and> w' = w)) \<and>
   (\<exists>r w'. pbind (tcpstream_set_tll (net_symbols api k) h ttl)
        (\<lambda>r. case r of Ok _ \<Rightarrow> tcpstream_get_tll (net_symbols api k) h | Err e \<Rightarrow> pret (Err e)) w
      = Some (Return r, w') \<and> (r = Ok ttl \<or> r = Err () \<and> w' = w)) \<and>
   (\<exists>r w'. pbind (tcpstream_set_read_timeout (net_symbols api k) h tmo)
        (\<lambda>r. case r of Ok _ \<Rightarrow> tcpstream_get_read_timeout (net_symbols api k) h | Err e \<Rightarrow> pret (Err e)) w
      = Some (Return r, w') \<and> (r = Ok tmo \<or> r = Err () \<and> w' = w)) \<and>
   (tcpstream_set_nodelay h b w = Some (Return (Ok ()), w) \<longleftrightarrow> b) \<and>
   (\<forall>w'. tcpstream_set_tll (net_symbols api k) h ttl w \<noteq> Some (Return (Ok ()), w')) \<and>
   (\<forall>w'. tcpstream_set_nonblocking (net_symbols api k) h b w \<noteq> Some (Return (Ok ()), w'))"
  using nodelay.set_then_get [of h b w] net_ttl.set_then_get [of api k h ttl w]
    net_read_timeout.set_then_get [of api k h tmo w]
  by (simp add: net_option_defs tcpstream_set_nodelay_def)

end
