(* ===== verification/Park_Protocol.thy ===== *)
theory Park_Protocol
  imports Executor
begin

text \<open>
  The interleavings of a thread that waits in \<open>block_on\<close> with a waker that runs concurrently
  (\<open>hermit-sys/src/net/executor.rs\<close>). The sequential model of the theory \<open>Executor\<close> runs the kernel
  calls to completion; here each access to the shared flag \<open>unparked\<close> and each kernel call is a step of
  its own. The scheduler state of the waiting task and the calls \<open>sys_block_current_task\<close> and
  \<open>sys_wakeup_task\<close> belong to the kernel and are parameters (\<open>kblock\<close>, \<open>kwake\<close>, \<open>asleep\<close>). The model
  is of the branch without a timer (\<open>delay\<close> is \<open>None\<close>); the loop also may find a short delay and only
  run the executor.

  The comment on the flag says that it ensures that a wake-up is not forgotten before the next
  \<open>block_current_task\<close>. The theorems say what that needs of the kernel: if a wake-up of a running task
  is remembered by its next block, none is lost; if it is not, one can be lost for good.
\<close>

section \<open>Steps\<close>

text \<open>Where the waiting thread is in the loop of \<open>block_on\<close>, and the waker in \<open>wake_by_ref\<close>.\<close>

datatype thread_pc =
    AtPoll \<comment> \<open>\<open>future.poll\<close>\<close>
  | AtSwap \<comment> \<open>\<open>unparked.swap(false)\<close>\<close>
  | AtBlock \<comment> \<open>\<open>sys_block_current_task\<close>\<close>
  | AtYield \<comment> \<open>in \<open>sys_yield\<close>\<close>
  | AtStore \<comment> \<open>\<open>unparked.store(false)\<close>\<close>
  | AtRun \<comment> \<open>\<open>run_executor\<close>\<close>
  | Finished

datatype waker_pc =
    WIdle
  | WSwap \<comment> \<open>\<open>unparked.swap(true)\<close>\<close>
  | WSys \<comment> \<open>\<open>sys_wakeup_task\<close>\<close>

record 'k park_state =
  thread_at :: thread_pc
  waker_at :: waker_pc
  flag :: bool \<comment> \<open>\<open>ThreadNotify::unparked\<close>\<close>
  fut_ready :: bool \<comment> \<open>whether the next poll of the future returns \<open>Ready\<close>\<close>
  task :: 'k \<comment> \<open>the scheduler's state of the waiting task\<close>

inductive park_step :: "('k \<Rightarrow> 'k) \<Rightarrow> ('k \<Rightarrow> 'k) \<Rightarrow> ('k \<Rightarrow> bool) \<Rightarrow>
    'k park_state \<Rightarrow> 'k park_state \<Rightarrow> bool"
  for kblock kwake :: "'k \<Rightarrow> 'k" and asleep :: "'k \<Rightarrow> bool" where
  poll_ready: "thread_at s = AtPoll \<Longrightarrow> fut_ready s \<Longrightarrow>
    park_step kblock kwake asleep s (s\<lparr>thread_at := Finished\<rparr>)"
| poll_pending: "thread_at s = AtPoll \<Longrightarrow> \<not> fut_ready s \<Longrightarrow>
    park_step kblock kwake asleep s (s\<lparr>thread_at := AtSwap\<rparr>)"
| short_delay: "thread_at s = AtPoll \<Longrightarrow> \<not> fut_ready s \<Longrightarrow>
    park_step kblock kwake asleep s (s\<lparr>thread_at := AtRun\<rparr>)"
| swap_set: "thread_at s = AtSwap \<Longrightarrow> flag s \<Longrightarrow>
    park_step kblock kwake asleep s (s\<lparr>thread_at := AtPoll, flag := False\<rparr>)"
| swap_clear: "thread_at s = AtSwap \<Longrightarrow> \<not> flag s \<Longrightarrow>
    park_step kblock kwake asleep s (s\<lparr>thread_at := AtBlock, flag := False\<rparr>)"
| block: "thread_at s = AtBlock \<Longrightarrow>
    park_step kblock kwake asleep s (s\<lparr>thread_at := AtYield, task := kblock (task s)\<rparr>)"
| resume: "thread_at s = AtYield \<Longrightarrow> \<not> asleep (task s) \<Longrightarrow>
    park_step kblock kwake asleep s (s\<lparr>thread_at := AtStore\<rparr>)"
| store: "thread_at s = AtStore \<Longrightarrow>
    park_step kblock kwake asleep s (s\<lparr>thread_at := AtRun, flag := False\<rparr>)"
| run: "thread_at s = AtRun \<Longrightarrow>
    park_step kblock kwake asleep s (s\<lparr>thread_at := AtPoll\<rparr>)"
| event: "waker_at s = WIdle \<Longrightarrow>
    park_step kblock kwake asleep s (s\<lparr>fut_ready := True, waker_at := WSwap\<rparr>)"
| spurious: "waker_at s = WIdle \<Longrightarrow>
    park_step kblock kwake asleep s (s\<lparr>waker_at := WSwap\<rparr>)"
| wake_clear: "waker_at s = WSwap \<Longrightarrow> \<not> flag s \<Longrightarrow>
    park_step kblock kwake asleep s (s\<lparr>flag := True, waker_at := WSys\<rparr>)"
| wake_set: "waker_at s = WSwap \<Longrightarrow> flag s \<Longrightarrow>
    park_step kblock kwake asleep s (s\<lparr>flag := True, waker_at := WIdle\<rparr>)"
| wake_sys: "waker_at s = WSys \<Longrightarrow>
    park_step kblock kwake asleep s (s\<lparr>task := kwake (task s), waker_at := WIdle\<rparr>)"

definition park_start :: "'k \<Rightarrow> 'k park_state" where
  "park_start k = \<lparr>thread_at = AtPoll, waker_at = WIdle, flag = False, fut_ready = False, task = k\<rparr>"

abbreviation park_reach :: "('k \<Rightarrow> 'k) \<Rightarrow> ('k \<Rightarrow> 'k) \<Rightarrow> ('k \<Rightarrow> bool) \<Rightarrow>
    'k park_state \<Rightarrow> 'k park_state \<Rightarrow> bool" where
  "park_reach kblock kwake asleep \<equiv> (park_step kblock kwake asleep)\<^sup>*\<^sup>*"

section \<open>A kernel that remembers wake-ups\<close>

text \<open>
  What the protocol relies on: a wake-up ends the sleep of a task, and a wake-up that reaches a running
  task makes its next block return at once.
\<close>

definition remembers_wakeup :: "('k \<Rightarrow> 'k) \<Rightarrow> ('k \<Rightarrow> 'k) \<Rightarrow> ('k \<Rightarrow> bool) \<Rightarrow> bool" where
  "remembers_wakeup kblock kwake asleep \<longleftrightarrow>
     (\<forall>k. \<not> asleep (kwake k)) \<and> (\<forall>k. \<not> asleep k \<longrightarrow> \<not> asleep (kblock (kwake k)))"

definition park_inv :: "('k \<Rightarrow> 'k) \<Rightarrow> ('k \<Rightarrow> bool) \<Rightarrow> 'k park_state \<Rightarrow> bool" where
  "park_inv kblock asleep s \<longleftrightarrow>
     (thread_at s \<noteq> AtYield \<longrightarrow> \<not> asleep (task s)) \<and>
     (thread_at s \<in> {AtSwap, AtBlock} \<and> fut_ready s \<longrightarrow> flag s \<or> waker_at s = WSwap) \<and>
     (thread_at s = AtBlock \<and> flag s \<longrightarrow> waker_at s = WSys \<or> \<not> asleep (kblock (task s))) \<and>
     (thread_at s = AtYield \<and> asleep (task s) \<longrightarrow>
        (flag s \<longrightarrow> waker_at s = WSys) \<and> (fut_ready s \<longrightarrow> flag s \<or> waker_at s = WSwap))"

lemma park_inv_start: "\<not> asleep k \<Longrightarrow> park_inv kblock asleep (park_start k)"
  by (simp add: park_inv_def park_start_def)

lemma park_inv_step:
  assumes "park_step kblock kwake asleep s s'" and "remembers_wakeup kblock kwake asleep"
    and "park_inv kblock asleep s"
  shows "park_inv kblock asleep s'"
  using assms by (induction rule: park_step.induct) (auto simp: park_inv_def remembers_wakeup_def)

lemma park_inv_reach:
  assumes "park_reach kblock kwake asleep s s'" and "remembers_wakeup kblock kwake asleep"
    and "park_inv kblock asleep s"
  shows "park_inv kblock asleep s'"
  using assms by (induction rule: rtranclp_induct) (auto intro: park_inv_step)

text \<open>The state of no return: asleep, the flag set, and no wake-up call on its way.\<close>

definition lost :: "('k \<Rightarrow> bool) \<Rightarrow> 'k park_state \<Rightarrow> bool" where
  "lost asleep s \<longleftrightarrow> thread_at s = AtYield \<and> asleep (task s) \<and> flag s \<and> waker_at s \<noteq> WSys"

lemma lost_step:
  "park_step kblock kwake asleep s s' \<Longrightarrow> lost asleep s \<Longrightarrow> lost asleep s'"
  by (induction rule: park_step.induct) (auto simp: lost_def)

lemma lost_forever:
  "park_reach kblock kwake asleep s s' \<Longrightarrow> lost asleep s \<Longrightarrow> lost asleep s'"
  by (induction rule: rtranclp_induct) (auto intro: lost_step)

section \<open>Two runs\<close>

lemma before_block_reachable:
  "park_reach kblock kwake asleep (park_start k)
     \<lparr>thread_at = AtBlock, waker_at = WIdle, flag = False, fut_ready = False, task = k\<rparr>"
proof -
  let ?s = "\<lparr>thread_at = AtSwap, waker_at = WIdle, flag = False, fut_ready = False, task = k\<rparr>"
  have "park_step kblock kwake asleep (park_start k) ?s"
    using park_step.poll_pending [of "park_start k" kblock kwake asleep] by (simp add: park_start_def)
  moreover have "park_step kblock kwake asleep ?s
      \<lparr>thread_at = AtBlock, waker_at = WIdle, flag = False, fut_ready = False, task = k\<rparr>"
    using park_step.swap_clear [of ?s kblock kwake asleep] by simp
  ultimately show ?thesis by simp
qed

lemma sleep_reachable:
  "park_reach kblock kwake asleep (park_start k)
     \<lparr>thread_at = AtYield, waker_at = WIdle, flag = False, fut_ready = False, task = kblock k\<rparr>"
  using before_block_reachable [of kblock kwake asleep k]
    park_step.block [of "\<lparr>thread_at = AtBlock, waker_at = WIdle, flag = False, fut_ready = False,
      task = k\<rparr>" kblock kwake asleep]
  by (simp add: rtranclp.rtrancl_into_rtrancl)

text \<open>The waker runs between the swap and the block of the thread.\<close>

lemma race_reachable:
  "park_reach kblock kwake asleep (park_start k)
     \<lparr>thread_at = AtYield, waker_at = WIdle, flag = True, fut_ready = True, task = kblock (kwake k)\<rparr>"
proof -
  let ?s = "\<lambda>pc wpc fl rd t. \<lparr>thread_at = pc, waker_at = wpc, flag = fl, fut_ready = rd, task = t\<rparr>"
  let ?step = "park_step kblock kwake asleep"
  have "?step (?s AtBlock WIdle False False k) (?s AtBlock WSwap False True k)"
    using park_step.event [of "?s AtBlock WIdle False False k" kblock kwake asleep] by simp
  moreover have "?step (?s AtBlock WSwap False True k) (?s AtBlock WSys True True k)"
    using park_step.wake_clear [of "?s AtBlock WSwap False True k" kblock kwake asleep] by simp
  moreover have "?step (?s AtBlock WSys True True k) (?s AtBlock WIdle True True (kwake k))"
    using park_step.wake_sys [of "?s AtBlock WSys True True k" kblock kwake asleep] by simp
  moreover have "?step (?s AtBlock WIdle True True (kwake k)) (?s AtYield WIdle True True (kblock (kwake k)))"
    using park_step.block [of "?s AtBlock WIdle True True (kwake k)" kblock kwake asleep] by simp
  ultimately show ?thesis
    using before_block_reachable [of kblock kwake asleep k] by (simp add: rtranclp.rtrancl_into_rtrancl)
qed

section \<open>Properties\<close>

text \<open>
  C6: with a kernel that remembers wake-ups, no interleaving loses one: whenever the thread sleeps
  although its future could be completed, the waker is on its way, about to set the clear flag or about
  to call \<open>sys_wakeup_task\<close>.
\<close>
theorem no_lost_wakeup:
  assumes "remembers_wakeup kblock kwake asleep" and "\<not> asleep k"
    and "park_reach kblock kwake asleep (park_start k) s"
    and "thread_at s = AtYield" and "asleep (task s)" and "fut_ready s"
  shows "waker_at s = WSys \<or> (waker_at s = WSwap \<and> \<not> flag s)"
  using park_inv_reach [OF assms(3,1) park_inv_start [of asleep k, OF assms(2)]] assms(4-6)
  by (auto simp: park_inv_def)

text \<open>A kernel that remembers wake-ups: a running task, a running task with a token, a sleeping task.\<close>

datatype token_task = Running | Token | Sleeping

fun token_block :: "token_task \<Rightarrow> token_task" where
  "token_block Running = Sleeping"
| "token_block Token = Running"
| "token_block Sleeping = Sleeping"

fun token_wake :: "token_task \<Rightarrow> token_task" where
  "token_wake Running = Token"
| "token_wake Token = Token"
| "token_wake Sleeping = Running"

lemma token_remembers: "remembers_wakeup token_block token_wake (\<lambda>t. t = Sleeping)"
  unfolding remembers_wakeup_def
proof (intro conjI allI impI)
  fix t show "token_wake t \<noteq> Sleeping" by (cases t) simp_all
next
  fix t assume "t \<noteq> Sleeping" then show "token_block (token_wake t) \<noteq> Sleeping" by (cases t) simp_all
qed

lemma token_sleeps:
  "park_reach token_block token_wake (\<lambda>t. t = Sleeping) (park_start Running)
     \<lparr>thread_at = AtYield, waker_at = WSwap, flag = False, fut_ready = True, task = Sleeping\<rparr>"
  using sleep_reachable [of token_block token_wake "\<lambda>t. t = Sleeping" Running]
    park_step.event [of "\<lparr>thread_at = AtYield, waker_at = WIdle, flag = False, fut_ready = False,
      task = Sleeping\<rparr>" token_block token_wake "\<lambda>t. t = Sleeping"]
  by (simp add: rtranclp.rtrancl_into_rtrancl)

theorem no_lost_wakeup_witness:
  "waker_at \<lparr>thread_at = AtYield, waker_at = WSwap, flag = False, fut_ready = True, task = Sleeping\<rparr> = WSwap
   \<and> park_reach token_block token_wake (\<lambda>t. t = Sleeping) (park_start Running)
     \<lparr>thread_at = AtYield, waker_at = WSwap, flag = False, fut_ready = True, task = Sleeping\<rparr>"
  using no_lost_wakeup [OF token_remembers _ token_sleeps] token_sleeps by simp

text \<open>
  C39: with a kernel whose block always puts the caller to sleep, a wake-up can be lost for good. A
  reachable state exists in which the future could be completed, the thread sleeps, and in every state
  that can follow, whatever further wake-ups happen, it still sleeps: the flag stays set, so
  \<open>wake_by_ref\<close> never calls \<open>sys_wakeup_task\<close> again.
\<close>
theorem wakeup_lost_forever:
  assumes "\<And>k. asleep (kblock k)"
  shows "\<exists>s. park_reach kblock kwake asleep (park_start k) s \<and> fut_ready s \<and>
    (\<forall>s'. park_reach kblock kwake asleep s s' \<longrightarrow> thread_at s' = AtYield \<and> asleep (task s'))"
proof (intro exI conjI allI impI)
  let ?s = "\<lparr>thread_at = AtYield, waker_at = WIdle, flag = True, fut_ready = True,
    task = kblock (kwake k)\<rparr>"
  show "park_reach kblock kwake asleep (park_start k) ?s" by (rule race_reachable)
  show "fut_ready ?s" by simp
  fix s' assume "park_reach kblock kwake asleep ?s s'"
  then have "lost asleep s'" by (rule lost_forever) (simp add: lost_def assms)
  then show "thread_at s' = AtYield" and "asleep (task s')" by (simp_all add: lost_def)
qed

theorem wakeup_lost_forever_witness:
  "\<exists>s. park_reach (\<lambda>_. True) (\<lambda>_. False) (\<lambda>b. b) (park_start False) s \<and> fut_ready s \<and>
    (\<forall>s'. park_reach (\<lambda>_. True) (\<lambda>_. False) (\<lambda>b. b) s s' \<longrightarrow> thread_at s' = AtYield)"
  using wakeup_lost_forever [of "\<lambda>b. b" "\<lambda>_. True" "\<lambda>_. False" False] by fast

end
