(* ===== verification/Morton_Order.thy ===== *)
theory Morton_Order
  imports Prelude
begin

unbundle bit_operations_syntax

text \<open>
  Index arithmetic of the Z-order (Morton) layout in \<open>examples/demo/src/tests/matmul.rs\<close>: the iterator
  \<open>SplayedBitsCounter\<close> and the bit masks. An index of type \<open>usize\<close> (64 bits) is a natural number: none
  of the operations below can pass \<open>2 ^ 64\<close>, since the iterator only sets the low 32 bits before it
  adds one. \<open>spread\<close> and \<open>zindex\<close> are the specification: the bits of a number moved to the even
  positions, and the position of an element of a matrix.
\<close>

section \<open>The counter\<close>

record SplayedBitsCounter =
  counter_value :: nat
  counter_max :: nat

definition SplayedBitsCounter_new :: "nat \<Rightarrow> SplayedBitsCounter" where
  "SplayedBitsCounter_new limit = \<lparr>counter_value = 0, counter_max = limit\<rparr>"

definition SplayedBitsCounter_next :: "SplayedBitsCounter \<Rightarrow> nat option \<times> SplayedBitsCounter" where
  "SplayedBitsCounter_next c =
     (let prev = counter_value c AND 0x55555555
      in if prev < counter_max c
         then (Some prev, c\<lparr>counter_value := (counter_value c OR 0xaaaaaaaa) + 1\<rparr>)
         else (None, c))"

text \<open>All items of the iterator, as a \<open>for\<close> loop or \<open>collect\<close> takes them; \<open>None\<close> if it never ends.\<close>

partial_function (option) splayed_collect :: "SplayedBitsCounter \<Rightarrow> nat list option" where
  "splayed_collect c =
     (case SplayedBitsCounter_next c of
        (None, c') \<Rightarrow> Some []
      | (Some k, c') \<Rightarrow> Option.bind (splayed_collect c') (\<lambda>ks. Some (k # ks)))"

section \<open>Specification\<close>

fun spread :: "nat \<Rightarrow> nat" where
  "spread k = (if k = 0 then 0 else k mod 2 + 4 * spread (k div 2))"

declare spread.simps [simp del]

definition zindex :: "nat \<Rightarrow> nat \<Rightarrow> nat" where
  "zindex i j = 2 * spread i + spread j"

lemma spread_0 [simp]: "spread 0 = 0"
  by (simp add: spread.simps)

lemma spread_double [simp]: "spread (2 * k) = 4 * spread k" "spread (Suc (2 * k)) = 4 * spread k + 1"
  by (simp_all add: spread.simps [of "2 * k"] spread.simps [of "Suc (2 * k)"])

lemma spread_bit: "r < 2 \<Longrightarrow> spread (2 * k + r) = 4 * spread k + r"
  by (cases r) (auto simp: less_2_cases_iff)

lemma spread_add_high:
  "k < 2 ^ m \<Longrightarrow> spread (k + h * 2 ^ m) = spread k + 4 ^ m * spread h"
proof (induction m arbitrary: k)
  case 0
  then show ?case by simp
next
  case (Suc m)
  obtain q r where k: "k = 2 * q + r" "r < 2"
    by (metis mod_less_divisor mult_div_mod_eq zero_less_numeral)
  with Suc.prems have q: "q < 2 ^ m" by auto
  have split: "k + h * 2 ^ Suc m = 2 * (q + h * 2 ^ m) + r" using k by simp
  have "spread (k + h * 2 ^ Suc m) = 4 * spread (q + h * 2 ^ m) + r"
    unfolding split using k(2) by (rule spread_bit)
  with Suc.IH [OF q] k show ?case by (simp add: spread_bit)
qed

lemma spread_less: "k < 2 ^ m \<Longrightarrow> 3 * spread k < 4 ^ m"
proof (induction m arbitrary: k)
  case 0
  then show ?case by simp
next
  case (Suc m)
  obtain q r where k: "k = 2 * q + r" "r < 2"
    by (metis mod_less_divisor mult_div_mod_eq zero_less_numeral)
  with Suc.prems have "q < 2 ^ m" by auto
  from Suc.IH [OF this] have "3 * spread q < 4 ^ m" .
  moreover have "r = 0 \<or> r = 1" using k(2) by auto
  ultimately show ?case using k(1) by auto
qed

lemma spread_power [simp]: "spread (2 ^ m) = 4 ^ m"
  using spread_add_high [of 0 m 1] spread_double(2) [of 0] by simp

lemma zindex_less: "i < 2 ^ m \<Longrightarrow> j < 2 ^ m \<Longrightarrow> zindex i j < 4 ^ m"
  using spread_less [of i m] spread_less [of j m] by (simp add: zindex_def)

lemma zindex_high:
  assumes "i < 2 ^ m" and "j < 2 ^ m" and "hi < 2" and "hj < 2"
  shows "zindex (i + hi * 2 ^ m) (j + hj * 2 ^ m) = zindex i j + (2 * hi + hj) * 4 ^ m"
proof -
  have "spread x = x" if "x < 2" for x :: nat
    using that spread_double(2) [of 0] by (cases "x = 0") (simp_all add: spread.simps)
  with assms show ?thesis by (simp add: zindex_def spread_add_high algebra_simps)
qed

text \<open>Every position below \<open>4 ^ m\<close> is the index of exactly one element.\<close>

lemma zindex_surj:
  "p < 4 ^ m \<Longrightarrow> \<exists>i j. i < 2 ^ m \<and> j < 2 ^ m \<and> p = zindex i j"
proof (induction m arbitrary: p)
  case 0
  then show ?case by (auto simp: zindex_def)
next
  case (Suc m)
  define h where "h = p div 4 ^ m"
  have h: "h < 4" using Suc.prems by (simp add: h_def less_mult_imp_div_less)
  have "p mod 4 ^ m < 4 ^ m" by simp
  from Suc.IH [OF this] obtain i j where ij: "i < 2 ^ m" "j < 2 ^ m" "p mod 4 ^ m = zindex i j"
    by blast
  have b: "h div 2 < 2" "h mod 2 < 2" using h by auto
  have hh: "2 * (h div 2) + h mod 2 = h" by simp
  have "zindex (i + h div 2 * 2 ^ m) (j + h mod 2 * 2 ^ m) = zindex i j + h * 4 ^ m"
    using zindex_high [OF ij(1,2) b] hh by simp
  also have "\<dots> = p" using ij(3) by (metis h_def add.commute div_mult_mod_eq)
  finally have "p = zindex (i + h div 2 * 2 ^ m) (j + h mod 2 * 2 ^ m)" by simp
  moreover have "i + h div 2 * 2 ^ m < 2 ^ Suc m" and "j + h mod 2 * 2 ^ m < 2 ^ Suc m"
    using ij b by (simp_all add: less_2_cases_iff, auto)
  ultimately show ?case by blast
qed

section \<open>Masks\<close>

text \<open>\<open>even_mask n\<close> has the even bits below \<open>2 n\<close>, \<open>odd_mask n\<close> the odd ones.\<close>

fun even_mask :: "nat \<Rightarrow> nat" where
  "even_mask 0 = 0"
| "even_mask (Suc n) = 4 * even_mask n + 1"

fun odd_mask :: "nat \<Rightarrow> nat" where
  "odd_mask 0 = 0"
| "odd_mask (Suc n) = 4 * odd_mask n + 2"

lemma mask_numeral:
  "even_mask (numeral k) = 4 * even_mask (pred_numeral k) + 1"
  "odd_mask (numeral k) = 4 * odd_mask (pred_numeral k) + 2"
  by (simp_all add: numeral_eq_Suc)

lemma masks_16: "even_mask 16 = 0x55555555" "odd_mask 16 = 0xaaaaaaaa"
  by (simp_all add: mask_numeral)

lemma and2:
  fixes a b x y :: nat
  assumes "x < 2" and "y < 2"
  shows "(2 * a + x) AND (2 * b + y) = 2 * (a AND b) + (x AND y)"
  using assms by (subst and_rec) (auto simp: less_2_cases_iff)

lemma or2:
  fixes a b x y :: nat
  assumes "x < 2" and "y < 2"
  shows "(2 * a + x) OR (2 * b + y) = 2 * (a OR b) + (x OR y)"
  using assms by (subst or_rec) (auto simp: less_2_cases_iff)

lemma split4: "(4 * a + x :: nat) = 2 * (2 * a + x div 2) + x mod 2"
  by simp

lemma and4:
  fixes a b x y :: nat
  assumes "x < 4" and "y < 4"
  shows "(4 * a + x) AND (4 * b + y) = 4 * (a AND b) + (x AND y)"
proof -
  have d: "x div 2 < 2" "y div 2 < 2" using assms by auto
  have "(4 * a + x) AND (4 * b + y) = 2 * (2 * (a AND b) + (x div 2 AND y div 2)) + (x mod 2 AND y mod 2)"
    unfolding split4 by (simp only: and2 [OF mod_less_divisor mod_less_divisor] and2 [OF d] zero_less_numeral)
  moreover have "2 * (x div 2 AND y div 2) + (x mod 2 AND y mod 2) = x AND y"
    using and2 [of "x mod 2" "y mod 2" "x div 2" "y div 2"] by simp
  ultimately show ?thesis by simp
qed

lemma or4:
  fixes a b x y :: nat
  assumes "x < 4" and "y < 4"
  shows "(4 * a + x) OR (4 * b + y) = 4 * (a OR b) + (x OR y)"
proof -
  have d: "x div 2 < 2" "y div 2 < 2" using assms by auto
  have "(4 * a + x) OR (4 * b + y) = 2 * (2 * (a OR b) + (x div 2 OR y div 2)) + (x mod 2 OR y mod 2)"
    unfolding split4 by (simp only: or2 [OF mod_less_divisor mod_less_divisor] or2 [OF d] zero_less_numeral)
  moreover have "2 * (x div 2 OR y div 2) + (x mod 2 OR y mod 2) = x OR y"
    using or2 [of "x mod 2" "y mod 2" "x div 2" "y div 2"] by simp
  ultimately show ?thesis by simp
qed

section \<open>Indices and masks\<close>

lemma halve: obtains q r :: nat where "k = 2 * q + r" and "r < 2"
  by (metis mod_less_divisor mult_div_mod_eq zero_less_numeral)

lemma small_bits:
  fixes r s :: nat
  assumes "r < 2" and "s < 2"
  shows "(2 * r + s) AND 1 = s" and "(2 * r + s) AND 2 = 2 * r" and "(2 * r) OR s = 2 * r + s"
    and "(r + 2) AND 1 = r" and "(2 * r + s) OR 2 = s + 2"
proof -
  have "r = 0 \<or> r = 1" and "s = 0 \<or> s = 1" using assms by auto
  then show "(2 * r + s) AND 1 = s" and "(2 * r + s) AND 2 = 2 * r" and "(2 * r) OR s = 2 * r + s"
    and "(r + 2) AND 1 = r" and "(2 * r + s) OR 2 = s + 2" by auto
qed

lemma zindex_step:
  "r < 2 \<Longrightarrow> s < 2 \<Longrightarrow> zindex (2 * p + r) (2 * q + s) = 4 * zindex p q + (2 * r + s)"
  by (simp add: zindex_def spread_bit)

lemma zindex_masks:
  "i < 2 ^ n \<Longrightarrow> j < 2 ^ n \<Longrightarrow>
     zindex i j AND even_mask n = spread j \<and> zindex i j AND odd_mask n = 2 * spread i"
proof (induction n arbitrary: i j)
  case 0
  then show ?case by simp
next
  case (Suc n)
  obtain p r where i: "i = 2 * p + r" and r: "r < 2" by (rule halve)
  obtain q s where j: "j = 2 * q + s" and s: "s < 2" by (rule halve)
  from Suc.prems i j have IH: "zindex p q AND even_mask n = spread q"
    "zindex p q AND odd_mask n = 2 * spread p" using Suc.IH [of p q] by auto
  have "2 * r + s < 4" using r s by simp
  then have "zindex i j AND even_mask (Suc n) = 4 * (zindex p q AND even_mask n) + (2 * r + s AND 1)"
    and "zindex i j AND odd_mask (Suc n) = 4 * (zindex p q AND odd_mask n) + (2 * r + s AND 2)"
    unfolding i j zindex_step [OF r s] even_mask.simps odd_mask.simps by (intro and4; simp)+
  then have "zindex i j AND even_mask (Suc n) = 4 * spread q + s"
    and "zindex i j AND odd_mask (Suc n) = 4 * (2 * spread p) + 2 * r"
    unfolding IH small_bits(1,2) [OF r s] .
  then show ?case using i j r s by (simp add: spread_bit)
qed

lemma zindex_or: "2 * spread i OR spread j = zindex i j"
proof -
  have "i < 2 ^ (i + j)" and "j < 2 ^ (i + j)"
    using less_exp [of "i + j"] by linarith+
  then obtain n where "i < 2 ^ n" and "j < 2 ^ n" by blast
  then show ?thesis
  proof (induction n arbitrary: i j)
    case 0
    then show ?case by (simp add: zindex_def)
  next
    case (Suc n)
    obtain p r where i: "i = 2 * p + r" and r: "r < 2" by (rule halve)
    obtain q s where j: "j = 2 * q + s" and s: "s < 2" by (rule halve)
    from Suc.prems i j have IH: "2 * spread p OR spread q = zindex p q" using Suc.IH [of p q] by auto
    have "2 * spread i OR spread j = (4 * (2 * spread p) + 2 * r) OR (4 * spread q + s)"
      using i j r s by (simp add: spread_bit)
    also have "\<dots> = 4 * (2 * spread p OR spread q) + (2 * r OR s)"
      using r s by (intro or4) simp_all
    also have "\<dots> = 4 * zindex p q + (2 * r + s)"
      unfolding IH small_bits(3) [OF r s] ..
    finally show ?case using i j r s by (simp add: zindex_step)
  qed
qed

lemma zindex_or': "spread i * 2 OR spread j = zindex i j"
  using zindex_or [of i j] by (simp add: mult.commute)

section \<open>The items of the counter\<close>

lemma masked_or: "v < 4 ^ n \<Longrightarrow> v OR odd_mask n = (v AND even_mask n) + odd_mask n"
proof (induction n arbitrary: v)
  case 0
  then show ?case by simp
next
  case (Suc n)
  define q x where "q = v div 4" and "x = v mod 4"
  then have v: "v = 4 * q + x" and x: "x < 4" by simp_all
  define r s where "r = x div 2" and "s = x mod 2"
  then have rs: "x = 2 * r + s" "r < 2" "s < 2" using x by auto
  have IH: "q OR odd_mask n = (q AND even_mask n) + odd_mask n"
    using Suc.IH [of q] Suc.prems v by simp
  have "v OR odd_mask (Suc n) = 4 * (q OR odd_mask n) + (x OR 2)"
    unfolding v odd_mask.simps using x by (intro or4) simp_all
  moreover have "v AND even_mask (Suc n) = 4 * (q AND even_mask n) + (x AND 1)"
    unfolding v even_mask.simps using x by (intro and4) simp_all
  ultimately show ?case using IH rs small_bits(1,5) [of r s] by simp
qed

lemma masked_add: "(spread k + odd_mask n) AND even_mask n = spread k" if "k < 2 ^ n"
proof -
  have "zindex (2 ^ n - 1) k AND even_mask n = spread k" using that zindex_masks [of "2 ^ n - 1" n k] by simp
  moreover have "2 * spread (2 ^ n - 1) = odd_mask n"
  proof (induction n)
    case (Suc n)
    have "2 ^ Suc n - 1 = 2 * (2 ^ n - 1) + (1::nat)"
      using one_le_power [of "2::nat" n] by (simp only: power_Suc) arith
    then show ?case using Suc by (simp add: spread_bit del: power_Suc)
  qed simp
  ultimately show ?thesis by (simp add: zindex_def add.commute)
qed

lemma masked_succ: "k + 1 < 2 ^ n \<Longrightarrow> (spread k + odd_mask n + 1) AND even_mask n = spread (k + 1)"
proof (induction n arbitrary: k)
  case 0
  then show ?case by simp
next
  case (Suc n)
  obtain q r where k: "k = 2 * q + r" and r: "r < 2" by (rule halve)
  have sum: "spread k + odd_mask (Suc n) + 1 = 4 * (spread q + odd_mask n) + (r + 3)"
    using k r by (simp add: spread_bit)
  show ?case
  proof (cases "r = 0")
    case True
    have q: "q < 2 ^ n" using Suc.prems k True by simp
    have "(4 * (spread q + odd_mask n) + 3) AND (4 * even_mask n + 1)
        = 4 * ((spread q + odd_mask n) AND even_mask n) + (3 AND 1)" by (intro and4) simp_all
    then show ?thesis unfolding sum even_mask.simps using True k masked_add [OF q] by simp
  next
    case False
    then have r1: "r = 1" using r by simp
    have q: "q + 1 < 2 ^ n" using Suc.prems k r1 by simp
    have "(4 * (spread q + odd_mask n + 1) + 0) AND (4 * even_mask n + 1)
        = 4 * ((spread q + odd_mask n + 1) AND even_mask n) + (0 AND 1)" by (intro and4) simp_all
    then have "(4 * (spread q + odd_mask n) + (r + 3)) AND (4 * even_mask n + 1) = 4 * spread (q + 1)"
      using Suc.IH [OF q] r1 by (simp add: distrib_left add.commute)
    moreover have "k + 1 = 2 * (q + 1)" using k r1 by simp
    ultimately show ?thesis unfolding sum even_mask.simps by (simp only: spread_double)
  qed
qed

lemma even_mask_eq: "3 * even_mask n + 1 = 4 ^ n"
  by (induction n) auto

lemma spread_less_mask: "k + 1 < 2 ^ n \<Longrightarrow> spread k < even_mask n"
proof (induction n arbitrary: k)
  case 0
  then show ?case by simp
next
  case (Suc n)
  obtain q r where k: "k = 2 * q + r" and r: "r < 2" by (rule halve)
  show ?case
  proof (cases "r = 0")
    case True
    have "spread q \<le> even_mask n"
      using spread_less [of q n] even_mask_eq [of n] Suc.prems k by simp
    then show ?thesis using True k by simp
  next
    case False
    then have "r = 1" using r by simp
    moreover from this have "spread q < even_mask n" using Suc.IH [of q] Suc.prems k by simp
    ultimately show ?thesis using k by (simp add: spread_bit)
  qed
qed

text \<open>The counter after \<open>k\<close> items.\<close>

definition counting :: "nat \<Rightarrow> SplayedBitsCounter \<Rightarrow> bool" where
  "counting k c \<longleftrightarrow> counter_value c < 4 ^ 16 \<and> counter_value c AND 0x55555555 = spread k"

lemma counting_new: "counting 0 (SplayedBitsCounter_new n)"
  by (simp add: counting_def SplayedBitsCounter_new_def)

lemma counting_next:
  assumes "counting k c" and "k + 1 < 2 ^ 16" and "spread k < counter_max c"
  shows "\<exists>c'. SplayedBitsCounter_next c = (Some (spread k), c') \<and> counting (k + 1) c' \<and>
    counter_max c' = counter_max c"
proof -
  let ?v = "counter_value c"
  have v: "?v < 4 ^ 16" and a: "?v AND even_mask 16 = spread k"
    using assms(1) by (simp_all add: counting_def masks_16)
  have s: "(?v OR odd_mask 16) + 1 = spread k + odd_mask 16 + 1"
    using masked_or [OF v] a by simp
  have "3 * spread (k + 1) < 4 ^ 16" by (rule spread_less [OF assms(2)])
  moreover have "spread k + 1 + odd_mask 16 < 4 ^ 16"
    using spread_less_mask [OF assms(2)] by (simp add: masks_16)
  moreover have "(spread k + odd_mask 16 + 1) AND even_mask 16 = spread (k + 1)"
    using assms(2) by (rule masked_succ)
  ultimately show ?thesis
    using assms(3) a s by (simp add: SplayedBitsCounter_next_def counting_def Let_def masks_16)
qed

lemma counting_collect:
  assumes "counting k c" and "counter_max c = 4 ^ m" and "k \<le> 2 ^ m" and "m \<le> 15"
  shows "splayed_collect c = Some (map spread [k..<2 ^ m])"
  using assms
proof (induction "2 ^ m - k" arbitrary: k c)
  case 0
  then have "k = 2 ^ m" by simp
  with 0 show ?case
    by (subst splayed_collect.simps)
      (simp add: SplayedBitsCounter_next_def counting_def Let_def)
next
  case (Suc d)
  then have k: "k < 2 ^ m" by simp
  have "(2::nat) ^ m \<le> 2 ^ 15" using \<open>m \<le> 15\<close> by (intro power_increasing) simp_all
  with k have "k + 1 < 2 ^ 16" by simp
  moreover have "spread k < counter_max c" using spread_less [OF k] Suc.prems(2) by simp
  ultimately obtain c' where n: "SplayedBitsCounter_next c = (Some (spread k), c')"
    and c': "counting (k + 1) c'" "counter_max c' = counter_max c"
    using counting_next [OF Suc.prems(1)] by blast
  have "splayed_collect c' = Some (map spread [k + 1..<2 ^ m])"
    using Suc.hyps(2) k c' Suc.prems by (intro Suc.hyps(1)) simp_all
  with n k show ?case by (subst splayed_collect.simps) (simp add: upt_conv_Cons)
qed

lemma splayed_collect_4:
  "m \<le> 15 \<Longrightarrow> splayed_collect (SplayedBitsCounter_new (4 ^ m)) = Some (map spread [0..<2 ^ m])"
  using counting_new by (intro counting_collect) (simp_all add: SplayedBitsCounter_new_def)

section \<open>Properties\<close>

text \<open>
  C23: \<open>SplayedBitsCounter\<close> counts in interleaved bits. For a bound \<open>4 ^ m\<close> up to \<open>2 ^ 30\<close> the iterator
  ends, and its items are \<open>0, 1, ..., 2 ^ m - 1\<close> in this order, with their bits moved to the even
  positions.
\<close>
theorem splayed_counter_items:
  assumes "m \<le> 15"
  shows "splayed_collect (SplayedBitsCounter_new (4 ^ m)) = Some (map spread [0..<2 ^ m])"
  using assms by (rule splayed_collect_4)

theorem splayed_counter_items_witness:
  "splayed_collect (SplayedBitsCounter_new 64) = Some [0, 1, 4, 5, 16, 17, 20, 21]"
  using splayed_counter_items [of 3] by (simp add: upt_rec spread.simps)

text \<open>
  the counter only uses 32 bits of its state. For a bound above \<open>0x55555555\<close>, the first being the
  length \<open>2 ^ 32\<close> of a matrix with \<open>2 ^ 16\<close> rows, it wraps around and the iteration never ends.
\<close>
theorem splayed_counter_wraps:
  assumes "0x55555555 < n"
  shows "splayed_collect (SplayedBitsCounter_new n) = None"
proof -
  have more: "\<exists>k c'. SplayedBitsCounter_next c = (Some k, c') \<and> counter_max c' = counter_max c"
    if "0x55555555 < counter_max c" for c
  proof -
    have "int (counter_value c AND 0x55555555) \<le> 0x55555555"
      by (simp add: of_nat_and_eq AND_upper2)
    then have "counter_value c AND 0x55555555 \<le> 0x55555555" by simp
    then show ?thesis using that by (simp add: SplayedBitsCounter_next_def Let_def)
  qed
  have "0x55555555 < counter_max c \<longrightarrow> False" if "splayed_collect c = Some ks" for c ks
  proof (rule splayed_collect.raw_induct [OF _ that], intro impI)
    fix f :: "SplayedBitsCounter \<Rightarrow> nat list option" and c ks
    assume IH: "\<And>c ks. f c = Some ks \<Longrightarrow> 0x55555555 < counter_max c \<longrightarrow> False"
      and eq: "(case SplayedBitsCounter_next c of (None, c') \<Rightarrow> Some []
        | (Some k, c') \<Rightarrow> Option.bind (f c') (\<lambda>ks. Some (k # ks))) = Some ks"
      and c: "0x55555555 < counter_max c"
    from more [OF c] obtain k c' where "SplayedBitsCounter_next c = (Some k, c')"
      and "counter_max c' = counter_max c" by blast
    with eq c IH show False by (fastforce simp: bind_eq_Some_conv)
  qed
  from this [of "SplayedBitsCounter_new n"] assms show ?thesis
    by (cases "splayed_collect (SplayedBitsCounter_new n)") (auto simp: SplayedBitsCounter_new_def)
qed

theorem splayed_counter_wraps_witness: "splayed_collect (SplayedBitsCounter_new (2 ^ 32)) = None"
  using splayed_counter_wraps [of "2 ^ 32"] by simp

end
