(* ===== verification/Matmul.thy ===== *)
theory Matmul
  imports Morton_Order
begin

unbundle bit_operations_syntax

text \<open>
  The matrix multiplications of \<open>examples/demo/src/tests/matmul.rs\<close>. A slice is a list, a function that
  writes a \<open>&mut\<close> slice returns its new contents. The element type is any type with \<open>0\<close>, \<open>+\<close>, \<open>-\<close> and
  \<open>*\<close>; the source uses \<open>f32\<close>, whose operations satisfy no algebraic law, so every theorem states in its
  types the laws it needs. A call that does not return normally is an error: an access through
  \<open>get_unchecked\<close> outside the slice (undefined behaviour), a panic, or an endless loop. The tasks that
  \<open>rayon::join\<close> runs in parallel work on disjoint slices and are run in order. The contents of a fresh
  buffer (\<open>raw_buffer\<close>, which does not initialise it) is the parameter \<open>junk\<close>.
\<close>

section \<open>Faults\<close>

datatype fault = OutOfBounds | PanicFault string | NoReturn

type_synonym 'a run = "('a, fault) result"

text \<open>\<open>for x in xs { body }\<close> over a state.\<close>

fun for_each :: "'i list \<Rightarrow> ('i \<Rightarrow> 's \<Rightarrow> 's run) \<Rightarrow> 's \<Rightarrow> 's run" where
  "for_each [] body s = Ok s"
| "for_each (x # xs) body s = rbind (body x s) (for_each xs body)"

definition get_unchecked :: "'a list \<Rightarrow> nat \<Rightarrow> 'a run" where
  "get_unchecked xs i = (if i < length xs then Ok (xs ! i) else Err OutOfBounds)"

definition index_set :: "'a list \<Rightarrow> nat \<Rightarrow> 'a \<Rightarrow> 'a list run" where
  "index_set xs i v = (if i < length xs then Ok (xs[i := v]) else Err (PanicFault ''index out of bounds''))"

section \<open>Sequential multiplication\<close>

text \<open>One term of an inner product: \<open>sum += a.get_unchecked(p) * b.get_unchecked(q)\<close>.\<close>

definition mul_add :: "'a::{plus,times} list \<Rightarrow> 'a list \<Rightarrow> nat \<Rightarrow> nat \<Rightarrow> 'a \<Rightarrow> 'a run" where
  "mul_add a b p q acc =
     rbind (get_unchecked a p) (\<lambda>x. rbind (get_unchecked b q) (\<lambda>y. Ok (acc + x * y)))"

definition seq_matmul :: "'a::{zero,plus,times} list \<Rightarrow> 'a list \<Rightarrow> 'a list \<Rightarrow> 'a list run" where
  "seq_matmul a b dest =
     (let dest = map (\<lambda>_. 0) dest;
          bits = trailing_zeros_bits 64 (length dest) div 2;
          n = push_bit bits 1
      in for_each [0..<n] (\<lambda>i. for_each [0..<n] (\<lambda>j dest.
           rbind (for_each [0..<n] (\<lambda>k sum.
             mul_add a b (push_bit bits i OR k) (push_bit bits k OR j) sum) 0) (\<lambda>sum.
           index_set dest (push_bit bits i OR j) sum))) dest)"

text \<open>\<open>a.len().count_ones() == 1 && a.len().trailing_zeros() % 2 == 0\<close>\<close>

fun count_ones_bits :: "nat \<Rightarrow> nat \<Rightarrow> nat" where
  "count_ones_bits 0 x = 0"
| "count_ones_bits (Suc k) x = x mod 2 + count_ones_bits k (x div 2)"

definition square_power_of_two :: "nat \<Rightarrow> bool" where
  "square_power_of_two n \<longleftrightarrow> count_ones_bits 64 n = 1 \<and> trailing_zeros_bits 64 n mod 2 = 0"

definition matmulz_entry :: "'a::{zero,plus,times} list \<Rightarrow> 'a list \<Rightarrow> nat \<Rightarrow> nat \<Rightarrow> 'a run" where
  "matmulz_entry a b n ij =
     (let i = ij AND 0xaaaaaaaa; j = ij AND 0x55555555
      in case splayed_collect (SplayedBitsCounter_new n) of
           None \<Rightarrow> Err NoReturn
         | Some ks \<Rightarrow> for_each ks (\<lambda>k sum. mul_add a b (i OR k) (push_bit 1 k OR j) sum) 0)"

definition seq_matmulz :: "'a::{zero,plus,times} list \<Rightarrow> 'a list \<Rightarrow> 'a list \<Rightarrow> 'a list run" where
  "seq_matmulz a b dest =
     (if \<not> (length a = length b \<and> length a = length dest) then Err (PanicFault ''assertion failed'')
      else if \<not> square_power_of_two (length a) then Err (PanicFault ''assertion failed'')
      else
        let dest = map (\<lambda>_. 0) dest; n = length dest
        in for_each [0..<n] (\<lambda>ij dest.
             rbind (matmulz_entry a b n ij) (\<lambda>sum. Ok (dest[ij := sum]))) dest)"

section \<open>Chunks and element-wise operations\<close>

definition MULT_CHUNK :: nat where "MULT_CHUNK = 1024"
definition LINEAR_CHUNK :: nat where "LINEAR_CHUNK = 64 * 1024"

definition split_at :: "nat \<Rightarrow> 'a list \<Rightarrow> ('a list \<times> 'a list) run" where
  "split_at mid v = (if mid \<le> length v then Ok (take mid v, drop mid v)
     else Err (PanicFault ''mid > len''))"

text \<open>The two \<open>split_at\<close> of \<open>quarter_chunks\<close> cannot fail: \<open>len / 2 / 2 <= len / 2 <= len - len / 2\<close>.\<close>

definition quarter_chunks :: "'a list \<Rightarrow> 'a list \<times> 'a list \<times> 'a list \<times> 'a list" where
  "quarter_chunks v =
     (let mid = length v div 2; quarter = mid div 2;
          left = take mid v; right = drop mid v
      in (take quarter left, drop quarter left, take quarter right, drop quarter right))"

definition raw_buffer :: "(nat \<Rightarrow> 'a) \<Rightarrow> nat \<Rightarrow> 'a list" where
  "raw_buffer junk n = map junk [0..<n]"

text \<open>\<open>rmatsum\<close> and \<open>rmatsub\<close>: the zipped prefix is updated, the rest of \<open>dest\<close> is not touched.\<close>

definition rmatsum :: "'a::plus list \<Rightarrow> 'a list \<Rightarrow> 'a list" where
  "rmatsum src dest = map2 (\<lambda>d s. d + s) dest src @ drop (length src) dest"

definition rmatsub :: "'a::minus list \<Rightarrow> 'a list \<Rightarrow> 'a list" where
  "rmatsub src dest = map2 (\<lambda>d s. d - s) dest src @ drop (length src) dest"

function rcopy :: "'a list \<Rightarrow> 'a list \<Rightarrow> 'a list run" where
  "rcopy src dest =
     (if length dest \<le> LINEAR_CHUNK
      then (if length src = length dest then Ok src
            else Err (PanicFault ''source slice length does not match destination slice length''))
      else
        let mid = length dest div 2
        in rbind (split_at mid src) (\<lambda>(s1, s2).
           rbind (split_at mid dest) (\<lambda>(d1, d2).
           rbind (rcopy s1 d1) (\<lambda>d1'. rbind (rcopy s2 d2) (\<lambda>d2'. Ok (d1' @ d2'))))))"
  by pat_completeness auto
termination
  by (relation "measure (\<lambda>(src, dest). length dest)")
    (auto simp: split_at_def LINEAR_CHUNK_def split: if_splits)

definition rtmp_sum :: "(nat \<Rightarrow> 'a) \<Rightarrow> 'a::plus list \<Rightarrow> 'a list \<Rightarrow> 'a list run" where
  "rtmp_sum junk a b =
     rbind (rcopy a (raw_buffer junk (length a))) (\<lambda>tmp. Ok (rmatsum b tmp))"

definition rtmp_sub :: "(nat \<Rightarrow> 'a) \<Rightarrow> 'a::minus list \<Rightarrow> 'a list \<Rightarrow> 'a list run" where
  "rtmp_sub junk a b =
     rbind (rcopy a (raw_buffer junk (length a))) (\<lambda>tmp. Ok (rmatsub b tmp))"

definition strassen_sum :: "'a::plus list \<Rightarrow> 'a list \<Rightarrow> 'a list \<Rightarrow> 'a list run" where
  "strassen_sum a b dest = rbind (rcopy a dest) (\<lambda>dest. Ok (rmatsum b dest))"

definition strassen_sum_sub :: "'a::{plus,minus} list \<Rightarrow> 'a list \<Rightarrow> 'a list \<Rightarrow> 'a list \<Rightarrow> 'a list \<Rightarrow>
    'a list run" where
  "strassen_sum_sub a b c s dest =
     rbind (rcopy a dest) (\<lambda>dest. Ok (rmatsub s (rmatsum c (rmatsum b dest))))"

lemma rcopy_eq: "length src = length dest \<Longrightarrow> rcopy src dest = Ok src"
proof (induction src dest rule: rcopy.induct)
  case (1 src dest)
  show ?case
  proof (cases "length dest \<le> LINEAR_CHUNK")
    case True
    with "1.prems" show ?thesis by simp
  next
    case False
    let ?mid = "length dest div 2"
    have s: "split_at ?mid src = Ok (take ?mid src, drop ?mid src)"
      and d: "split_at ?mid dest = Ok (take ?mid dest, drop ?mid dest)"
      using "1.prems" by (simp_all add: split_at_def)
    have "rcopy (take ?mid src) (take ?mid dest) = Ok (take ?mid src)"
      and "rcopy (drop ?mid src) (drop ?mid dest) = Ok (drop ?mid src)"
      using "1.IH" [OF False refl s _ d] "1.prems" by auto
    with False s d show ?thesis by (subst rcopy.simps) (simp add: Let_def)
  qed
qed

declare rcopy.simps [simp del]

lemma raw_buffer_length [simp]: "length (raw_buffer junk n) = n"
  by (simp add: raw_buffer_def)

lemma rmatsum_length [simp]: "length (rmatsum src dest) = length dest"
  by (simp add: rmatsum_def)

lemma rmatsub_length [simp]: "length (rmatsub src dest) = length dest"
  by (simp add: rmatsub_def)

lemma rtmp_eq:
  "rtmp_sum junk a b = Ok (rmatsum b a)"
  "rtmp_sub junk a b = Ok (rmatsub b a)"
  by (simp_all add: rtmp_sum_def rtmp_sub_def rcopy_eq)

lemma quarter_chunks_lengths:
  assumes "quarter_chunks v = (v1, v2, v3, v4)"
  shows "length v1 = length v div 2 div 2" and "length v2 = length v div 2 - length v div 2 div 2"
    and "length v3 = length v div 2 div 2" and "length v4 = length v - length v div 2 - length v div 2 div 2"
  using assms by (auto simp: quarter_chunks_def Let_def min.absorb1 min.absorb2)

lemma quarter_chunks_smaller:
  "(v1, v2, v3, v4) = quarter_chunks v \<Longrightarrow> \<not> length v \<le> MULT_CHUNK \<Longrightarrow>
     length v1 < length v \<and> length v2 < length v \<and> length v3 < length v \<and> length v4 < length v"
  by (simp add: quarter_chunks_lengths [OF sym] MULT_CHUNK_def) arith

section \<open>Recursive multiplication\<close>

function matmulz :: "(nat \<Rightarrow> 'a) \<Rightarrow> 'a::{zero,plus,times} list \<Rightarrow> 'a list \<Rightarrow> 'a list \<Rightarrow>
    'a list run" where
  "matmulz junk a b dest =
     (if length a \<le> MULT_CHUNK then seq_matmulz a b dest
      else
        let tmp = raw_buffer junk (length dest)
        in case quarter_chunks a of (a1, a2, a3, a4) \<Rightarrow>
           case quarter_chunks b of (b1, b2, b3, b4) \<Rightarrow>
           case quarter_chunks dest of (d1, d2, d3, d4) \<Rightarrow>
           case quarter_chunks tmp of (t1, t2, t3, t4) \<Rightarrow>
             rbind (matmulz junk a1 b1 d1) (\<lambda>d1.
             rbind (matmulz junk a1 b2 d2) (\<lambda>d2.
             rbind (matmulz junk a3 b1 d3) (\<lambda>d3.
             rbind (matmulz junk a3 b2 d4) (\<lambda>d4.
             rbind (matmulz junk a2 b3 t1) (\<lambda>t1.
             rbind (matmulz junk a2 b4 t2) (\<lambda>t2.
             rbind (matmulz junk a4 b3 t3) (\<lambda>t3.
             rbind (matmulz junk a4 b4 t4) (\<lambda>t4.
               Ok (rmatsum (t1 @ t2 @ t3 @ t4) (d1 @ d2 @ d3 @ d4)))))))))))"
  by pat_completeness auto
termination
  by (relation "measure (\<lambda>(junk, a, b, dest). length a)")
    (auto dest: quarter_chunks_smaller)

text \<open>
  The four helpers of Strassen's algorithm call \<open>matmul_strassen\<close>, here their argument \<open>mul\<close>, on
  matrices of the size of their own arguments.
\<close>

definition strassen_add2_mul :: "('a list \<Rightarrow> 'a list \<Rightarrow> 'a list \<Rightarrow> 'a list run) \<Rightarrow> (nat \<Rightarrow> 'a) \<Rightarrow>
    'a::plus list \<Rightarrow> 'a list \<Rightarrow> 'a list \<Rightarrow> 'a list \<Rightarrow> 'a list run" where
  "strassen_add2_mul mul junk a1 a2 b1 b2 =
     (let dest = raw_buffer junk (length a1)
      in rbind (rtmp_sum junk a1 a2) (\<lambda>a. rbind (rtmp_sum junk b1 b2) (\<lambda>b. mul a b dest)))"

definition strassen_sub_add_mul :: "('a list \<Rightarrow> 'a list \<Rightarrow> 'a list \<Rightarrow> 'a list run) \<Rightarrow> (nat \<Rightarrow> 'a) \<Rightarrow>
    'a::{plus,minus} list \<Rightarrow> 'a list \<Rightarrow> 'a list \<Rightarrow> 'a list \<Rightarrow> 'a list run" where
  "strassen_sub_add_mul mul junk a1 a2 b1 b2 =
     (let dest = raw_buffer junk (length a1)
      in rbind (rtmp_sub junk a1 a2) (\<lambda>a. rbind (rtmp_sum junk b1 b2) (\<lambda>b. mul a b dest)))"

definition strassen_add_mul :: "('a list \<Rightarrow> 'a list \<Rightarrow> 'a list \<Rightarrow> 'a list run) \<Rightarrow> (nat \<Rightarrow> 'a) \<Rightarrow>
    'a::plus list \<Rightarrow> 'a list \<Rightarrow> 'a list \<Rightarrow> 'a list run" where
  "strassen_add_mul mul junk a1 a2 b =
     (let dest = raw_buffer junk (length a1)
      in rbind (rtmp_sum junk a1 a2) (\<lambda>a. mul a b dest))"

definition strassen_sub_mul :: "('a list \<Rightarrow> 'a list \<Rightarrow> 'a list \<Rightarrow> 'a list run) \<Rightarrow> (nat \<Rightarrow> 'a) \<Rightarrow>
    'a::minus list \<Rightarrow> 'a list \<Rightarrow> 'a list \<Rightarrow> 'a list run" where
  "strassen_sub_mul mul junk b1 b2 a =
     (let dest = raw_buffer junk (length a)
      in rbind (rtmp_sub junk b1 b2) (\<lambda>b. mul a b dest))"

lemmas strassen_helper_defs =
  strassen_add2_mul_def strassen_sub_add_mul_def strassen_add_mul_def strassen_sub_mul_def

lemma strassen_helper_congs [fundef_cong]:
  assumes "\<And>x y d. length x = length a1 \<Longrightarrow> mul x y d = mul' x y d"
  shows "strassen_add2_mul mul junk a1 a2 b1 b2 = strassen_add2_mul mul' junk a1 a2 b1 b2"
    and "strassen_sub_add_mul mul junk a1 a2 b1 b2 = strassen_sub_add_mul mul' junk a1 a2 b1 b2"
    and "strassen_add_mul mul junk a1 a2 b1 = strassen_add_mul mul' junk a1 a2 b1"
    and "strassen_sub_mul mul junk b1 b2 a1 = strassen_sub_mul mul' junk b1 b2 a1"
  using assms by (simp_all add: strassen_helper_defs rtmp_eq)

function matmul_strassen :: "(nat \<Rightarrow> 'a) \<Rightarrow> 'a::{zero,plus,minus,times} list \<Rightarrow> 'a list \<Rightarrow>
    'a list \<Rightarrow> 'a list run" where
  "matmul_strassen junk a b dest =
     (if length a \<le> MULT_CHUNK then seq_matmulz a b dest
      else
        case quarter_chunks a of (a11, a12, a21, a22) \<Rightarrow>
        case quarter_chunks b of (b11, b12, b21, b22) \<Rightarrow>
          rbind (strassen_add2_mul (matmul_strassen junk) junk a11 a22 b11 b22) (\<lambda>m1.
          rbind (strassen_add_mul (matmul_strassen junk) junk a21 a22 b11) (\<lambda>m2.
          rbind (strassen_sub_mul (matmul_strassen junk) junk b12 b22 a11) (\<lambda>m3.
          rbind (strassen_sub_mul (matmul_strassen junk) junk b21 b11 a22) (\<lambda>m4.
          rbind (strassen_add_mul (matmul_strassen junk) junk a11 a12 b22) (\<lambda>m5.
          rbind (strassen_sub_add_mul (matmul_strassen junk) junk a21 a11 b11 b12) (\<lambda>m6.
          rbind (strassen_sub_add_mul (matmul_strassen junk) junk a12 a22 b21 b22) (\<lambda>m7.
            case quarter_chunks dest of (c11, c12, c21, c22) \<Rightarrow>
              rbind (strassen_sum_sub m1 m4 m7 m5 c11) (\<lambda>c11.
              rbind (strassen_sum m3 m5 c12) (\<lambda>c12.
              rbind (strassen_sum m2 m4 c21) (\<lambda>c21.
              rbind (strassen_sum_sub m1 m3 m6 m2 c22) (\<lambda>c22.
                Ok (c11 @ c12 @ c21 @ c22)))))))))))))"
  by pat_completeness auto
termination
  by (relation "measure (\<lambda>(junk, a, b, dest). length a)")
    (auto dest: quarter_chunks_smaller)

declare matmulz.simps [simp del] matmul_strassen.simps [simp del]

section \<open>Matrices\<close>

text \<open>
  \<open>represents m xs A\<close>: the list \<open>xs\<close> is the Z-order layout of the \<open>2 ^ m\<close> by \<open>2 ^ m\<close> matrix \<open>A\<close>.
  \<open>inner n A B i j\<close> is an entry of the product, summed from the left as the sequential loops do.
\<close>

definition represents :: "nat \<Rightarrow> 'a list \<Rightarrow> (nat \<Rightarrow> nat \<Rightarrow> 'a) \<Rightarrow> bool" where
  "represents m xs A \<longleftrightarrow> length xs = 4 ^ m \<and> (\<forall>i < 2 ^ m. \<forall>j < 2 ^ m. xs ! zindex i j = A i j)"

definition inner :: "nat \<Rightarrow> (nat \<Rightarrow> nat \<Rightarrow> 'a::{zero,plus,times}) \<Rightarrow> (nat \<Rightarrow> nat \<Rightarrow> 'a) \<Rightarrow>
    nat \<Rightarrow> nat \<Rightarrow> 'a" where
  "inner n A B i j = foldl (\<lambda>s k. s + A i k * B k j) 0 [0..<n]"

definition entry_of :: "'a list \<Rightarrow> nat \<Rightarrow> nat \<Rightarrow> 'a" where
  "entry_of xs i j = xs ! zindex i j"

lemma represents_entry_of: "length xs = 4 ^ m \<Longrightarrow> represents m xs (entry_of xs)"
  by (simp add: represents_def entry_of_def)

lemma represents_unique:
  assumes "represents m xs A" and "represents m ys A"
  shows "xs = ys"
proof (rule nth_equalityI)
  show "length xs = length ys" using assms by (simp add: represents_def)
  fix p assume "p < length xs"
  then have "p < 4 ^ m" using assms(1) by (simp add: represents_def)
  then obtain i j where "i < 2 ^ m" "j < 2 ^ m" "p = zindex i j" using zindex_surj by blast
  then show "xs ! p = ys ! p" using assms by (simp add: represents_def)
qed

lemma represents_length: "represents m xs A \<Longrightarrow> length xs = 4 ^ m"
  by (simp add: represents_def)

lemma inner_cong:
  assumes "\<And>k. k < n \<Longrightarrow> A i k = A' i' k" and "\<And>k. k < n \<Longrightarrow> B k j = B' k j'"
  shows "inner n A B i j = inner n A' B' i' j'"
  unfolding inner_def by (rule foldl_cong) (use assms in auto)

section \<open>Correctness of the sequential multiplications\<close>

lemma for_each_foldl:
  assumes "\<And>x s. x \<in> set xs \<Longrightarrow> body x s = Ok (f s x)"
  shows "for_each xs body s = Ok (foldl f s xs)"
  using assms by (induction xs arbitrary: s) auto

lemma for_each_Nil [simp]: "for_each [] body = Ok"
  by (rule ext) simp

lemma for_each_cong:
  "(\<And>x s. x \<in> set xs \<Longrightarrow> body x s = body' x s) \<Longrightarrow> for_each xs body s = for_each xs body' s"
proof (induction xs arbitrary: s)
  case (Cons x xs)
  then show ?case by (cases "body' x s") auto
qed simp

lemma for_each_map: "for_each (map g xs) body s = for_each xs (\<lambda>x. body (g x)) s"
proof (induction xs arbitrary: s)
  case (Cons x xs)
  then show ?case by (cases "body (g x) s") auto
qed simp

lemma for_each_append: "for_each (xs @ ys) body s = rbind (for_each xs body s) (for_each ys body)"
proof (induction xs arbitrary: s)
  case (Cons x xs)
  then show ?case by (cases "body x s") auto
qed simp

text \<open>A loop that fills a list: the iterations of \<open>[lo..<hi]\<close> set the element of their index.\<close>

lemma for_each_update:
  assumes "\<And>x d. x < length s \<Longrightarrow> length d = length s \<Longrightarrow> body x d = Ok (d[x := f x])"
  shows "for_each [0..<length s] body s = Ok (map f [0..<length s])"
proof -
  have "for_each [0..<n] body s = Ok (map f [0..<n] @ drop n s)" if "n \<le> length s" for n
    using that
  proof (induction n)
    case (Suc n)
    have "drop n s = s ! n # drop (Suc n) s" using Suc.prems by (simp add: Cons_nth_drop_Suc)
    moreover have "body n (map f [0..<n] @ drop n s) = Ok ((map f [0..<n] @ drop n s)[n := f n])"
      using Suc.prems by (intro assms) auto
    ultimately show ?case using Suc by (simp add: for_each_append list_update_append)
  qed simp
  from this [of "length s"] show ?thesis by simp
qed

lemma count_ones_power: "p < k \<Longrightarrow> count_ones_bits k (2 ^ p) = 1"
proof (induction k arbitrary: p)
  case (Suc k)
  have "count_ones_bits k 0 = 0" for k by (induction k) auto
  with Suc show ?case by (cases p) auto
qed simp

lemma square_power_of_two_4: "m \<le> 31 \<Longrightarrow> square_power_of_two (4 ^ m)"
proof -
  assume "m \<le> 31"
  moreover have "(4::nat) ^ m = 2 ^ (2 * m)" by (simp add: power_mult)
  ultimately show ?thesis by (simp add: square_power_of_two_def count_ones_power)
qed

lemma mul_add_Ok: "p < length a \<Longrightarrow> q < length b \<Longrightarrow> mul_add a b p q acc = Ok (acc + a ! p * b ! q)"
  by (simp add: mul_add_def get_unchecked_def)

lemma matmulz_entry_eq:
  assumes "m \<le> 15" and "length a = 4 ^ m" and "length b = 4 ^ m" and "i < 2 ^ m" and "j < 2 ^ m"
  shows "matmulz_entry a b (4 ^ m) (zindex i j) = Ok (inner (2 ^ m) (entry_of a) (entry_of b) i j)"
proof -
  have "(2::nat) ^ m \<le> 2 ^ 16" using assms(1) by (intro power_increasing) simp_all
  then have mask: "zindex i j AND 0x55555555 = spread j" "zindex i j AND 0xaaaaaaaa = 2 * spread i"
    using zindex_masks [of i 16 j] assms(4,5) by (simp_all add: masks_16)
  have "for_each [0..<2 ^ m] (\<lambda>k. mul_add a b (2 * spread i OR spread k) (push_bit 1 (spread k) OR spread j)) 0
      = Ok (inner (2 ^ m) (entry_of a) (entry_of b) i j)"
    unfolding inner_def
    by (rule for_each_foldl) (use assms in \<open>simp add: zindex_or zindex_or' mul_add_Ok zindex_less
        entry_of_def\<close>)
  then show ?thesis
    unfolding matmulz_entry_def Let_def mask
    using splayed_collect_4 [OF assms(1)] by (simp add: for_each_map)
qed

lemma seq_matmulz_eq:
  fixes a :: "'a::{zero,plus,times} list"
  assumes "m \<le> 15" and a: "represents m a A" and b: "represents m b B" and "length dest = 4 ^ m"
  shows "\<exists>r. seq_matmulz a b dest = Ok r \<and> represents m r (inner (2 ^ m) A B)"
proof -
  have len: "length a = 4 ^ m" "length b = 4 ^ m" using a b by (simp_all add: represents_def)
  define f where "f ij = (case matmulz_entry a b (4 ^ m) ij of Ok v \<Rightarrow> v | Err e \<Rightarrow> 0)" for ij
  have entry: "matmulz_entry a b (4 ^ m) ij = Ok (f ij)" if "ij < 4 ^ m" for ij
  proof -
    from that obtain i j where "i < 2 ^ m" "j < 2 ^ m" "ij = zindex i j" using zindex_surj by blast
    then show ?thesis using matmulz_entry_eq [OF assms(1) len] by (simp add: f_def)
  qed
  let ?r = "map f [0..<4 ^ m]"
  let ?z = "map (\<lambda>_. 0 :: 'a) dest"
  have "for_each [0..<length ?z] (\<lambda>ij dest. rbind (matmulz_entry a b (4 ^ m) ij)
      (\<lambda>v. Ok (dest[ij := v]))) ?z = Ok (map f [0..<length ?z])"
    by (rule for_each_update) (simp add: entry assms(4))
  then have "seq_matmulz a b dest = Ok ?r"
    using len assms(1,4) square_power_of_two_4 [of m] by (simp add: seq_matmulz_def Let_def)
  moreover have "represents m ?r (inner (2 ^ m) A B)"
    unfolding represents_def
  proof (intro conjI allI impI)
    fix i j assume ij: "i < (2::nat) ^ m" "j < (2::nat) ^ m"
    then have "?r ! zindex i j = f (zindex i j)" by (simp add: zindex_less)
    also have "\<dots> = inner (2 ^ m) (entry_of a) (entry_of b) i j"
      using matmulz_entry_eq [OF assms(1) len ij] by (simp add: f_def)
    also have "\<dots> = inner (2 ^ m) A B i j"
      by (rule inner_cong) (use a b ij in \<open>simp_all add: represents_def entry_of_def\<close>)
    finally show "?r ! zindex i j = inner (2 ^ m) A B i j" .
  qed simp
  ultimately show ?thesis by blast
qed

text \<open>The row-major layout of \<open>seq_matmul\<close>.\<close>

definition row_major :: "nat \<Rightarrow> 'a list \<Rightarrow> (nat \<Rightarrow> nat \<Rightarrow> 'a) \<Rightarrow> bool" where
  "row_major m xs A \<longleftrightarrow> length xs = 4 ^ m \<and> (\<forall>i < 2 ^ m. \<forall>j < 2 ^ m. xs ! (i * 2 ^ m + j) = A i j)"

lemma push_bit_or: "k < 2 ^ m \<Longrightarrow> push_bit m i OR k = i * 2 ^ m + k" for i k m :: nat
proof -
  assume "k < 2 ^ m"
  then have k: "take_bit m k = k" by (simp add: take_bit_nat_eq_self)
  have "push_bit m i AND take_bit m k = 0"
    by (rule bit_eqI) (auto simp: bit_simps)
  then have "push_bit m i + k = push_bit m i OR k"
    using k by (simp add: disjunctive_add_eq_or)
  then show ?thesis by (simp add: push_bit_eq_mult)
qed

lemma for_each_nested:
  assumes "0 < n"
  shows "for_each [0..<l] (\<lambda>i. for_each [0..<n] (\<lambda>j. body i j)) s
    = for_each [0..<l * n] (\<lambda>p. body (p div n) (p mod n)) s"
proof (induction l)
  case (Suc l)
  have "[0..<Suc l * n] = [0..<l * n] @ map (\<lambda>j. j + l * n) [0..<n]"
    using map_add_upt [of "l * n" n] upt_add_eq_append [of 0 "l * n" n] by (simp add: add.commute)
  moreover have "for_each [0..<n] (\<lambda>j. body ((j + l * n) div n) ((j + l * n) mod n)) s'
      = for_each [0..<n] (body l) s'" for s'
    by (rule for_each_cong) simp
  ultimately show ?case
    using Suc by (cases "for_each [0..<l * n] (\<lambda>p. body (p div n) (p mod n)) s")
      (simp_all add: for_each_append for_each_map)
qed simp

lemma four_power: "(4::nat) ^ m = 2 ^ m * 2 ^ m"
  by (simp flip: power_mult_distrib)

lemma four_as_two: "(4::nat) ^ m = 2 ^ (2 * m)"
  by (simp add: power_mult)

lemma seq_matmul_eq:
  fixes a :: "'a::{zero,plus,times} list"
  assumes "m \<le> 31" and a: "row_major m a A" and b: "row_major m b B" and dest: "length dest = 4 ^ m"
  shows "\<exists>r. seq_matmul a b dest = Ok r \<and> row_major m r (inner (2 ^ m) A B)"
proof -
  let ?n = "2 ^ m :: nat" and ?z = "map (\<lambda>_. 0 :: 'a) dest"
  let ?f = "\<lambda>p. inner ?n A B (p div ?n) (p mod ?n)"
  have bits: "trailing_zeros_bits 64 (length dest) div 2 = m"
    using assms(1) dest by (simp add: four_as_two)
  have idx: "i * ?n + j < 4 ^ m" if "i < ?n" "j < ?n" for i j
    using mult_le_mono1 [of "Suc i" ?n ?n] that by (simp add: four_power)
  have divs: "p div ?n < ?n" "p mod ?n < ?n" "p div ?n * ?n + p mod ?n = p" if "p < 4 ^ m" for p
    using that by (simp_all add: four_power less_mult_imp_div_less div_mult_mod_eq)
  have entry: "for_each [0..<?n] (\<lambda>k. mul_add a b (push_bit m i OR k) (push_bit m k OR j)) 0
      = Ok (inner ?n A B i j)" if "i < ?n" "j < ?n" for i j
    unfolding inner_def
    by (rule for_each_foldl) (use that a b in \<open>simp add: push_bit_or mul_add_Ok idx row_major_def\<close>)
  have "seq_matmul a b dest = for_each [0..<?n] (\<lambda>i. for_each [0..<?n] (\<lambda>j d.
      rbind (for_each [0..<?n] (\<lambda>k. mul_add a b (push_bit m i OR k) (push_bit m k OR j)) 0)
        (index_set d (push_bit m i OR j)))) ?z"
    by (simp add: seq_matmul_def Let_def bits push_bit_eq_mult)
  also have "\<dots> = for_each [0..<length ?z] (\<lambda>p d.
      rbind (for_each [0..<?n] (\<lambda>k. mul_add a b (push_bit m (p div ?n) OR k) (push_bit m k OR p mod ?n)) 0)
        (index_set d (push_bit m (p div ?n) OR p mod ?n))) ?z"
    using dest by (subst for_each_nested) (simp_all add: four_power)
  also have "\<dots> = Ok (map ?f [0..<length ?z])"
  proof (rule for_each_update)
    fix p and d :: "'a list"
    assume "p < length ?z" and d: "length d = length ?z"
    then have p: "p < 4 ^ m" using dest by simp
    then have "push_bit m (p div ?n) OR p mod ?n = p" by (simp add: push_bit_or div_mult_mod_eq)
    then show "rbind (for_each [0..<?n] (\<lambda>k. mul_add a b (push_bit m (p div ?n) OR k)
        (push_bit m k OR p mod ?n)) 0) (index_set d (push_bit m (p div ?n) OR p mod ?n))
      = Ok (d[p := ?f p])"
      unfolding entry [OF divs(1,2) [OF p]] using p d dest by (simp add: index_set_def)
  qed
  finally have "seq_matmul a b dest = Ok (map ?f [0..<4 ^ m])" using dest by simp
  moreover have "row_major m (map ?f [0..<4 ^ m]) (inner ?n A B)"
    by (simp add: row_major_def idx)
  ultimately show ?thesis by blast
qed

end
