(* ===== verification/Matmul_Recursive.thy ===== *)
theory Matmul_Recursive
  imports Matmul
begin

text \<open>
  Correctness of the matrix multiplications of \<open>examples/demo/src/tests/matmul.rs\<close>. The quarters of a
  slice in Z-order are the quadrants of the matrix, so the recursive algorithms are proved by induction
  on the logarithm of the number of rows. The locale \<open>zorder_multiplier\<close> states what a caller relies on
  of such a function; it is interpreted on the three of the source, and what follows for a caller is
  proved in it once.
\<close>

section \<open>Quadrants\<close>

definition quad :: "nat \<Rightarrow> nat \<Rightarrow> nat \<Rightarrow> (nat \<Rightarrow> nat \<Rightarrow> 'a) \<Rightarrow> nat \<Rightarrow> nat \<Rightarrow> 'a" where
  "quad m hi hj A i j = A (i + hi * 2 ^ m) (j + hj * 2 ^ m)"

lemma represents_chunk:
  assumes "represents (Suc m) xs A" and "hi < 2" and "hj < 2"
  shows "represents m (take (4 ^ m) (drop ((2 * hi + hj) * 4 ^ m) xs)) (quad m hi hj A)"
  unfolding represents_def
proof (intro conjI allI impI)
  have h: "2 * hi + hj \<le> 3" using assms(2,3) by simp
  have len: "length xs = 4 * 4 ^ m" using assms(1) by (simp add: represents_def)
  have "(2 * hi + hj) * 4 ^ m \<le> 3 * 4 ^ m" using h by (rule mult_le_mono1)
  then have room: "(2 * hi + hj) * 4 ^ m + 4 ^ m \<le> length xs" unfolding len by linarith
  then have "4 ^ m \<le> length (drop ((2 * hi + hj) * 4 ^ m) xs)" unfolding length_drop by linarith
  then show "length (take (4 ^ m) (drop ((2 * hi + hj) * 4 ^ m) xs)) = 4 ^ m"
    by (simp only: length_take min.absorb2)
  fix i j assume ij: "i < (2::nat) ^ m" "j < (2::nat) ^ m"
  have "i + hi * 2 ^ m < 2 ^ Suc m" and "j + hj * 2 ^ m < 2 ^ Suc m"
    using ij assms(2,3) by (auto simp: less_2_cases_iff)
  then have "xs ! zindex (i + hi * 2 ^ m) (j + hj * 2 ^ m) = quad m hi hj A i j"
    using assms(1) by (simp add: represents_def quad_def)
  then show "take (4 ^ m) (drop ((2 * hi + hj) * 4 ^ m) xs) ! zindex i j = quad m hi hj A i j"
    using zindex_high [OF ij assms(2,3)] zindex_less [OF ij] room by (simp add: add.commute)
qed

lemma quarter_chunks_eq:
  assumes "length xs = 4 * q"
  shows "quarter_chunks xs = (take q (drop 0 xs), take q (drop q xs), take q (drop (2 * q) xs),
    take q (drop (3 * q) xs))"
proof -
  have mid: "length xs div 2 = 2 * q" "(2 * q) div 2 = q" using assms by simp_all
  have "take q (take (2 * q) xs) = take q xs" by (simp add: min.absorb1)
  moreover have "drop q (take (2 * q) xs) = take q (drop q xs)" by (simp add: drop_take)
  moreover have "drop q (drop (2 * q) xs) = take q (drop (3 * q) xs)" using assms by simp
  ultimately show ?thesis unfolding quarter_chunks_def Let_def mid by simp
qed

lemma quarter_chunks_represents:
  assumes "represents (Suc m) xs A" and "quarter_chunks xs = (x1, x2, x3, x4)"
  shows "represents m x1 (quad m 0 0 A)" and "represents m x2 (quad m 0 1 A)"
    and "represents m x3 (quad m 1 0 A)" and "represents m x4 (quad m 1 1 A)"
proof -
  have "length xs = 4 * 4 ^ m" using assms(1) by (simp add: represents_def)
  from quarter_chunks_eq [OF this] assms(2)
  have "x1 = take (4 ^ m) (drop 0 xs)" "x2 = take (4 ^ m) (drop (4 ^ m) xs)"
    "x3 = take (4 ^ m) (drop (2 * 4 ^ m) xs)" "x4 = take (4 ^ m) (drop (3 * 4 ^ m) xs)" by simp_all
  with represents_chunk [OF assms(1), of 0 0] represents_chunk [OF assms(1), of 0 1]
    represents_chunk [OF assms(1), of 1 0] represents_chunk [OF assms(1), of 1 1]
  show "represents m x1 (quad m 0 0 A)" and "represents m x2 (quad m 0 1 A)"
    and "represents m x3 (quad m 1 0 A)" and "represents m x4 (quad m 1 1 A)" by simp_all
qed

lemma append_represents:
  assumes "represents m x1 (quad m 0 0 A)" and "represents m x2 (quad m 0 1 A)"
    and "represents m x3 (quad m 1 0 A)" and "represents m x4 (quad m 1 1 A)"
  shows "represents (Suc m) (x1 @ x2 @ x3 @ x4) A"
  unfolding represents_def
proof (intro conjI allI impI)
  have len: "length x1 = 4 ^ m" "length x2 = 4 ^ m" "length x3 = 4 ^ m" "length x4 = 4 ^ m"
    using assms by (simp_all add: represents_def)
  then show "length (x1 @ x2 @ x3 @ x4) = 4 ^ Suc m" by simp
  fix i j assume ij: "i < (2::nat) ^ Suc m" "j < (2::nat) ^ Suc m"
  define p r q s where "p = i mod 2 ^ m" and "r = i div 2 ^ m" and "q = j mod 2 ^ m" and "s = j div 2 ^ m"
  have pq: "p < 2 ^ m" "q < 2 ^ m" by (simp_all add: p_def q_def)
  have rs: "r < 2" "s < 2" using ij by (simp_all add: r_def s_def less_mult_imp_div_less)
  have i: "i = p + r * 2 ^ m" and j: "j = q + s * 2 ^ m"
    by (simp_all only: p_def r_def q_def s_def mod_div_mult_eq)
  have z: "zindex p q < 4 ^ m" using pq by (rule zindex_less)
  have "zindex i j = zindex p q + (2 * r + s) * 4 ^ m" unfolding i j using pq rs by (rule zindex_high)
  then show "(x1 @ x2 @ x3 @ x4) ! zindex i j = A i j"
    using rs assms pq z len i j
    by (auto simp: less_2_cases_iff represents_def nth_append quad_def)
qed

lemma rmatsum_represents:
  "represents m x A \<Longrightarrow> represents m d D \<Longrightarrow> represents m (rmatsum x d) (\<lambda>i j. D i j + A i j)"
  by (simp add: represents_def rmatsum_def zindex_less)

lemma rmatsub_represents:
  "represents m x A \<Longrightarrow> represents m d D \<Longrightarrow> represents m (rmatsub x d) (\<lambda>i j. D i j - A i j)"
  by (simp add: represents_def rmatsub_def zindex_less)

lemma represents_cong:
  "represents m xs A \<Longrightarrow> (\<And>i j. i < 2 ^ m \<Longrightarrow> j < 2 ^ m \<Longrightarrow> A i j = A' i j) \<Longrightarrow> represents m xs A'"
  by (simp add: represents_def)

lemma quarter_chunks_length4:
  assumes "length xs = 4 ^ Suc m" and "quarter_chunks xs = (x1, x2, x3, x4)"
  shows "length x1 = 4 ^ m" "length x2 = 4 ^ m" "length x3 = 4 ^ m" "length x4 = 4 ^ m"
  using quarter_chunks_lengths [OF assms(2)] assms(1) by simp_all

lemma small_chunk: "4 ^ m \<le> MULT_CHUNK \<Longrightarrow> m \<le> 15"
proof (rule ccontr)
  assume "4 ^ m \<le> MULT_CHUNK" and "\<not> m \<le> 15"
  then have "(4::nat) ^ 16 \<le> 4 ^ m" by (intro power_increasing) simp_all
  with \<open>4 ^ m \<le> MULT_CHUNK\<close> show False by (simp add: MULT_CHUNK_def)
qed

section \<open>Sums\<close>

lemma foldl_plus:
  fixes f :: "'b \<Rightarrow> 'a::monoid_add"
  shows "foldl (\<lambda>s k. s + f k) x ks = x + foldl (\<lambda>s k. s + f k) 0 ks"
proof (induction ks arbitrary: x)
  case (Cons k ks)
  from Cons [of "x + f k"] Cons [of "0 + f k"] show ?case by (simp add: add.assoc)
qed simp

lemma inner_split:
  fixes A B :: "nat \<Rightarrow> nat \<Rightarrow> 'a::{monoid_add,times}"
  shows "inner (2 ^ Suc m) A B i j =
    inner (2 ^ m) A B i j + inner (2 ^ m) (\<lambda>i k. A i (k + 2 ^ m)) (\<lambda>k j. B (k + 2 ^ m) j) i j"
proof -
  have "[0..<2 ^ Suc m] = [0..<2 ^ m] @ map (\<lambda>k. k + 2 ^ m) [0..<2 ^ m]"
    using upt_add_eq_append [of 0 "2 ^ m" "2 ^ m"] map_add_upt [of "2 ^ m" "2 ^ m"]
    by (simp add: mult_2)
  then show ?thesis
    unfolding inner_def
    by (simp add: foldl_map foldl_plus [where x = "foldl _ _ _"] del: power_Suc upt_Suc)
qed

lemma inner_sum:
  fixes A B :: "nat \<Rightarrow> nat \<Rightarrow> 'a::semiring_0"
  shows "inner n A B i j = (\<Sum>k<n. A i k * B k j)"
  unfolding inner_def by (induction n) simp_all

section \<open>The recursive algorithms\<close>

text \<open>The induction of both algorithms: a leaf is multiplied sequentially, a larger matrix has quadrants.\<close>

lemma recursive_cases:
  assumes leaf: "\<And>m. 4 ^ m \<le> MULT_CHUNK \<Longrightarrow> P m"
    and step: "\<And>m. \<not> 4 ^ Suc m \<le> MULT_CHUNK \<Longrightarrow> P m \<Longrightarrow> P (Suc m)"
  shows "P m"
proof (induction m)
  case 0
  show ?case by (rule leaf) (simp add: MULT_CHUNK_def)
next
  case (Suc m)
  then show ?case using leaf step by (cases "4 ^ Suc m \<le> MULT_CHUNK") blast+
qed

definition multiplies :: "('a::{zero,plus,times} list \<Rightarrow> 'a list \<Rightarrow> 'a list \<Rightarrow> 'a list run) \<Rightarrow> nat \<Rightarrow> bool" where
  "multiplies mul m \<longleftrightarrow> (\<forall>a A b B dest. represents m a A \<longrightarrow> represents m b B \<longrightarrow> length dest = 4 ^ m \<longrightarrow>
     (\<exists>r. mul a b dest = Ok r \<and> represents m r (inner (2 ^ m) A B)))"

lemma multipliesE:
  assumes "multiplies mul m" and "represents m a A" and "represents m b B" and "length dest = 4 ^ m"
  obtains r where "mul a b dest = Ok r" and "represents m r (inner (2 ^ m) A B)"
  using assms unfolding multiplies_def by blast

lemma multiplies_ex:
  "multiplies mul m \<Longrightarrow> represents m a A \<Longrightarrow> represents m b B \<Longrightarrow> length dest = 4 ^ m \<Longrightarrow>
     \<exists>r. mul a b dest = Ok r \<and> represents m r (inner (2 ^ m) A B)"
  unfolding multiplies_def by blast

lemma seq_matmulz_multiplies: "m \<le> 15 \<Longrightarrow> multiplies seq_matmulz m"
  unfolding multiplies_def using seq_matmulz_eq by blast

lemma inner_quads:
  fixes A B :: "nat \<Rightarrow> nat \<Rightarrow> 'a::{monoid_add,times}"
  shows "inner (2 ^ m) (quad m hi 0 A) (quad m 0 hj B) i j + inner (2 ^ m) (quad m hi 1 A) (quad m 1 hj B) i j
    = quad m hi hj (inner (2 ^ Suc m) A B) i j"
  unfolding quad_def inner_split [of m A B "i + hi * 2 ^ m" "j + hj * 2 ^ m"]
  by (rule arg_cong2 [where f = "(+)"]; rule inner_cong; simp)

lemma matmulz_step:
  fixes junk :: "nat \<Rightarrow> 'a::{monoid_add,times}"
  assumes big: "\<not> 4 ^ Suc m \<le> MULT_CHUNK" and IH: "multiplies (matmulz junk) m"
    and a: "represents (Suc m) a A" and b: "represents (Suc m) b B" and d: "length dest = 4 ^ Suc m"
  shows "\<exists>r. matmulz junk a b dest = Ok r \<and> represents (Suc m) r (inner (2 ^ Suc m) A B)"
proof -
  obtain a1 a2 a3 a4 where qa: "quarter_chunks a = (a1, a2, a3, a4)" by (metis prod_cases4)
  obtain b1 b2 b3 b4 where qb: "quarter_chunks b = (b1, b2, b3, b4)" by (metis prod_cases4)
  obtain d1 d2 d3 d4 where qd: "quarter_chunks dest = (d1, d2, d3, d4)" by (metis prod_cases4)
  obtain t1 t2 t3 t4 where qt: "quarter_chunks (raw_buffer junk (length dest)) = (t1, t2, t3, t4)"
    by (metis prod_cases4)
  note ra = quarter_chunks_represents [OF a qa] and rb = quarter_chunks_represents [OF b qb]
  have lt: "length (raw_buffer junk (length dest)) = 4 ^ Suc m" using d by simp
  note ld = quarter_chunks_length4 [OF d qd] and lt = quarter_chunks_length4 [OF lt qt]
  obtain r1 r2 r3 r4 where r:
    "matmulz junk a1 b1 d1 = Ok r1" "represents m r1 (inner (2 ^ m) (quad m 0 0 A) (quad m 0 0 B))"
    "matmulz junk a1 b2 d2 = Ok r2" "represents m r2 (inner (2 ^ m) (quad m 0 0 A) (quad m 0 1 B))"
    "matmulz junk a3 b1 d3 = Ok r3" "represents m r3 (inner (2 ^ m) (quad m 1 0 A) (quad m 0 0 B))"
    "matmulz junk a3 b2 d4 = Ok r4" "represents m r4 (inner (2 ^ m) (quad m 1 0 A) (quad m 0 1 B))"
    using multiplies_ex [OF IH ra(1) rb(1) ld(1)] multiplies_ex [OF IH ra(1) rb(2) ld(2)]
      multiplies_ex [OF IH ra(3) rb(1) ld(3)] multiplies_ex [OF IH ra(3) rb(2) ld(4)] by blast
  obtain s1 s2 s3 s4 where s:
    "matmulz junk a2 b3 t1 = Ok s1" "represents m s1 (inner (2 ^ m) (quad m 0 1 A) (quad m 1 0 B))"
    "matmulz junk a2 b4 t2 = Ok s2" "represents m s2 (inner (2 ^ m) (quad m 0 1 A) (quad m 1 1 B))"
    "matmulz junk a4 b3 t3 = Ok s3" "represents m s3 (inner (2 ^ m) (quad m 1 1 A) (quad m 1 0 B))"
    "matmulz junk a4 b4 t4 = Ok s4" "represents m s4 (inner (2 ^ m) (quad m 1 1 A) (quad m 1 1 B))"
    using multiplies_ex [OF IH ra(2) rb(3) lt(1)] multiplies_ex [OF IH ra(2) rb(4) lt(2)]
      multiplies_ex [OF IH ra(4) rb(3) lt(3)] multiplies_ex [OF IH ra(4) rb(4) lt(4)] by blast
  let ?r = "rmatsum (s1 @ s2 @ s3 @ s4) (r1 @ r2 @ r3 @ r4)"
  have "matmulz junk a b dest = Ok ?r"
    using big represents_length [OF a] qa qb qd qt r(1,3,5,7) s(1,3,5,7)
    by (subst matmulz.simps) (simp add: Let_def del: power_Suc)
  moreover have "?r = rmatsum s1 r1 @ rmatsum s2 r2 @ rmatsum s3 r3 @ rmatsum s4 r4"
    using r(2,4,6,8) s(2,4,6,8) by (simp add: rmatsum_def represents_def)
  moreover have "represents (Suc m) (rmatsum s1 r1 @ rmatsum s2 r2 @ rmatsum s3 r3 @ rmatsum s4 r4)
      (inner (2 ^ Suc m) A B)"
    using rmatsum_represents [OF s(2) r(2)] rmatsum_represents [OF s(4) r(4)]
      rmatsum_represents [OF s(6) r(6)] rmatsum_represents [OF s(8) r(8)]
    unfolding inner_quads by (rule append_represents)
  ultimately show ?thesis by auto
qed

lemma matmulz_multiplies:
  "multiplies (matmulz (junk :: nat \<Rightarrow> 'a::{monoid_add,times})) m"
proof (rule recursive_cases)
  fix m assume "4 ^ m \<le> MULT_CHUNK"
  then show "multiplies (matmulz junk) m"
    using seq_matmulz_multiplies [OF small_chunk, of m]
    by (auto simp: multiplies_def matmulz.simps represents_def)
next
  fix m assume "\<not> 4 ^ Suc m \<le> MULT_CHUNK" and "multiplies (matmulz junk) m"
  then show "multiplies (matmulz junk) (Suc m)"
    unfolding multiplies_def [of _ "Suc m"] using matmulz_step by blast
qed

section \<open>Strassen's algorithm\<close>

lemma strassen_helpers:
  assumes mul: "multiplies mul m" and rep: "represents m a1 A1" "represents m a2 A2"
    "represents m b1 B1" "represents m b2 B2"
  shows strassen_add2_mul_eq: "\<exists>r. strassen_add2_mul mul junk a1 a2 b1 b2 = Ok r \<and>
      represents m r (inner (2 ^ m) (\<lambda>i j. A1 i j + A2 i j) (\<lambda>i j. B1 i j + B2 i j))"
    and strassen_sub_add_mul_eq: "\<exists>r. strassen_sub_add_mul mul junk a1 a2 b1 b2 = Ok r \<and>
      represents m r (inner (2 ^ m) (\<lambda>i j. A1 i j - A2 i j) (\<lambda>i j. B1 i j + B2 i j))"
    and strassen_add_mul_eq: "\<exists>r. strassen_add_mul mul junk a1 a2 b1 = Ok r \<and>
      represents m r (inner (2 ^ m) (\<lambda>i j. A1 i j + A2 i j) B1)"
    and strassen_sub_mul_eq: "\<exists>r. strassen_sub_mul mul junk b1 b2 a1 = Ok r \<and>
      represents m r (inner (2 ^ m) A1 (\<lambda>i j. B1 i j - B2 i j))"
proof -
  note sums = rmatsum_represents [OF rep(2,1)] rmatsum_represents [OF rep(4,3)]
    rmatsub_represents [OF rep(2,1)] rmatsub_represents [OF rep(4,3)]
  have len: "length (raw_buffer junk (length a1)) = 4 ^ m" using rep(1) by (simp add: represents_def)
  show "\<exists>r. strassen_add2_mul mul junk a1 a2 b1 b2 = Ok r \<and>
      represents m r (inner (2 ^ m) (\<lambda>i j. A1 i j + A2 i j) (\<lambda>i j. B1 i j + B2 i j))"
    using multipliesE [OF mul sums(1,2) len] by (auto simp: strassen_add2_mul_def rtmp_eq Let_def)
  show "\<exists>r. strassen_sub_add_mul mul junk a1 a2 b1 b2 = Ok r \<and>
      represents m r (inner (2 ^ m) (\<lambda>i j. A1 i j - A2 i j) (\<lambda>i j. B1 i j + B2 i j))"
    using multipliesE [OF mul sums(3,2) len] by (auto simp: strassen_sub_add_mul_def rtmp_eq Let_def)
  show "\<exists>r. strassen_add_mul mul junk a1 a2 b1 = Ok r \<and>
      represents m r (inner (2 ^ m) (\<lambda>i j. A1 i j + A2 i j) B1)"
    using multipliesE [OF mul sums(1) rep(3) len] by (auto simp: strassen_add_mul_def rtmp_eq Let_def)
  show "\<exists>r. strassen_sub_mul mul junk b1 b2 a1 = Ok r \<and>
      represents m r (inner (2 ^ m) A1 (\<lambda>i j. B1 i j - B2 i j))"
    using multipliesE [OF mul rep(1) sums(4) len] by (auto simp: strassen_sub_mul_def rtmp_eq Let_def)
qed

lemma strassen_sums_eq:
  "length a = length dest \<Longrightarrow> strassen_sum a b dest = Ok (rmatsum b a)"
  "length a = length dest \<Longrightarrow> strassen_sum_sub a b c s dest = Ok (rmatsub s (rmatsum c (rmatsum b a)))"
  by (simp_all add: strassen_sum_def strassen_sum_sub_def rcopy_eq)

text \<open>The identities of Strassen's seven products, for an entry of the result.\<close>

lemma strassen_identities:
  fixes A11 A12 A21 A22 B11 B12 B21 B22 :: "nat \<Rightarrow> nat \<Rightarrow> 'a::ring" and n :: nat
  defines "M1 \<equiv> inner n (\<lambda>i j. A11 i j + A22 i j) (\<lambda>i j. B11 i j + B22 i j)"
    and "M2 \<equiv> inner n (\<lambda>i j. A21 i j + A22 i j) B11"
    and "M3 \<equiv> inner n A11 (\<lambda>i j. B12 i j - B22 i j)"
    and "M4 \<equiv> inner n A22 (\<lambda>i j. B21 i j - B11 i j)"
    and "M5 \<equiv> inner n (\<lambda>i j. A11 i j + A12 i j) B22"
    and "M6 \<equiv> inner n (\<lambda>i j. A21 i j - A11 i j) (\<lambda>i j. B11 i j + B12 i j)"
    and "M7 \<equiv> inner n (\<lambda>i j. A12 i j - A22 i j) (\<lambda>i j. B21 i j + B22 i j)"
  shows "M1 i j + M4 i j + M7 i j - M5 i j = inner n A11 B11 i j + inner n A12 B21 i j"
    and "M3 i j + M5 i j = inner n A11 B12 i j + inner n A12 B22 i j"
    and "M2 i j + M4 i j = inner n A21 B11 i j + inner n A22 B21 i j"
    and "M1 i j + M3 i j + M6 i j - M2 i j = inner n A21 B12 i j + inner n A22 B22 i j"
  unfolding assms inner_sum sum.distrib [symmetric] sum_subtractf [symmetric]
  by (rule sum.cong [OF refl]; simp add: algebra_simps)+

lemma strassen_step:
  fixes junk :: "nat \<Rightarrow> 'a::ring"
  assumes big: "\<not> 4 ^ Suc m \<le> MULT_CHUNK" and IH: "multiplies (matmul_strassen junk) m"
    and a: "represents (Suc m) a A" and b: "represents (Suc m) b B" and d: "length dest = 4 ^ Suc m"
  shows "\<exists>r. matmul_strassen junk a b dest = Ok r \<and> represents (Suc m) r (inner (2 ^ Suc m) A B)"
proof -
  obtain a1 a2 a3 a4 where qa: "quarter_chunks a = (a1, a2, a3, a4)" by (metis prod_cases4)
  obtain b1 b2 b3 b4 where qb: "quarter_chunks b = (b1, b2, b3, b4)" by (metis prod_cases4)
  obtain c1 c2 c3 c4 where qd: "quarter_chunks dest = (c1, c2, c3, c4)" by (metis prod_cases4)
  note ra = quarter_chunks_represents [OF a qa] and rb = quarter_chunks_represents [OF b qb]
  note ld = quarter_chunks_length4 [OF d qd]
  note m1 = strassen_add2_mul_eq [OF IH ra(1,4) rb(1,4), of junk]
    and m2 = strassen_add_mul_eq [OF IH ra(3,4) rb(1,1), of junk]
    and m3 = strassen_sub_mul_eq [OF IH ra(1,1) rb(2,4), of junk]
    and m4 = strassen_sub_mul_eq [OF IH ra(4,4) rb(3,1), of junk]
    and m5 = strassen_add_mul_eq [OF IH ra(1,2) rb(4,4), of junk]
    and m6 = strassen_sub_add_mul_eq [OF IH ra(3,1) rb(1,2), of junk]
    and m7 = strassen_sub_add_mul_eq [OF IH ra(2,4) rb(3,4), of junk]
  from m1 m2 m3 m4 m5 m6 m7 obtain x1 x2 x3 x4 x5 x6 x7 where
    run: "strassen_add2_mul (matmul_strassen junk) junk a1 a4 b1 b4 = Ok x1"
      "strassen_add_mul (matmul_strassen junk) junk a3 a4 b1 = Ok x2"
      "strassen_sub_mul (matmul_strassen junk) junk b2 b4 a1 = Ok x3"
      "strassen_sub_mul (matmul_strassen junk) junk b3 b1 a4 = Ok x4"
      "strassen_add_mul (matmul_strassen junk) junk a1 a2 b4 = Ok x5"
      "strassen_sub_add_mul (matmul_strassen junk) junk a3 a1 b1 b2 = Ok x6"
      "strassen_sub_add_mul (matmul_strassen junk) junk a2 a4 b3 b4 = Ok x7"
    and rx: "represents m x1 (inner (2 ^ m) (\<lambda>i j. quad m 0 0 A i j + quad m 1 1 A i j) (\<lambda>i j. quad m 0 0 B i j + quad m 1 1 B i j))"
      "represents m x2 (inner (2 ^ m) (\<lambda>i j. quad m 1 0 A i j + quad m 1 1 A i j) (quad m 0 0 B))"
      "represents m x3 (inner (2 ^ m) (quad m 0 0 A) (\<lambda>i j. quad m 0 1 B i j - quad m 1 1 B i j))"
      "represents m x4 (inner (2 ^ m) (quad m 1 1 A) (\<lambda>i j. quad m 1 0 B i j - quad m 0 0 B i j))"
      "represents m x5 (inner (2 ^ m) (\<lambda>i j. quad m 0 0 A i j + quad m 0 1 A i j) (quad m 1 1 B))"
      "represents m x6 (inner (2 ^ m) (\<lambda>i j. quad m 1 0 A i j - quad m 0 0 A i j) (\<lambda>i j. quad m 0 0 B i j + quad m 0 1 B i j))"
      "represents m x7 (inner (2 ^ m) (\<lambda>i j. quad m 0 1 A i j - quad m 1 1 A i j) (\<lambda>i j. quad m 1 0 B i j + quad m 1 1 B i j))"
    by auto
  let ?r = "rmatsub x5 (rmatsum x7 (rmatsum x4 x1)) @ rmatsum x5 x3 @ rmatsum x4 x2 @
    rmatsub x2 (rmatsum x6 (rmatsum x3 x1))"
  have "matmul_strassen junk a b dest = Ok ?r"
    using big represents_length [OF a] qa qb qd run ld rx [THEN represents_length]
    by (subst matmul_strassen.simps) (simp add: strassen_sums_eq del: power_Suc)
  moreover have "represents (Suc m) ?r (inner (2 ^ Suc m) A B)"
    using rmatsub_represents [OF rx(5) rmatsum_represents [OF rx(7) rmatsum_represents [OF rx(4,1)]]]
      rmatsum_represents [OF rx(5,3)] rmatsum_represents [OF rx(4,2)]
      rmatsub_represents [OF rx(2) rmatsum_represents [OF rx(6) rmatsum_represents [OF rx(3,1)]]]
    unfolding strassen_identities inner_quads by (rule append_represents)
  ultimately show ?thesis by blast
qed

lemma matmul_strassen_multiplies:
  "multiplies (matmul_strassen (junk :: nat \<Rightarrow> 'a::ring)) m"
proof (rule recursive_cases)
  fix m assume "4 ^ m \<le> MULT_CHUNK"
  then show "multiplies (matmul_strassen junk) m"
    using seq_matmulz_multiplies [OF small_chunk, of m]
    by (auto simp: multiplies_def matmul_strassen.simps represents_def)
next
  fix m assume "\<not> 4 ^ Suc m \<le> MULT_CHUNK" and "multiplies (matmul_strassen junk) m"
  then show "multiplies (matmul_strassen junk) (Suc m)"
    unfolding multiplies_def [of _ "Suc m"] using strassen_step by blast
qed

section \<open>What a caller relies on\<close>

lemma inner_assoc:
  fixes A B C :: "nat \<Rightarrow> nat \<Rightarrow> 'a::semiring_0"
  shows "inner n (inner n A B) C i j = inner n A (inner n B C) i j"
proof -
  have "inner n (inner n A B) C i j = (\<Sum>k<n. \<Sum>l<n. A i l * B l k * C k j)"
    by (simp add: inner_sum sum_distrib_right)
  also have "\<dots> = (\<Sum>l<n. \<Sum>k<n. A i l * B l k * C k j)" by (rule sum.swap)
  also have "\<dots> = inner n A (inner n B C) i j"
    by (simp add: inner_sum sum_distrib_left mult.assoc)
  finally show ?thesis .
qed

locale zorder_multiplier =
  fixes mul :: "'a::ring list \<Rightarrow> 'a list \<Rightarrow> 'a list \<Rightarrow> 'a list run"
    and sizes :: "nat \<Rightarrow> bool"
  assumes mul_multiplies: "sizes m \<Longrightarrow> multiplies mul m"
begin

lemma mul_entries:
  assumes "sizes m" and "length a = 4 ^ m" and "length b = 4 ^ m" and "length dest = 4 ^ m"
  shows "\<exists>r. mul a b dest = Ok r \<and> represents m r (inner (2 ^ m) (entry_of a) (entry_of b))"
  using multiplies_ex [OF mul_multiplies represents_entry_of represents_entry_of] assms by blast

text \<open>The previous contents of the destination does not matter, and any other multiplication agrees.\<close>

lemma mul_unique:
  assumes "sizes m" and "length a = 4 ^ m" and "length b = 4 ^ m" and "length dest = 4 ^ m"
    and "length dest' = 4 ^ m" and "multiplies mul' m"
  shows "mul a b dest = mul' a b dest'"
proof -
  obtain r where "mul a b dest = Ok r" "represents m r (inner (2 ^ m) (entry_of a) (entry_of b))"
    using mul_entries [OF assms(1-4)] by blast
  moreover obtain r' where "mul' a b dest' = Ok r'" "represents m r' (inner (2 ^ m) (entry_of a) (entry_of b))"
    using multiplies_ex [OF assms(6) represents_entry_of represents_entry_of] assms(2,3,5) by blast
  ultimately show ?thesis using represents_unique by metis
qed

lemma mul_assoc:
  assumes "sizes m" and "length a = 4 ^ m" and "length b = 4 ^ m" and "length c = 4 ^ m"
    and "length d1 = 4 ^ m" and "length d2 = 4 ^ m" and "length d3 = 4 ^ m" and "length d4 = 4 ^ m"
  shows "rbind (mul a b d1) (\<lambda>ab. mul ab c d2) = rbind (mul b c d3) (\<lambda>bc. mul a bc d4)"
proof -
  note mm = mul_multiplies [OF assms(1)] and ra = represents_entry_of [OF assms(2)]
    and rb = represents_entry_of [OF assms(3)] and rc = represents_entry_of [OF assms(4)]
  obtain ab where ab: "mul a b d1 = Ok ab" "represents m ab (inner (2 ^ m) (entry_of a) (entry_of b))"
    by (rule multipliesE [OF mm ra rb assms(5)])
  obtain bc where bc: "mul b c d3 = Ok bc" "represents m bc (inner (2 ^ m) (entry_of b) (entry_of c))"
    by (rule multipliesE [OF mm rb rc assms(7)])
  obtain x where x: "mul ab c d2 = Ok x"
    "represents m x (inner (2 ^ m) (inner (2 ^ m) (entry_of a) (entry_of b)) (entry_of c))"
    by (rule multipliesE [OF mm ab(2) rc assms(6)])
  obtain y where y: "mul a bc d4 = Ok y"
    "represents m y (inner (2 ^ m) (entry_of a) (inner (2 ^ m) (entry_of b) (entry_of c)))"
    by (rule multipliesE [OF mm ra bc(2) assms(8)])
  have "represents m x (inner (2 ^ m) (entry_of a) (inner (2 ^ m) (entry_of b) (entry_of c)))"
    using x(2) by (rule represents_cong) (rule inner_assoc)
  with y(2) have "x = y" using represents_unique by blast
  with ab(1) bc(1) x(1) y(1) show ?thesis by simp
qed

end

interpretation seqz: zorder_multiplier seq_matmulz "\<lambda>m. m \<le> 15"
  by unfold_locales (rule seq_matmulz_multiplies)

interpretation recz: zorder_multiplier "matmulz junk" "\<lambda>m. True" for junk
  by unfold_locales (rule matmulz_multiplies)

interpretation strassen: zorder_multiplier "matmul_strassen junk" "\<lambda>m. True" for junk
  by unfold_locales (rule matmul_strassen_multiplies)

section \<open>Properties\<close>

lemma count_ones_zero: "count_ones_bits k x = 0 \<Longrightarrow> x < 2 ^ k \<Longrightarrow> x = 0"
proof (induction k arbitrary: x)
  case (Suc k)
  then have "x div 2 = 0" and "x mod 2 = 0" by auto
  then show ?case by (metis mult_div_mod_eq mult_0_right add_0)
qed simp

lemma count_ones_one: "count_ones_bits k x = 1 \<Longrightarrow> x < 2 ^ k \<Longrightarrow> \<exists>p < k. x = 2 ^ p"
proof (induction k arbitrary: x)
  case (Suc k)
  have lt: "x div 2 < 2 ^ k" using Suc.prems(2) by auto
  show ?case
  proof (cases "odd x")
    case True
    then have "count_ones_bits k (x div 2) = 0" using Suc.prems(1) by (simp add: odd_iff_mod_2_eq_one)
    then have "x div 2 = 0" using lt by (rule count_ones_zero)
    moreover have "x = 2 * (x div 2) + x mod 2" by simp
    ultimately have "x = 2 ^ 0" using True by (simp add: odd_iff_mod_2_eq_one)
    then show ?thesis by blast
  next
    case False
    then have "count_ones_bits k (x div 2) = 1" using Suc.prems(1) by (simp add: even_iff_mod_2_eq_zero)
    from Suc.IH [OF this lt] obtain p where "p < k" and "x div 2 = 2 ^ p" by blast
    with False have "Suc p < Suc k" and "x = 2 ^ Suc p" by auto
    then show ?thesis by blast
  qed
qed simp

lemma square_power_of_two_is_4:
  assumes "square_power_of_two n" and "n < 2 ^ 32"
  shows "\<exists>m \<le> 15. n = 4 ^ m"
proof -
  have "n < 2 ^ 64" using assms(2) by (rule less_le_trans) simp
  then obtain p where p: "p < 64" "n = 2 ^ p"
    using assms(1) count_ones_one [of 64 n] by (auto simp: square_power_of_two_def)
  then have "even p" using assms(1) by (auto simp: square_power_of_two_def even_iff_mod_2_eq_zero)
  then obtain m where m: "p = 2 * m" by blast
  have "(2::nat) ^ p < 2 ^ 32" using p assms(2) by simp
  then have "p < 32" by (simp only: power_strict_increasing_iff one_less_numeral_iff semiring_norm)
  with p m show ?thesis by (auto simp: four_as_two)
qed

text \<open>
  C19: \<open>seq_matmulz\<close> multiplies. For any element type, without a law of arithmetic, every entry of the
  result is the sum over \<open>k\<close>, from the left and starting with zero, of the products \<open>a[i,k] * b[k,j]\<close> of
  the matrices that the slices hold in Z-order; the old contents of the destination does not matter.
\<close>
theorem seq_matmulz_correct:
  fixes a b dest :: "'a::{zero,plus,times} list"
  assumes "m \<le> 15" and "length a = 4 ^ m" and "length b = 4 ^ m" and "length dest = 4 ^ m"
  shows "\<exists>r. seq_matmulz a b dest = Ok r \<and> length r = 4 ^ m \<and>
    (\<forall>i < 2 ^ m. \<forall>j < 2 ^ m. r ! zindex i j =
       foldl (\<lambda>s k. s + a ! zindex i k * b ! zindex k j) 0 [0..<2 ^ m])"
  using seq_matmulz_eq [OF assms(1) represents_entry_of [OF assms(2)] represents_entry_of [OF assms(3)] assms(4)]
  by (auto simp: represents_def inner_def entry_of_def)

theorem seq_matmulz_correct_witness:
  "seq_matmulz [1, 2, 3, 4] [5, 6, 7, 8] [9, 9, 9, 9] = Ok [19, 22, 43, 50 :: int]"
proof -
  obtain r where r: "seq_matmulz [1, 2, 3, 4] [5, 6, 7, 8] [9, 9, 9, 9 :: int] = Ok r" "length r = 4"
    "\<forall>i < 2. \<forall>j < 2. r ! zindex i j =
       foldl (\<lambda>s k. s + [1, 2, 3, 4] ! zindex i k * [5, 6, 7, 8] ! zindex k j) 0 [0..<2]"
    using seq_matmulz_correct [of 1 "[1, 2, 3, 4]" "[5, 6, 7, 8]" "[9, 9, 9, 9 :: int]"] by auto
  have z: "zindex 0 0 = 0" "zindex 0 1 = 1" "zindex 1 0 = 2" "zindex 1 1 = 3"
    by (simp_all add: zindex_def spread.simps)
  have "r = [r ! 0, r ! 1, r ! 2, r ! 3]"
    using r(2) by (auto simp: list_eq_iff_nth_eq less_Suc_eq numeral_eq_Suc)
  also have "\<dots> = [19, 22, 43, 50]"
    using r(3) [rule_format, of 0 0] r(3) [rule_format, of 0 1] r(3) [rule_format, of 1 0]
      r(3) [rule_format, of 1 1] z by (simp add: upt_rec)
  finally show ?thesis using r(1) by simp
qed

text \<open>
  C11: the unchecked accesses of \<open>seq_matmulz\<close> are safe. On any three slices with fewer than \<open>2 ^ 32\<close>
  elements the function returns or fails an assertion: no index passed to \<open>get_unchecked\<close> is out of
  bounds and every loop ends.
\<close>
theorem seq_matmulz_memory_safe:
  fixes a b dest :: "'a::{zero,plus,times} list"
  assumes "length a < 2 ^ 32"
  shows "(\<exists>r. seq_matmulz a b dest = Ok r) \<or> seq_matmulz a b dest = Err (PanicFault ''assertion failed'')"
proof (cases "length a = length b \<and> length a = length dest \<and> square_power_of_two (length a)")
  case True
  then obtain m where "m \<le> 15" "length a = 4 ^ m" using square_power_of_two_is_4 assms by blast
  with True seq_matmulz_eq [of m a _ b _ dest] represents_entry_of show ?thesis by metis
next
  case False
  then show ?thesis by (auto simp: seq_matmulz_def)
qed

theorem seq_matmulz_memory_safe_witness:
  "seq_matmulz [1, 2, 3 :: int] [1] [] = Err (PanicFault ''assertion failed'')"
proof -
  have "seq_matmulz [1, 2, 3 :: int] [1] [] \<noteq> Ok r" for r by (simp add: seq_matmulz_def)
  then show ?thesis using seq_matmulz_memory_safe [of "[1, 2, 3 :: int]" "[1]" "[]"] by simp
qed

text \<open>
  C15: the layouts do not matter. \<open>seq_matmul\<close> on the row-major layout and \<open>seq_matmulz\<close> on the Z-order
  layout of the same matrices return the two layouts of one and the same product, for any element type:
  both add the same terms in the same order, so they agree exactly also on floating-point numbers.
\<close>
theorem seq_matmul_agrees_with_seq_matmulz:
  fixes A B :: "nat \<Rightarrow> nat \<Rightarrow> 'a::{zero,plus,times}"
  assumes "m \<le> 15" and "row_major m a A" and "row_major m b B" and "length dest = 4 ^ m"
    and "represents m az A" and "represents m bz B" and "length destz = 4 ^ m"
  shows "\<exists>r rz P. seq_matmul a b dest = Ok r \<and> seq_matmulz az bz destz = Ok rz \<and>
    row_major m r P \<and> represents m rz P"
proof -
  from seq_matmul_eq [OF _ assms(2,3,4)] assms(1) obtain r
    where "seq_matmul a b dest = Ok r" and "row_major m r (inner (2 ^ m) A B)" by auto
  moreover from seq_matmulz_eq [OF assms(1,5,6,7)] obtain rz
    where "seq_matmulz az bz destz = Ok rz" and "represents m rz (inner (2 ^ m) A B)" by blast
  ultimately show ?thesis by blast
qed

theorem seq_matmul_agrees_with_seq_matmulz_witness:
  "\<exists>r rz P. seq_matmul [2] [3] [0] = Ok r \<and> seq_matmulz [2] [3] [0 :: int] = Ok rz \<and>
    row_major 0 r P \<and> represents 0 rz P"
  by (rule seq_matmul_agrees_with_seq_matmulz [of 0 "[2]" "\<lambda>_ _. 2" "[3]" "\<lambda>_ _. 3"])
    (simp_all add: row_major_def represents_def zindex_def)

text \<open>
  C14: \<open>matmulz\<close> refines \<open>seq_matmulz\<close>. Where addition is associative with neutral element zero, the
  parallel recursive multiplication returns, for every size, the product that the sequential loops
  compute, whatever the uninitialised buffers contain; up to \<open>2 ^ 15\<close> rows it is equal to a call of
  \<open>seq_matmulz\<close>.
\<close>
theorem matmulz_refines_seq_matmulz:
  fixes a b :: "'a::{monoid_add,times} list"
  assumes "length a = 4 ^ m" and "length b = 4 ^ m" and "length dest = 4 ^ m"
  shows "\<exists>r. matmulz junk a b dest = Ok r \<and>
    represents m r (inner (2 ^ m) (entry_of a) (entry_of b)) \<and>
    (m \<le> 15 \<longrightarrow> seq_matmulz a b dest = Ok r)"
proof -
  obtain r where r: "matmulz junk a b dest = Ok r"
    "represents m r (inner (2 ^ m) (entry_of a) (entry_of b))"
    using multiplies_ex [OF matmulz_multiplies represents_entry_of represents_entry_of] assms by blast
  moreover have "seq_matmulz a b dest = Ok r" if "m \<le> 15"
    using seq_matmulz_eq [OF that represents_entry_of represents_entry_of] assms r(2)
      represents_unique by metis
  ultimately show ?thesis by blast
qed

theorem matmulz_refines_seq_matmulz_witness:
  "\<exists>r. matmulz (\<lambda>_. 17) [1, 2, 3, 4] [5, 6, 7, 8] [0, 0, 0, 0 :: int] = Ok r \<and>
    seq_matmulz [1, 2, 3, 4] [5, 6, 7, 8] [0, 0, 0, 0] = Ok r"
  using matmulz_refines_seq_matmulz [of "[1, 2, 3, 4 :: int]" 1 "[5, 6, 7, 8]" "[0, 0, 0, 0]" "\<lambda>_. 17"]
  by auto

text \<open>
  C1: Strassen's algorithm is correct. Over a ring, for every size, \<open>matmul_strassen\<close> and \<open>matmulz\<close> return
  the same slice, independent of the old contents of the destinations and of the uninitialised buffers,
  and each entry is \<open>sum for all k A[i,k] * B[k,j]\<close>.
\<close>
theorem matmul_strassen_correct:
  fixes a b :: "'a::ring list"
  assumes "length a = 4 ^ m" and "length b = 4 ^ m" and "length dest = 4 ^ m" and "length dest' = 4 ^ m"
  shows "\<exists>r. matmul_strassen junk a b dest = Ok r \<and> matmulz junk' a b dest' = Ok r \<and> length r = 4 ^ m \<and>
    (\<forall>i < 2 ^ m. \<forall>j < 2 ^ m. r ! zindex i j = (\<Sum>k < 2 ^ m. a ! zindex i k * b ! zindex k j))"
proof -
  obtain r where r: "matmul_strassen junk a b dest = Ok r"
    "represents m r (inner (2 ^ m) (entry_of a) (entry_of b))"
    using strassen.mul_entries [OF _ assms(1-3)] by blast
  moreover have "matmul_strassen junk a b dest = matmulz junk' a b dest'"
    using strassen.mul_unique [OF _ assms matmulz_multiplies] by simp
  ultimately show ?thesis by (auto simp: represents_def inner_sum entry_of_def)
qed

theorem matmul_strassen_correct_witness:
  "\<exists>r. matmul_strassen (\<lambda>_. 0) (replicate (4 ^ 6) 1) (replicate (4 ^ 6) 2) (replicate (4 ^ 6) 0) = Ok r \<and>
     r ! zindex 3 5 = (128 :: int)"
proof -
  have "zindex i k < 4096" if "i < 64" "k < 64" for i k
    using zindex_less [of i 6 k] that by simp
  then show ?thesis
    using matmul_strassen_correct [of "replicate (4 ^ 6) (1::int)" 6 "replicate (4 ^ 6) 2"
      "replicate (4 ^ 6) 0" "replicate (4 ^ 6) 0" "\<lambda>_. 0" "\<lambda>_. 0"] by fastforce
qed

text \<open>
  over a ring the results compose as matrices do: multiplying by Strassen's algorithm is associative,
  for every size and whatever the destinations hold.
\<close>
theorem matmul_strassen_assoc:
  fixes a b c :: "'a::ring list"
  assumes "length a = 4 ^ m" and "length b = 4 ^ m" and "length c = 4 ^ m"
    and "length d1 = 4 ^ m" and "length d2 = 4 ^ m" and "length d3 = 4 ^ m" and "length d4 = 4 ^ m"
  shows "rbind (matmul_strassen junk a b d1) (\<lambda>ab. matmul_strassen junk ab c d2)
    = rbind (matmul_strassen junk b c d3) (\<lambda>bc. matmul_strassen junk a bc d4)"
  by (rule strassen.mul_assoc [OF TrueI assms])

theorem matmul_strassen_assoc_witness:
  "rbind (matmul_strassen (\<lambda>_. 0) [1, 2, 3, 4] [5, 6, 7, 8] [0, 0, 0, 0]) (\<lambda>ab. matmul_strassen (\<lambda>_. 0) ab [0, 1, 1, 0] [0, 0, 0, 0])
    = rbind (matmul_strassen (\<lambda>_. 0) [5, 6, 7, 8] [0, 1, 1, 0] [0, 0, 0, 0]) (\<lambda>bc. matmul_strassen (\<lambda>_. 0) [1, 2, 3, 4 :: int] bc [0, 0, 0, 0])"
  by (rule matmul_strassen_assoc [where m = 1]) simp_all

end
