(* ===== verification/Tcp_Stream.thy ===== *)
theory Tcp_Stream
  imports Tcp_Syscalls
begin

text \<open>
  What a TCP connection promises to the application, as an abstract machine over two byte queues
  (\<open>byte_stream\<close>), and the proof that the sockets, the network task and the system calls implement it.

  A view \<open>v\<close> of the sockets of the stack gives the bytes a socket has received and not yet handed over
  and the bytes it has accepted and not yet retired. \<open>socket_step\<close> is one operation of the crate, by
  whatever thread, on whatever socket, labelled with what happens on the socket \<open>h\<close>: a poll of a future,
  or one of the sections under the lock of the interface that a poll of \<open>connect\<close>, \<open>accept\<close> or \<open>close\<close>
  is made of, so that the runs of \<open>socket_step\<close> contain every order in which threads can take the lock.
  The label of an operation on another socket is empty; that the socket \<open>h\<close> is then unchanged is what the
  simulation proves. Every step is a step of the abstract machine, and \<open>sys_tcp_stream_read\<close> and
  \<open>sys_tcp_stream_write\<close> are runs whose only visible event is the one they report, with anything the
  other threads and the network do meanwhile (\<open>executor_laws\<close>), short of reading or writing the same
  connection.
\<close>

section \<open>The abstract machine\<close>

record byte_stream =
  unread :: "u8 list"
  unsent :: "u8 list"

definition empty_stream :: byte_stream where
  "empty_stream = \<lparr>unread = [], unsent = []\<rparr>"

text \<open>
  \<open>Read\<close> and \<open>Written\<close> are the events the application sees. \<open>Delivered\<close> and \<open>Retired\<close> are the work of
  the stack: bytes arrive, bytes leave the send buffer from the front. \<open>Restarted\<close> is a connection
  that begins or is torn down, its buffers empty.
\<close>

datatype stream_event =
    Read "u8 list"
  | Written "u8 list"
  | Delivered "u8 list"
  | Retired nat
  | Restarted

fun stream_apply :: "stream_event \<Rightarrow> byte_stream \<Rightarrow> byte_stream option" where
  "stream_apply (Read bs) q =
     (if take (length bs) (unread q) = bs
      then Some (q\<lparr>unread := drop (length bs) (unread q)\<rparr>) else None)"
| "stream_apply (Written bs) q = Some (q\<lparr>unsent := unsent q @ bs\<rparr>)"
| "stream_apply (Delivered bs) q = Some (q\<lparr>unread := unread q @ bs\<rparr>)"
| "stream_apply (Retired n) q =
     (if n \<le> length (unsent q) then Some (q\<lparr>unsent := drop n (unsent q)\<rparr>) else None)"
| "stream_apply Restarted q = Some empty_stream"

fun stream_run :: "stream_event list \<Rightarrow> byte_stream \<Rightarrow> byte_stream option" where
  "stream_run [] q = Some q"
| "stream_run (e # es) q = Option.bind (stream_apply e q) (stream_run es)"

definition reads :: "stream_event list \<Rightarrow> u8 list" where
  "reads es = concat (map (\<lambda>e. case e of Read bs \<Rightarrow> bs | _ \<Rightarrow> []) es)"

definition writes :: "stream_event list \<Rightarrow> u8 list" where
  "writes es = concat (map (\<lambda>e. case e of Written bs \<Rightarrow> bs | _ \<Rightarrow> []) es)"

definition deliveries :: "stream_event list \<Rightarrow> u8 list" where
  "deliveries es = concat (map (\<lambda>e. case e of Delivered bs \<Rightarrow> bs | _ \<Rightarrow> []) es)"

definition retired :: "stream_event list \<Rightarrow> nat" where
  "retired es = sum_list (map (\<lambda>e. case e of Retired n \<Rightarrow> n | _ \<Rightarrow> 0) es)"

lemma trace_simps [simp]:
  "reads [] = []" "writes [] = []" "deliveries [] = []" "retired [] = 0"
  "reads (e # es) = (case e of Read bs \<Rightarrow> bs @ reads es | _ \<Rightarrow> reads es)"
  "writes (e # es) = (case e of Written bs \<Rightarrow> bs @ writes es | _ \<Rightarrow> writes es)"
  "deliveries (e # es) = (case e of Delivered bs \<Rightarrow> bs @ deliveries es | _ \<Rightarrow> deliveries es)"
  "retired (e # es) = (case e of Retired n \<Rightarrow> n + retired es | _ \<Rightarrow> retired es)"
  by (auto simp: reads_def writes_def deliveries_def retired_def split: stream_event.split)

lemma trace_append [simp]:
  "reads (es @ fs) = reads es @ reads fs" "writes (es @ fs) = writes es @ writes fs"
  by (simp_all add: reads_def writes_def)

lemma stream_run_append:
  "stream_run (es @ fs) q = Option.bind (stream_run es q) (stream_run fs)"
proof (induction es arbitrary: q)
  case (Cons e es)
  then show ?case by (cases "stream_apply e q") simp_all
qed simp

text \<open>First in, first out, in both directions.\<close>

lemma stream_run_fifo:
  assumes "stream_run es q = Some q'" and "Restarted \<notin> set es"
  shows "unread q @ deliveries es = reads es @ unread q' \<and>
    unsent q' = drop (retired es) (unsent q @ writes es) \<and>
    retired es \<le> length (unsent q @ writes es)"
  using assms
proof (induction es arbitrary: q)
  case (Cons e es)
  then obtain q1 where e: "stream_apply e q = Some q1" and "stream_run es q1 = Some q'"
    by (auto simp: bind_eq_Some_conv)
  with Cons have IH: "unread q1 @ deliveries es = reads es @ unread q'"
    "unsent q' = drop (retired es) (unsent q1 @ writes es)"
    "retired es \<le> length (unsent q1 @ writes es)" by auto
  show ?case
  proof (cases e)
    case (Read bs)
    with e have "unread q = bs @ unread q1" and "unsent q1 = unsent q"
      by (auto split: if_splits) (metis append_take_drop_id)
    with Read IH show ?thesis by simp
  next
    case (Retired n)
    with e have "n \<le> length (unsent q)" and "q1 = q\<lparr>unsent := drop n (unsent q)\<rparr>"
      by (auto split: if_splits)
    with Retired IH show ?thesis by (auto simp: add.commute)
  qed (use e IH Cons.prems(2) in auto)
qed simp

section \<open>What the theorems rely on of the stack\<close>

text \<open>
  What the stack does to a socket in the background: it appends bytes that arrived and drops bytes of
  the send buffer from the front; a socket in state \<open>Closed\<close> it leaves alone, and when it closes one
  for good it may clear both buffers (the end of \<open>TimeWait\<close>).
\<close>

definition net_change :: "('ifc, 'set, 'sock, 'dhcp) smoltcp \<Rightarrow> ('sock \<Rightarrow> byte_stream) \<Rightarrow>
    'sock \<Rightarrow> 'sock \<Rightarrow> bool" where
  "net_change api v s s' \<longleftrightarrow>
     (TcpSocket_state api s = Closed \<and> TcpSocket_state api s' = Closed \<and> v s' = v s) \<or>
     (TcpSocket_state api s \<noteq> Closed \<and>
        ((\<exists>d n. unread (v s') = unread (v s) @ d \<and> unsent (v s') = drop n (unsent (v s))) \<or>
         (TcpSocket_state api s' = Closed \<and> v s' = empty_stream)))"

lemma net_change_refl [simp]: "net_change api v s s"
  unfolding net_change_def by (metis append_Nil2 drop0)

lemma net_change_trans:
  assumes "net_change api v s s'" and "net_change api v s' s''"
  shows "net_change api v s s''"
  using assms unfolding net_change_def
  by (elim disjE conjE exE) (simp_all, metis drop_drop, metis)

text \<open>
  A socket that reports \<open>can_recv\<close> has something to read, and one that may not receive any more has
  handed over everything.
\<close>

definition receive_laws :: "('ifc, 'set, 'sock, 'dhcp) smoltcp \<Rightarrow> ('sock \<Rightarrow> byte_stream) \<Rightarrow> bool" where
  "receive_laws api v \<longleftrightarrow>
     (\<forall>s. TcpSocket_can_recv api s \<longrightarrow> unread (v s) \<noteq> []) \<and>
     (\<forall>s. \<not> TcpSocket_may_recv api s \<longrightarrow> unread (v s) = [])"

text \<open>
  \<open>recv_slice\<close> hands over as much as fits from the front of what is unread, \<open>send_slice\<close> queues a prefix
  of what it is given and reports its length, \<open>connect\<close> and \<open>listen\<close> clear the buffers when they
  succeed, and the other operations of a socket leave both buffers alone.
\<close>

definition transfer_laws :: "('ifc, 'set, 'sock, 'dhcp) smoltcp \<Rightarrow> ('sock \<Rightarrow> byte_stream) \<Rightarrow> bool" where
  "transfer_laws api v \<longleftrightarrow>
     (\<forall>n s r s' ws. TcpSocket_recv_slice api n s = (r, s', ws) \<longrightarrow>
        (case r of Ok bs \<Rightarrow> bs = take n (unread (v s)) \<and>
             v s' = (v s)\<lparr>unread := drop n (unread (v s))\<rparr>
         | Err e \<Rightarrow> v s' = v s)) \<and>
     (\<forall>bs s r s' ws. TcpSocket_send_slice api bs s = (r, s', ws) \<longrightarrow>
        (case r of Ok n \<Rightarrow> n \<le> length bs \<and> v s' = (v s)\<lparr>unsent := unsent (v s) @ take n bs\<rparr>
         | Err e \<Rightarrow> v s' = v s))"

definition control_laws :: "('ifc, 'set, 'sock, 'dhcp) smoltcp \<Rightarrow> ('sock \<Rightarrow> byte_stream) \<Rightarrow> bool" where
  "control_laws api v \<longleftrightarrow>
     (\<forall>s u s' ws. TcpSocket_close api s = (u, s', ws) \<longrightarrow> v s' = v s) \<and>
     (\<forall>cx s u s' ws. TcpSocket_register_send_waker api cx s = (u, s', ws) \<longrightarrow> v s' = v s) \<and>
     (\<forall>cx s u s' ws. TcpSocket_register_recv_waker api cx s = (u, s', ws) \<longrightarrow> v s' = v s) \<and>
     (\<forall>d s. v (TcpSocket_set_keep_alive api d s) = v s)"

definition open_laws :: "('ifc, 'set, 'sock, 'dhcp) smoltcp \<Rightarrow> ('sock \<Rightarrow> byte_stream) \<Rightarrow> bool" where
  "open_laws api v \<longleftrightarrow>
     (\<forall>remote port s r s' ws. TcpSocket_connect api remote port s = (r, s', ws) \<longrightarrow>
        v s' = (if is_ok r then empty_stream else v s)) \<and>
     (\<forall>port s r s' ws. TcpSocket_listen api port s = (r, s', ws) \<longrightarrow>
        v s' = (if is_ok r then empty_stream else v s))"

definition network_laws :: "('ifc, 'set, 'sock, 'dhcp) smoltcp \<Rightarrow> ('sock \<Rightarrow> byte_stream) \<Rightarrow> bool" where
  "network_laws api v \<longleftrightarrow>
     (\<forall>ts ifc ss r ifc' ss' ws h s. Iface_poll api ts ifc ss = (r, ifc', ss', ws) \<longrightarrow>
        SocketSet_get api ss h = Some s \<longrightarrow>
        (\<exists>s'. SocketSet_get api ss' h = Some s' \<and> net_change api v s s')) \<and>
     (\<forall>ts d ifc ss r d' ifc' ss' ws h s. Dhcp_poll api ts d ifc ss = (r, d', ifc', ss', ws) \<longrightarrow>
        SocketSet_get api ss h = Some s \<longrightarrow>
        (\<exists>s'. SocketSet_get api ss' h = Some s' \<and> net_change api v s s'))"

definition stream_laws :: "('ifc, 'set, 'sock, 'dhcp) smoltcp \<Rightarrow> ('sock \<Rightarrow> byte_stream) \<Rightarrow> bool" where
  "stream_laws api v \<longleftrightarrow> socket_set_laws api \<and>
     transfer_laws api v \<and> control_laws api v \<and> open_laws api v \<and> network_laws api v"

lemma transfer_laws_cases:
  assumes "transfer_laws api v"
  shows "TcpSocket_recv_slice api n s = (r, s', ws) \<Longrightarrow>
      case r of Ok bs \<Rightarrow> bs = take n (unread (v s)) \<and>
          v s' = (v s)\<lparr>unread := drop n (unread (v s))\<rparr>
        | Err e \<Rightarrow> v s' = v s"
    and "TcpSocket_send_slice api cs s = (q, s', ws) \<Longrightarrow>
      case q of Ok m \<Rightarrow> m \<le> length cs \<and> v s' = (v s)\<lparr>unsent := unsent (v s) @ take m cs\<rparr>
        | Err e \<Rightarrow> v s' = v s"
  using assms unfolding transfer_laws_def by blast+

lemma transfer_lawsD:
  assumes "transfer_laws api v"
  shows "TcpSocket_recv_slice api n s = (Ok bs, s', ws) \<Longrightarrow>
      bs = take n (unread (v s)) \<and> v s' = (v s)\<lparr>unread := drop n (unread (v s))\<rparr>"
    and "TcpSocket_recv_slice api n s = (Err e, s', ws) \<Longrightarrow> v s' = v s"
    and "TcpSocket_send_slice api cs s = (Ok m, s', ws) \<Longrightarrow>
      m \<le> length cs \<and> v s' = (v s)\<lparr>unsent := unsent (v s) @ take m cs\<rparr>"
    and "TcpSocket_send_slice api cs s = (Err e, s', ws) \<Longrightarrow> v s' = v s"
  by (drule transfer_laws_cases [OF assms], simp)+

lemma control_lawsD:
  assumes "control_laws api v"
  shows "TcpSocket_close api s = (u, s', ws) \<Longrightarrow> v s' = v s"
    and "TcpSocket_register_send_waker api cx s = (u, s', ws) \<Longrightarrow> v s' = v s"
    and "TcpSocket_register_recv_waker api cx s = (u, s', ws) \<Longrightarrow> v s' = v s"
    and "v (TcpSocket_set_keep_alive api d s) = v s"
  using assms unfolding control_laws_def by blast+

lemma open_lawsD:
  assumes "open_laws api v"
  shows "TcpSocket_connect api remote port s = (r, s', ws) \<Longrightarrow>
      v s' = (if is_ok r then empty_stream else v s)"
    and "TcpSocket_listen api port s = (r, s', ws) \<Longrightarrow>
      v s' = (if is_ok r then empty_stream else v s)"
  using assms unfolding open_laws_def by blast+

lemma network_lawsD:
  assumes "network_laws api v" and "SocketSet_get api ss h = Some s"
  shows "Iface_poll api ts ifc ss = (r, ifc', ss', ws) \<Longrightarrow>
      \<exists>s'. SocketSet_get api ss' h = Some s' \<and> net_change api v s s'"
    and "Dhcp_poll api ts d ifc ss = (x, d', ifc', ss', ws) \<Longrightarrow>
      \<exists>s'. SocketSet_get api ss' h = Some s' \<and> net_change api v s s'"
  using assms unfolding network_laws_def by blast+

section \<open>One atomic operation of the crate\<close>

text \<open>The view of the socket \<open>h\<close> in a world, when the interface has one.\<close>

definition stream_of :: "('ifc, 'set, 'sock, 'dhcp) smoltcp \<Rightarrow> ('sock \<Rightarrow> byte_stream) \<Rightarrow> Handle \<Rightarrow>
    ('ifc, 'set, 'dhcp, 'x) world_scheme \<Rightarrow> byte_stream option" where
  "stream_of api v h w =
     (case nic_state w of
        Initialized nic \<Rightarrow> map_option v (SocketSet_get api (sockets nic) h)
      | _ \<Rightarrow> None)"

text \<open>The labels of the steps: what the caller of \<open>read\<close> and \<open>write\<close> is told, and how the buffers changed.\<close>

fun read_events :: "(u8 list, smoltcp_error) result poll \<Rightarrow> stream_event list" where
  "read_events (Ready (Ok bs)) = [Read bs]"
| "read_events _ = []"

fun write_events :: "write_future \<Rightarrow> (nat, smoltcp_error) result poll \<Rightarrow> stream_event list" where
  "write_events (WriteWait buffer) (Ready (Ok n)) = [Written (take n buffer)]"
| "write_events _ _ = []"

fun restart_events :: "byte_stream option \<Rightarrow> byte_stream option \<Rightarrow> stream_event list" where
  "restart_events (Some q) (Some q') = (if q' = q then [] else [Restarted])"
| "restart_events _ _ = []"

fun net_events :: "byte_stream option \<Rightarrow> byte_stream option \<Rightarrow> stream_event list" where
  "net_events (Some q) (Some q') =
     (if take (length (unread q)) (unread q') = unread q
      then [Delivered (drop (length (unread q)) (unread q')),
            Retired (length (unsent q) - length (unsent q'))]
      else [Restarted])"
| "net_events _ _ = []"

text \<open>
  The sections of \<open>connect\<close>, \<open>accept\<close> and \<open>close\<close>: the first two open the socket and then wait, \<open>close\<close>
  waits twice. Each takes the lock of the interface on its own.
\<close>

definition opening_section :: "('ifc, 'set, 'sock, 'dhcp) smoltcp \<Rightarrow>
    ('ifc, 'set, 'dhcp, 'x, 'r) hkernel \<Rightarrow> Handle \<Rightarrow>
    ('ifc, 'set, 'dhcp, 'x) world_scheme \<Rightarrow> ('ifc, 'set, 'dhcp, 'x) world_scheme \<Rightarrow> bool" where
  "opening_section api k h w w' \<longleftrightarrow> (\<exists>r.
     (\<exists>remote. socket_with api k h (connect_start api k remote) w = Some (Return r, w')) \<or>
     (\<exists>port. socket_with api k h (run_op k (TcpSocket_listen api port)) w = Some (Return r, w')))"

definition waiting_section :: "('ifc, 'set, 'sock, 'dhcp) smoltcp \<Rightarrow>
    ('ifc, 'set, 'dhcp, 'x, 'r) hkernel \<Rightarrow> Handle \<Rightarrow>
    ('ifc, 'set, 'dhcp, 'x) world_scheme \<Rightarrow> ('ifc, 'set, 'dhcp, 'x) world_scheme \<Rightarrow> bool" where
  "waiting_section api k h w w' \<longleftrightarrow> (\<exists>cx.
     (\<exists>p. poll_with api k h (connect_poll api h cx) w = Some (Return p, w')) \<or>
     (\<exists>p. poll_with api k h (accept_poll api cx) w = Some (Return p, w')) \<or>
     (\<exists>p. poll_with api k h (close_drain_poll api cx) w = Some (Return p, w')) \<or>
     (\<exists>p. poll_with api k h (close_wait_poll api cx) w = Some (Return p, w')))"

inductive socket_step :: "('ifc, 'set, 'sock, 'dhcp) smoltcp \<Rightarrow>
    ('ifc, 'set, 'dhcp, 'x, 'r) hkernel \<Rightarrow> ('sock \<Rightarrow> byte_stream) \<Rightarrow> Handle \<Rightarrow>
    ('ifc, 'set, 'dhcp, 'x) world_scheme \<Rightarrow> stream_event list \<Rightarrow>
    ('ifc, 'set, 'dhcp, 'x) world_scheme \<Rightarrow> bool"
  for api k v h where
  own_read: "AsyncSocket_read api k h cx rst w = Some (Return (p, rst'), w') \<Longrightarrow>
    socket_step api k v h w (read_events p) w'"
| own_write: "AsyncSocket_write api k h cx wst w = Some (Return (p, wst'), w') \<Longrightarrow>
    socket_step api k v h w (write_events wst p) w'"
| own_close: "AsyncSocket_close api k h cx dst w = Some (Return (p, dst'), w') \<Longrightarrow>
    socket_step api k v h w [] w'"
| own_connect: "AsyncSocket_connect api k h cx cst w = Some (Return (p, cst'), w') \<Longrightarrow>
    socket_step api k v h w (restart_events (stream_of api v h w) (stream_of api v h w')) w'"
| own_accept: "AsyncSocket_accept api k h cx ast w = Some (Return (p, ast'), w') \<Longrightarrow>
    socket_step api k v h w (restart_events (stream_of api v h w) (stream_of api v h w')) w'"
| own_peer_addr: "keep_alive_and_endpoint api h w = Some (Return r, w') \<Longrightarrow>
    socket_step api k v h w [] w'"
| own_opening: "opening_section api k h w w' \<Longrightarrow>
    socket_step api k v h w (restart_events (stream_of api v h w) (stream_of api v h w')) w'"
| own_waiting: "waiting_section api k h w w' \<Longrightarrow> socket_step api k v h w [] w'"
| other_read: "h' \<noteq> h \<Longrightarrow> AsyncSocket_read api k h' cx rst w = Some (Return (p, rst'), w') \<Longrightarrow>
    socket_step api k v h w [] w'"
| other_write: "h' \<noteq> h \<Longrightarrow> AsyncSocket_write api k h' cx wst w = Some (Return (p, wst'), w') \<Longrightarrow>
    socket_step api k v h w [] w'"
| other_close: "h' \<noteq> h \<Longrightarrow> AsyncSocket_close api k h' cx dst w = Some (Return (p, dst'), w') \<Longrightarrow>
    socket_step api k v h w [] w'"
| other_connect: "h' \<noteq> h \<Longrightarrow>
    AsyncSocket_connect api k h' cx cst w = Some (Return (p, cst'), w') \<Longrightarrow>
    socket_step api k v h w [] w'"
| other_accept: "h' \<noteq> h \<Longrightarrow>
    AsyncSocket_accept api k h' cx ast w = Some (Return (p, ast'), w') \<Longrightarrow>
    socket_step api k v h w [] w'"
| other_peer_addr: "h' \<noteq> h \<Longrightarrow> keep_alive_and_endpoint api h' w = Some (Return r, w') \<Longrightarrow>
    socket_step api k v h w [] w'"
| other_opening: "h' \<noteq> h \<Longrightarrow> opening_section api k h' w w' \<Longrightarrow> socket_step api k v h w [] w'"
| other_waiting: "h' \<noteq> h \<Longrightarrow> waiting_section api k h' w w' \<Longrightarrow> socket_step api k v h w [] w'"
| new_socket: "AsyncSocket_new api w = Some (Return h', w') \<Longrightarrow> socket_step api k v h w [] w'"
| network_task: "network_run_poll api k cx w = Some (Return u, w') \<Longrightarrow>
    socket_step api k v h w (net_events (stream_of api v h w) (stream_of api v h w')) w'"
| network_thread: "nic_thread_check api k w = Some (Return u, w') \<Longrightarrow>
    socket_step api k v h w (net_events (stream_of api v h w) (stream_of api v h w')) w'"
| kernel_call: "same_statics w w' \<Longrightarrow> socket_step api k v h w [] w'"

inductive socket_run :: "('ifc, 'set, 'sock, 'dhcp) smoltcp \<Rightarrow>
    ('ifc, 'set, 'dhcp, 'x, 'r) hkernel \<Rightarrow> ('sock \<Rightarrow> byte_stream) \<Rightarrow> Handle \<Rightarrow>
    ('ifc, 'set, 'dhcp, 'x) world_scheme \<Rightarrow> stream_event list \<Rightarrow>
    ('ifc, 'set, 'dhcp, 'x) world_scheme \<Rightarrow> bool"
  for api k v h where
  run_refl: "socket_run api k v h w [] w"
| run_step: "socket_run api k v h w es w1 \<Longrightarrow> socket_step api k v h w1 fs w2 \<Longrightarrow>
    socket_run api k v h w (es @ fs) w2"

lemma socket_run_trans:
  assumes "socket_run api k v h w1 fs w2" and "socket_run api k v h w es w1"
  shows "socket_run api k v h w (es @ fs) w2"
  using assms
  by (induction rule: socket_run.induct) (auto simp flip: append_assoc intro: run_step)

lemma socket_step_run: "socket_step api k v h w es w' \<Longrightarrow> socket_run api k v h w es w'"
  using run_step [OF run_refl] by fastforce

section \<open>Operations on the socket itself\<close>

lemma stream_of_Some:
  "stream_of api v h w = Some q \<longleftrightarrow>
     (\<exists>nic s. nic_state w = Initialized nic \<and> SocketSet_get api (sockets nic) h = Some s \<and> q = v s)"
  by (auto simp: stream_of_def split: NetworkState.split)

lemma socket_with_stream:
  assumes "socket_set_laws api" and "socket_with api k h f w = Some (Return r, w')"
  shows "\<exists>s s' w1. stream_of api v h w = Some (v s) \<and> f s w = Some (Return (r, s'), w1) \<and>
    stream_of api v h w' = Some (v s')"
proof -
  from assms(2) obtain nic s s' w1 w2 where nic: "nic_state w = Initialized nic"
    and get: "SocketSet_get api (sockets nic) h = Some s" and f: "f s w = Some (Return (r, s'), w1)"
    and w': "w' = set_nic (nic\<lparr>sockets := SocketSet_put api h s' (sockets nic),
                          nic_waker := \<lparr>waker = None\<rparr>\<rparr>) w2"
    unfolding socket_with_Return_iff by blast
  from nic get have "stream_of api v h w = Some (v s)" by (simp add: stream_of_def)
  moreover from w' get socket_set_get_put [OF assms(1), of "sockets nic" h s' h]
  have "stream_of api v h w' = Some (v s')" by (simp add: stream_of_def set_nic_def)
  ultimately show ?thesis using f by blast
qed

lemma poll_with_stream:
  assumes "socket_set_laws api" and "poll_with api k h op w = Some (Return p, w')"
  shows "\<exists>s s' ws. stream_of api v h w = Some (v s) \<and> op s = (p, s', ws) \<and>
    stream_of api v h w' = Some (v s')"
  using socket_with_stream [OF assms(1) assms(2) [unfolded poll_with_def], of v]
  by (auto simp: run_op_Return_iff)

lemma stream_lawsD:
  assumes "stream_laws api v"
  shows "socket_set_laws api" and "transfer_laws api v" and "control_laws api v"
    and "open_laws api v" and "network_laws api v"
  using assms by (simp_all add: stream_laws_def)

lemma pend_view:
  assumes "stream_laws api v"
  shows "pend (TcpSocket_register_send_waker api cx) s = (p, s', ws) \<Longrightarrow> p = Pending \<and> v s' = v s"
    and "pend (TcpSocket_register_recv_waker api cx) s = (p, s', ws) \<Longrightarrow> p = Pending \<and> v s' = v s"
  using control_lawsD(2,3) [OF stream_lawsD(3) [OF assms]]
  by (auto simp: pend_def split: prod.splits)

lemma read_poll_view:
  assumes "stream_laws api v" and "read_poll api len cx s = (p, s', ws)"
  shows "case p of
      Ready (Ok bs) \<Rightarrow> take (length bs) (unread (v s)) = bs \<and>
        v s' = (v s)\<lparr>unread := drop (length bs) (unread (v s))\<rparr>
    | _ \<Rightarrow> v s' = v s"
proof -
  note laws = stream_lawsD [OF assms(1)]
  have cut: "drop (min (length xs) n) xs = drop n xs" "take (min (length xs) n) xs = take n xs"
    for n and xs :: "u8 list" by (simp_all add: min_def)
  have "case r of Ok bs \<Rightarrow> take (length bs) (unread (v s)) = bs \<and>
        v s' = (v s)\<lparr>unread := drop (length bs) (unread (v s))\<rparr>
      | Err e \<Rightarrow> v s' = v s"
    if "TcpSocket_recv_slice api len s = (r, s', ws)" for r
    using transfer_laws_cases(1) [OF laws(2) that] by (auto simp: cut split: result.split)
  with assms(2) show ?thesis
    by (auto simp: read_poll_def map_ready_eq dest!: pend_view [OF assms(1)] split: if_splits)
qed

lemma write_poll_view:
  assumes "stream_laws api v" and "write_poll api buffer cx s = (p, s', ws)"
  shows "case p of
      Ready (Ok n) \<Rightarrow> v s' = (v s)\<lparr>unsent := unsent (v s) @ take n buffer\<rparr>
    | _ \<Rightarrow> v s' = v s"
proof -
  note laws = stream_lawsD [OF assms(1)]
  have "case r of Ok n \<Rightarrow> v s' = (v s)\<lparr>unsent := unsent (v s) @ take n buffer\<rparr>
      | Err e \<Rightarrow> v s' = v s"
    if "TcpSocket_send_slice api buffer s = (r, s', ws)" for r
    using transfer_laws_cases(2) [OF laws(2) that] by (auto split: result.split)
  with assms(2) show ?thesis
    by (auto simp: write_poll_def map_ready_eq dest!: pend_view [OF assms(1)]
      split: if_splits result.splits)
qed

text \<open>The other closures leave both buffers alone.\<close>

lemma quiet_polls:
  assumes "stream_laws api v"
  shows "connect_poll api h cx s = (p, s', ws) \<Longrightarrow> v s' = v s"
    and "accept_poll api cx s = (q, s', ws) \<Longrightarrow> v s' = v s"
    and "close_drain_poll api cx s = (q, s', ws) \<Longrightarrow> v s' = v s"
    and "close_wait_poll api cx s = (q, s', ws) \<Longrightarrow> v s' = v s"
  by (auto simp: connect_poll_def accept_poll_def close_drain_poll_def close_wait_poll_def map_ready_eq
      dest!: pend_view [OF assms] control_lawsD(1) [OF stream_lawsD(3) [OF assms]]
      split: TcpState.splits if_splits)

lemma keep_alive_stream:
  assumes "stream_laws api v" and "keep_alive_and_endpoint api h w = Some (Return r, w')"
  shows "stream_of api v h w' = stream_of api v h w"
  using assms(2) stream_lawsD(1,3) [OF assms(1)]
  by (auto simp: keep_alive_and_endpoint_def nic_lock_Return_iff Let_def stream_of_def set_nic_def
      socket_set_get_put control_lawsD(4) as_nic_mut_cases split: result.splits option.splits)

lemma quiet_poll_stream:
  assumes "stream_laws api v" and "poll_with api k h op w = Some (Return p, w')"
    and "\<And>s s' ws. op s = (p, s', ws) \<Longrightarrow> v s' = v s"
  shows "stream_of api v h w' = stream_of api v h w"
  using poll_with_stream [OF stream_lawsD(1) [OF assms(1)] assms(2), of v] assms(3) by auto

lemma open_stream:
  assumes "stream_laws api v" and "socket_with api k h f w = Some (Return r, w')"
    and "f = connect_start api k remote \<or> f = run_op k (TcpSocket_listen api port)"
  shows "\<exists>q. stream_of api v h w = Some q \<and>
    stream_of api v h w' = Some (if is_ok r then empty_stream else q)"
proof -
  note laws = open_lawsD [OF stream_lawsD(4) [OF assms(1)]]
  from socket_with_stream [OF stream_lawsD(1) [OF assms(1)] assms(2), of v] obtain s s' w1
    where v: "stream_of api v h w = Some (v s)" "stream_of api v h w' = Some (v s')"
      and f: "f s w = Some (Return (r, s'), w1)" by blast
  from f assms(3) have "(\<exists>ws port'. TcpSocket_connect api remote port' s = (r, s', ws)) \<or>
      (\<exists>ws. TcpSocket_listen api port s = (r, s', ws))"
    by (auto simp: connect_start_def run_op_Return_iff elim!: pbind_ReturnE)
  then have "v s' = (if is_ok r then empty_stream else v s)" using laws by blast
  with v show ?thesis by simp
qed

lemma own_close_stream:
  assumes "stream_laws api v" and "AsyncSocket_close api k h cx st w = Some (Return (p, st'), w')"
  shows "stream_of api v h w' = stream_of api v h w"
proof -
  have aw: "stream_of api v h w' = stream_of api v h w"
    if "close_await api k h cx w = Some (Return (p, st'), w')" for p st' w
    using quiet_poll_stream [OF assms(1) close_await_Return [OF that]] quiet_polls(4) [OF assms(1)] by blast
  show ?thesis
    using assms(2)
    by (cases st) (auto simp: resumed_after_completion_def elim!: pbind_ReturnE
      dest!: aw quiet_poll_stream [OF assms(1) _ quiet_polls(3) [OF assms(1)]]
      split: poll.split_asm result.split_asm)
qed

text \<open>\<open>connect\<close> and \<open>accept\<close> leave the buffers alone, or have opened the connection and cleared them.\<close>

definition kept_or_opened :: "byte_stream option \<Rightarrow> byte_stream option \<Rightarrow> bool" where
  "kept_or_opened q q' \<longleftrightarrow> q' = q \<or> (q \<noteq> None \<and> q' = Some empty_stream)"

lemma connect_stream:
  assumes "stream_laws api v" and "AsyncSocket_connect api k h cx st w = Some (Return (p, st'), w')"
  shows "kept_or_opened (stream_of api v h w) (stream_of api v h w')"
proof -
  have wait: "stream_of api v h w' = stream_of api v h w"
    if "connect_wait api k h cx w = Some (Return (p, st'), w')" for w
    using quiet_poll_stream [OF assms(1) connect_wait_Return [OF that]] quiet_polls(1) [OF assms(1)]
    by blast
  show ?thesis
    using assms(2)
    by (cases st) (auto simp: kept_or_opened_def resumed_after_completion_def elim!: pbind_ReturnE
      dest!: wait open_stream [OF assms(1) _ disjI1 [OF refl]] split: result.split_asm if_splits)
qed

lemma opening_section_stream:
  assumes "stream_laws api v" and "opening_section api k h w w'"
  shows "kept_or_opened (stream_of api v h w) (stream_of api v h w')"
  using assms(2) unfolding opening_section_def kept_or_opened_def
  by (elim exE disjE) (auto dest!: open_stream [OF assms(1) _ disjI1 [OF refl]]
    open_stream [OF assms(1) _ disjI2 [OF refl]] split: if_splits)

lemma waiting_section_stream:
  assumes "stream_laws api v" and "waiting_section api k h w w'"
  shows "stream_of api v h w' = stream_of api v h w"
  using assms(2) unfolding waiting_section_def
  by (elim exE disjE) (erule quiet_poll_stream [OF assms(1)], erule quiet_polls [OF assms(1)])+

lemma accept_wait_stream:
  assumes "stream_laws api v" and "accept_wait api k h cx w = Some (Return (p, st'), w')"
  shows "stream_of api v h w' = stream_of api v h w"
  using assms(2)
  by (auto simp: accept_wait_def elim!: pbind_ReturnE dest!: keep_alive_stream [OF assms(1)]
    quiet_poll_stream [OF assms(1) _ quiet_polls(2) [OF assms(1)]] split: poll.split_asm result.split_asm)

lemma accept_stream:
  assumes "stream_laws api v" and "AsyncSocket_accept api k h cx st w = Some (Return (p, st'), w')"
  shows "kept_or_opened (stream_of api v h w) (stream_of api v h w')"
  using assms(2)
  by (cases st) (auto simp: kept_or_opened_def resumed_after_completion_def elim!: pbind_ReturnE
    dest!: accept_wait_stream [OF assms(1)] open_stream [OF assms(1) _ disjI2 [OF refl]]
    split: result.split_asm if_splits)

section \<open>The network task, the other sockets\<close>

interpretation net_inv: nic_invariant api
  "\<lambda>nic. network_laws api v \<longrightarrow>
     (\<exists>s. SocketSet_get api (sockets nic) h = Some s \<and> net_change api v s0 s)" for api v h s0
  by unfold_locales (auto dest: network_lawsD intro: net_change_trans) 

lemma drop_length_minus: "drop (length xs - (length xs - n)) xs = drop n xs"
  by (cases "n \<le> length xs") simp_all

lemma net_change_events:
  assumes "net_change api v s s'"
  shows "stream_run (net_events (Some (v s)) (Some (v s'))) (v s) = Some (v s')"
  using assms
  by (auto simp: net_change_def empty_stream_def drop_length_minus intro: byte_stream.equality)

lemma other_stream:
  assumes "\<And>s. keeps (in_sockets (\<lambda>ss. socket_set_laws api \<and> h \<noteq> h' \<longrightarrow>
      SocketSet_get api ss h = Some s)) m"
    and "socket_set_laws api" and "h' \<noteq> h" and "m w = Some (Return a, w')"
    and "stream_of api v h w = Some q"
  shows "stream_of api v h w' = Some q"
proof -
  from assms(5) obtain nic s where "nic_state w = Initialized nic"
    and "SocketSet_get api (sockets nic) h = Some s" and q: "q = v s" by (auto simp: stream_of_Some)
  then have "in_sockets (\<lambda>ss. socket_set_laws api \<and> h \<noteq> h' \<longrightarrow> SocketSet_get api ss h = Some s) w"
    by (simp add: in_sockets_def)
  from keepsD [OF assms(1,4) this] assms(2,3) q show ?thesis
    by (auto simp: in_sockets_def stream_of_def)
qed

lemmas other_streams = other_stream [OF other_socket.connect_keeps]
  other_stream [OF other_socket.accept_keeps] other_stream [OF other_socket.read_keeps]
  other_stream [OF other_socket.write_keeps] other_stream [OF other_socket.close_keeps]
  other_stream [OF other_socket.keep_alive_keeps]

lemma other_sections:
  assumes "socket_set_laws api" and "h' \<noteq> h" and "stream_of api v h w = Some q"
    and "opening_section api k h' w w' \<or> waiting_section api k h' w w'"
  shows "stream_of api v h w' = Some q"
  using assms(4) unfolding opening_section_def waiting_section_def
  by (auto dest: other_stream [OF other_socket.socket_with_keeps assms(1,2) _ assms(3)]
    other_stream [OF other_socket.poll_with_keeps assms(1,2) _ assms(3)])

section \<open>The simulation\<close>

lemma network_stream:
  assumes "stream_laws api v" and "stream_of api v h w = Some q"
    and "network_run_poll api k cx w = Some (Return p, w') \<or> nic_thread_check api k w = Some (Return (), w')"
  shows "\<exists>q'. stream_of api v h w' = Some q' \<and> stream_run (net_events (Some q) (Some q')) q = Some q'"
proof -
  from assms(2) obtain nic s where nic: "nic_state w = Initialized nic"
    and get: "SocketSet_get api (sockets nic) h = Some s" and q: "q = v s" by (auto simp: stream_of_Some)
  from get have t: "network_laws api v \<longrightarrow>
      (\<exists>t. SocketSet_get api (sockets nic) h = Some t \<and> net_change api v s t)" by simp
  from assms(3) have "\<exists>nic'. nic_state w' = Initialized nic' \<and> (network_laws api v \<longrightarrow>
      (\<exists>t. SocketSet_get api (sockets nic') h = Some t \<and> net_change api v s t))"
    by (elim disjE) (rule net_inv.network_run_keeps [OF nic t], assumption,
      rule net_inv.nic_thread_check_keeps [OF nic t])
  with stream_lawsD(5) [OF assms(1)] obtain nic' t where "nic_state w' = Initialized nic'"
    and "SocketSet_get api (sockets nic') h = Some t" and "net_change api v s t" by blast
  with q net_change_events show ?thesis by (fastforce simp: stream_of_def)
qed

lemma read_stream:
  assumes "stream_laws api v" and "AsyncSocket_read api k h cx st w = Some (Return (p, st'), w')"
  shows "\<exists>q q'. stream_of api v h w = Some q \<and> stream_of api v h w' = Some q' \<and>
    stream_run (read_events p) q = Some q'"
proof -
  from assms(2) obtain len r where "st = ReadWait len"
    and run: "poll_with api k h (read_poll api len cx) w = Some (Return r, w')"
    and p: "p = (case r of Pending \<Rightarrow> Pending | Ready a \<Rightarrow> Ready (map_err (\<lambda>_. Illegal) a))"
    by (cases st) (auto simp: resumed_after_completion_def elim!: pbind_ReturnE split: poll.split_asm)
  from poll_with_stream [OF stream_lawsD(1) [OF assms(1)] run, of v] obtain s s' ws where
    "stream_of api v h w = Some (v s)" and "stream_of api v h w' = Some (v s')"
    and "read_poll api len cx s = (r, s', ws)" by blast
  with read_poll_view [OF assms(1) this(3)] p show ?thesis
    by (cases r rule: read_events.cases) simp_all
qed

lemma write_stream:
  assumes "stream_laws api v" and "AsyncSocket_write api k h cx st w = Some (Return (p, st'), w')"
  shows "\<exists>q q'. stream_of api v h w = Some q \<and> stream_of api v h w' = Some q' \<and>
    stream_run (write_events st p) q = Some q'"
proof -
  from assms(2) obtain buffer where st: "st = WriteWait buffer"
    and run: "poll_with api k h (write_poll api buffer cx) w = Some (Return p, w')"
    by (cases st) (auto simp: resumed_after_completion_def elim!: pbind_ReturnE split: poll.split_asm)
  from poll_with_stream [OF stream_lawsD(1) [OF assms(1)] run, of v] obtain s s' ws where
    "stream_of api v h w = Some (v s)" and "stream_of api v h w' = Some (v s')"
    and "write_poll api buffer cx s = (p, s', ws)" by blast
  with write_poll_view [OF assms(1) this(3)] st show ?thesis
    by (auto split: poll.split_asm result.split_asm)
qed

lemma restart_run:
  assumes "kept_or_opened (Some q) q'"
  shows "\<exists>t. q' = Some t \<and> stream_run (restart_events (Some q) q') q = Some t"
  using assms by (auto simp: kept_or_opened_def)

lemma new_socket_stream:
  assumes "socket_set_laws api" and "AsyncSocket_new api w = Some (Return h', w')"
    and "stream_of api v h w = Some q"
  shows "stream_of api v h w' = Some q"
proof -
  from assms(3) obtain nic s where nic: "nic_state w = Initialized nic"
    and get: "SocketSet_get api (sockets nic) h = Some s" and q: "q = v s" by (auto simp: stream_of_Some)
  obtain ss where add: "SocketSet_add api (TcpSocket_new api (replicate 65535 0) (replicate 65535 0))
      (sockets nic) = (h', ss)" and w': "w' = set_nic (nic\<lparr>sockets := ss\<rparr>) w"
    using assms(2) nic by (auto simp: AsyncSocket_new_def nic_lock_Return_iff create_handle_def Let_def
        split: prod.splits)
  from socket_set_add [OF assms(1) add, of h] get q w' show ?thesis
    by (auto simp: stream_of_def set_nic_def)
qed

lemma step_simulated:
  assumes "socket_step api k v h w es w'" and "stream_laws api v" and "stream_of api v h w = Some q"
  shows "\<exists>q'. stream_of api v h w' = Some q' \<and> stream_run es q = Some q'"
  using assms(1)
proof cases
  case (own_read cx rst p rst')
  then show ?thesis using read_stream [OF assms(2) own_read(2)] assms(3) by auto
next
  case (own_write cx wst p wst')
  then show ?thesis using write_stream [OF assms(2) own_write(2)] assms(3) by auto
next
  case (own_connect cx cst p cst')
  then show ?thesis
    using connect_stream [OF assms(2) own_connect(2)] restart_run assms(3) by auto
next
  case (own_accept cx ast p ast')
  then show ?thesis
    using accept_stream [OF assms(2) own_accept(2)] restart_run assms(3) by auto
next
  case own_opening
  then show ?thesis
    using opening_section_stream [OF assms(2) own_opening(2)] restart_run assms(3) by auto
next
  case (network_task cx u)
  then show ?thesis using network_stream [OF assms(2,3)] assms(3) by fastforce
next
  case (network_thread u)
  then show ?thesis using network_stream [OF assms(2,3)] assms(3) by fastforce
next
  case kernel_call
  then show ?thesis using assms(3) by (simp add: same_statics_def stream_of_def)
qed (use assms(2,3) stream_lawsD(1) [OF assms(2)] in
  \<open>auto simp: own_close_stream keep_alive_stream new_socket_stream waiting_section_stream
    dest: other_streams [OF stream_lawsD(1) [OF assms(2)]] other_sections [OF stream_lawsD(1) [OF assms(2)]]\<close>)

lemma run_simulated:
  assumes "socket_run api k v h w es w'" and "stream_laws api v" and "stream_of api v h w = Some q"
  shows "\<exists>q'. stream_of api v h w' = Some q' \<and> stream_run es q = Some q'"
  using assms(1,3)
proof induction
  case (run_step w es w1 fs w2)
  then obtain q1 where "stream_of api v h w1 = Some q1" and "stream_run es q = Some q1" by blast
  with step_simulated [OF run_step(2) assms(2)] show ?case by (auto simp: stream_run_append)
qed simp

section \<open>System calls\<close>

text \<open>A run in which the application neither reads nor writes.\<close>

definition background :: "stream_event list \<Rightarrow> bool" where
  "background es \<longleftrightarrow> reads es = [] \<and> writes es = []"

lemma background_simps [simp]:
  "background []" "background (es @ fs) \<longleftrightarrow> background es \<and> background fs"
  by (auto simp: background_def)

lemma background_net_events [simp]: "background (net_events q q')"
  by (cases "(q, q')" rule: net_events.cases) (auto simp: background_def)

definition background_run :: "('ifc, 'set, 'sock, 'dhcp) smoltcp \<Rightarrow>
    ('ifc, 'set, 'dhcp, 'x, 'r) hkernel \<Rightarrow> ('sock \<Rightarrow> byte_stream) \<Rightarrow> Handle \<Rightarrow>
    ('ifc, 'set, 'dhcp, 'x) world_scheme \<Rightarrow> ('ifc, 'set, 'dhcp, 'x) world_scheme \<Rightarrow> bool" where
  "background_run api k v h w w' \<longleftrightarrow> (\<exists>es. socket_run api k v h w es w' \<and> background es)"

lemma background_run_refl [simp]: "background_run api k v h w w"
  unfolding background_run_def using run_refl background_simps(1) by blast

lemma background_run_trans:
  "background_run api k v h w w1 \<Longrightarrow> background_run api k v h w1 w2 \<Longrightarrow> background_run api k v h w w2"
  unfolding background_run_def by (meson background_simps(2) socket_run_trans)

lemma background_step: "socket_step api k v h w es w' \<Longrightarrow> background es \<Longrightarrow> background_run api k v h w w'"
  unfolding background_run_def by (blast dest: socket_step_run)

lemma background_kernel: "same_statics w w' \<Longrightarrow> background_run api k v h w w'"
  by (rule background_step [OF kernel_call]) simp_all

lemma background_task: "task_future api k c cx w = Some (Return p, w') \<Longrightarrow> background_run api k v h w w'"
  by (cases c) (auto intro: background_step [OF network_task])

text \<open>
  What the surroundings of a call do: a relation \<open>Q\<close> between the worlds bounds them when it holds across
  every call that the drivers make of the kernel and across every run of a task.
\<close>

definition surroundings_within :: "('ifc, 'set, 'sock, 'dhcp) smoltcp \<Rightarrow>
    ('ifc, 'set, 'dhcp, 'x, 'r) hkernel \<Rightarrow>
    (('ifc, 'set, 'dhcp, 'x) world_scheme \<Rightarrow> ('ifc, 'set, 'dhcp, 'x) world_scheme \<Rightarrow> bool) \<Rightarrow> bool" where
  "surroundings_within api k Q \<longleftrightarrow> reflp Q \<and> transp Q \<and>
     (\<forall>b w. Q w (sys_set_network_polling_mode k b w)) \<and>
     (\<forall>w. Q w (snd (instant_now k w))) \<and>
     (\<forall>w. Q w (snd (queue_pop k w))) \<and>
     (\<forall>r u w w'. runnable_run k (task_future api k) (schedule k) r w = Some (Return u, w') \<longrightarrow> Q w w')"

lemma surroundingsD:
  assumes "surroundings_within api k Q"
  shows "Q w w" and "Q w w1 \<Longrightarrow> Q w1 w2 \<Longrightarrow> Q w w2"
    and "Q w (sys_set_network_polling_mode k b w)"
    and "instant_now k w = (now, w') \<Longrightarrow> Q w w'" and "queue_pop k w = (r, w') \<Longrightarrow> Q w w'"
    and "runnable_run k (task_future api k) (schedule k) t w = Some (Return u, w') \<Longrightarrow> Q w w'"
proof -
  from assms have refl: "reflp Q" and trans: "transp Q"
    and mode: "\<And>b w. Q w (sys_set_network_polling_mode k b w)"
    and now: "\<And>w. Q w (snd (instant_now k w))" and pop: "\<And>w. Q w (snd (queue_pop k w))"
    and run: "\<And>r u w w'. runnable_run k (task_future api k) (schedule k) r w = Some (Return u, w') \<Longrightarrow> Q w w'"
    unfolding surroundings_within_def by (elim conjE, assumption?, blast)+
  show "Q w w" using refl by (rule reflpD)
  show "Q w w2" if "Q w w1" and "Q w1 w2" using trans that by (rule transpD)
  show "Q w (sys_set_network_polling_mode k b w)" by (rule mode)
  show "Q w w'" if "instant_now k w = (now, w')" using now [of w] that by simp
  show "Q w w'" if "queue_pop k w = (r, w')" using pop [of w] that by simp
  show "Q w w'" if "runnable_run k (task_future api k) (schedule k) t w = Some (Return u, w')"
    using that by (rule run)
qed

text \<open>
  What the calls rely on: whenever the caller is in the kernel (and may be descheduled there), other
  threads and the network may do any operation of the crate, in any number and order, except reading or
  writing the connection \<open>h\<close>; running a task from the queue polls its future.
\<close>

definition executor_laws :: "('ifc, 'set, 'sock, 'dhcp) smoltcp \<Rightarrow>
    ('ifc, 'set, 'dhcp, 'x, 'r) hkernel \<Rightarrow> ('sock \<Rightarrow> byte_stream) \<Rightarrow> Handle \<Rightarrow> bool" where
  "executor_laws api k v h \<longleftrightarrow>
     (\<forall>b w. background_run api k v h w (sys_set_network_polling_mode k b w)) \<and>
     (\<forall>w. background_run api k v h w (snd (instant_now k w))) \<and>
     (\<forall>w. background_run api k v h w (snd (queue_pop k w))) \<and>
     (\<forall>r u w w'. runnable_run k (task_future api k) (schedule k) r w = Some (Return u, w') \<longrightarrow>
        (\<lambda>w w'. background_run api k v h w w' \<or>
          (\<exists>c cx p. task_future api k c cx w = Some (Return p, w')))\<^sup>*\<^sup>* w w')"

lemma executor_surroundings:
  assumes "executor_laws api k v h"
  shows "surroundings_within api k (background_run api k v h)"
proof -
  let ?R = "\<lambda>w w'. background_run api k v h w w' \<or> (\<exists>c cx p. task_future api k c cx w = Some (Return p, w'))"
  have run: "background_run api k v h w w'" if "?R\<^sup>*\<^sup>* w w'" for w w'
    using that by induction (blast intro: background_run_trans background_task background_run_refl)+
  have "reflp (background_run api k v h)" and "transp (background_run api k v h)"
    by (auto intro: reflpI transpI background_run_trans)
  with assms run show ?thesis unfolding surroundings_within_def executor_laws_def by blast
qed

lemma run_executor_within:
  assumes env: "surroundings_within api k Q" and ret: "run_executor api k w = Some (Return (), w')"
  shows "Q w w'"
proof -
  note env = surroundingsD [OF env]
  have step: "Q w1 w2"
    if "pbind (pcall (queue_pop k)) (\<lambda>popped. case popped of None \<Rightarrow> pret (Break ())
        | Some runnable \<Rightarrow> pbind (runnable_run k (task_future api k) (schedule k) runnable)
            (\<lambda>_. pret (Continue ()))) w1 = Some (Return x, w2)" for w1 w2 x
  proof -
    obtain r w3 where pop: "queue_pop k w1 = (r, w3)" by fastforce
    have "Q w3 w2"
      using that pop env(1) by (auto elim!: pbind_ReturnE dest: env(6) split: option.split_asm)
    with env(5) [OF pop] show ?thesis by (rule env(2))
  qed
  have "(\<lambda>(out, w'). out = Return () \<longrightarrow> Q w w') (Return (), w')"
    using ret unfolding run_executor_def
    by (rule rust_loop_invariant [where Inv = "\<lambda>_ w1. Q w w1"]) (auto intro: env(1,2) step)
  then show ?thesis by simp
qed

text \<open>
  \<open>poll_on\<close> without a timeout, on a future whose pending polls stay within the surroundings: what is
  seen is the last poll.
\<close>

lemma poll_on_within:
  assumes env: "surroundings_within api k Q" and start: "I st"
    and pending: "\<And>cx s w s' w'. I s \<Longrightarrow> future cx s w = Some (Return (Pending, s'), w') \<Longrightarrow> I s' \<and> Q w w'"
    and ret: "poll_on api k future st None w = Some (Return r, w')"
  shows "\<exists>t s s' cx w1 w2. r = Ok t \<and> Q w w1 \<and> I s \<and> future cx s w1 = Some (Return (Ready t, s'), w2) \<and> Q w2 w'"
proof -
  let ?cx = "ThreadWaker (sys_getpid k w)"
  note env = surroundingsD [OF env] run_executor_within [OF env]
  obtain now w0 where now: "instant_now k (sys_set_network_polling_mode k True w) = (now, w0)" by fastforce
  have w0: "Q w w0" using env(2) [OF env(3) env(4) [OF now]] .
  from ret have loop: "rust_loop (poll_on_body api k (future ?cx) None now) st w0 = Some (Return r, w')"
    by (simp add: poll_on_def Let_def now)
  let ?P = "\<lambda>r w'. \<exists>t s s' w1 w2. r = Ok t \<and> Q w w1 \<and> I s \<and>
    future ?cx s w1 = Some (Return (Ready t, s'), w2) \<and> Q w2 w'"
  have "(\<lambda>(out, w'). \<forall>r. out = Return r \<longrightarrow> ?P r w') (Return r, w')"
  proof (rule rust_loop_invariant [OF loop, where Inv = "\<lambda>s w1. I s \<and> Q w w1"])
    fix s w1 s' w2
    assume "I s \<and> Q w w1" and "poll_on_body api k (future ?cx) None now s w1 = Some (Return (Continue s'), w2)"
    then obtain w3 where w1: "I s" "Q w w1" and f: "future ?cx s w1 = Some (Return (Pending, s'), w3)"
      and e: "run_executor api k w3 = Some (Return (), w2)"
      by (auto simp: poll_on_body_def timed_out_def elim!: pbind_ReturnE split: poll.split_asm)
    from pending [OF w1(1) f] env(7) [OF e] w1(2) show "I s' \<and> Q w w2" by (blast intro: env(2))
  next
    fix s w1 r w2
    assume "I s \<and> Q w w1" and "poll_on_body api k (future ?cx) None now s w1 = Some (Return (Break r), w2)"
    then obtain t s' w3 where "Q w w1" and "r = Ok t" and "I s"
      and "future ?cx s w1 = Some (Return (Ready t, s'), w3)"
      and "w2 = sys_set_network_polling_mode k False w3"
      by (auto simp: poll_on_body_def timed_out_def elim!: pbind_ReturnE split: poll.split_asm)
    with env(3) show "(\<lambda>(out, w'). \<forall>r. out = Return r \<longrightarrow> ?P r w') (Return r, w2)" by fastforce
  qed (use start w0 in simp_all)
  then show ?thesis by blast
qed

lemma run_then_step:
  assumes "background_run api k v h w w1" and "socket_step api k v h w1 es w2"
    and "background_run api k v h w2 w'"
  shows "\<exists>fs. socket_run api k v h w fs w' \<and> reads fs = reads es \<and> writes fs = writes es"
proof -
  from assms(1,3) obtain gs hs where run: "socket_run api k v h w gs w1" "socket_run api k v h w2 hs w'"
    and bg: "background gs" "background hs" unfolding background_run_def by blast
  from run(1) assms(2) have "socket_run api k v h w (gs @ es) w2" by (rule run_step)
  from socket_run_trans [OF run(2) this] have "socket_run api k v h w ((gs @ es) @ hs) w'" .
  moreover have "reads ((gs @ es) @ hs) = reads es" and "writes ((gs @ es) @ hs) = writes es"
    using bg by (simp_all add: background_def)
  ultimately show ?thesis by blast
qed

text \<open>The socket \<open>h\<close> itself.\<close>

definition socket_of :: "('ifc, 'set, 'sock, 'dhcp) smoltcp \<Rightarrow> Handle \<Rightarrow>
    ('ifc, 'set, 'dhcp, 'x) world_scheme \<Rightarrow> 'sock option" where
  "socket_of api h w =
     (case nic_state w of Initialized nic \<Rightarrow> SocketSet_get api (sockets nic) h | _ \<Rightarrow> None)"

lemma stream_of_socket: "stream_of api v h w = map_option v (socket_of api h w)"
  by (simp add: stream_of_def socket_of_def split: NetworkState.split)

lemma read_end_of_file:
  assumes "stream_laws api v" and "receive_laws api v" and "0 < len"
    and "AsyncSocket_read api k h cx (ReadWait len) w = Some (Return (Ready (Ok []), st'), w')"
  shows "\<exists>s. socket_of api h w' = Some s \<and> \<not> TcpSocket_may_recv api s \<and> unread (v s) = []"
proof -
  from read_ready [OF assms(4)] have "poll_with api k h (read_poll api len cx) w
      = Some (Return (Ready (Ok [])), w')" by (metis map_err_eq_simps(2))
  then obtain nic s s' ws w1 where get: "SocketSet_get api (sockets nic) h = Some s"
    and p: "read_poll api len cx s = (Ready (Ok []), s', ws)"
    and w': "w' = set_nic (nic\<lparr>sockets := SocketSet_put api h s' (sockets nic),
                          nic_waker := \<lparr>waker = None\<rparr>\<rparr>) w1"
    unfolding poll_with_def socket_with_Return_iff run_op_Return_iff by blast
  have "\<not> TcpSocket_can_recv api s"
  proof
    assume "TcpSocket_can_recv api s"
    with p assms(2,3) transfer_lawsD(1) [OF stream_lawsD(2) [OF assms(1)], of len s "[]" s' ws]
    show False by (auto simp: read_poll_def map_ready_eq receive_laws_def split: if_splits)
  qed
  with p have "s' = s" and "\<not> TcpSocket_may_recv api s"
    by (auto simp: read_poll_def pend_def split: if_splits prod.splits)
  with assms(2) get w' socket_set_get_put [OF stream_lawsD(1) [OF assms(1)], of "sockets nic" h s h] show ?thesis
    by (simp add: socket_of_def set_nic_def receive_laws_def)
qed

lemma read_pending_state:
  "AsyncSocket_read api k h cx s w = Some (Return (Pending, s'), w') \<Longrightarrow> s' = s"
  by (cases s) (auto simp: resumed_after_completion_def elim!: pbind_ReturnE split: poll.split_asm)

lemma read_call_poll:
  assumes laws: "executor_laws api k v h" and ret: "sys_tcp_stream_read api k h len w = Some (Return r, w')"
  shows "\<exists>t cx w1 s' w2. r = flatten_result (Ok t) \<and> background_run api k v h w w1 \<and>
    AsyncSocket_read api k h cx (ReadWait len) w1 = Some (Return (Ready t, s'), w2) \<and>
    background_run api k v h w2 w'"
proof -
  from ret obtain r1 where r: "r = flatten_result r1"
    and run: "poll_on api k (AsyncSocket_read api k h) (ReadWait len) None w = Some (Return r1, w')"
    by (auto simp: sys_tcp_stream_read_def elim!: pbind_ReturnE)
  have pending: "s' = ReadWait len \<and> background_run api k v h w w'"
    if "s = ReadWait len" and p: "AsyncSocket_read api k h cx s w = Some (Return (Pending, s'), w')" for cx s w s' w'
    using that(1) read_pending_state [OF p] background_step [OF own_read [OF p], of v] by simp
  have "\<exists>t s s' cx w1 w2. r1 = Ok t \<and> background_run api k v h w w1 \<and> s = ReadWait len \<and>
    AsyncSocket_read api k h cx s w1 = Some (Return (Ready t, s'), w2) \<and> background_run api k v h w2 w'"
    by (rule poll_on_within [where I = "\<lambda>s. s = ReadWait len", OF executor_surroundings [OF laws] refl _ run])
      (rule pending)
  with r show ?thesis by blast
qed

lemma read_call_run:
  assumes laws: "executor_laws api k v h" and ret: "sys_tcp_stream_read api k h len w = Some (Return r, w')"
  shows "\<exists>es. socket_run api k v h w es w' \<and> reads es = (case r of Ok bs \<Rightarrow> bs | Err u \<Rightarrow> []) \<and> writes es = []"
proof -
  from read_call_poll [OF assms] obtain t cx w1 s' w2 where r: "r = flatten_result (Ok t)"
    and bg: "background_run api k v h w w1" "background_run api k v h w2 w'"
    and p: "AsyncSocket_read api k h cx (ReadWait len) w1 = Some (Return (Ready t, s'), w2)" by blast
  from run_then_step [OF bg(1) own_read [OF p] bg(2)] r show ?thesis by (cases t) auto
qed

lemma write_events_Pending [simp]: "write_events s Pending = []"
  by (cases s) simp_all

lemma write_pending_state:
  "AsyncSocket_write api k h cx s w = Some (Return (Pending, s'), w') \<Longrightarrow> s' = s"
  by (cases s) (auto simp: resumed_after_completion_def elim!: pbind_ReturnE split: poll.split_asm)

lemma write_call_run:
  assumes laws: "executor_laws api k v h" and ret: "sys_tcp_stream_write api k h bs w = Some (Return r, w')"
  shows "\<exists>es. socket_run api k v h w es w' \<and> reads es = [] \<and>
    writes es = (case r of Ok n \<Rightarrow> take n bs | Err u \<Rightarrow> [])"
proof -
  from ret obtain r1 where r: "r = flatten_result r1"
    and run: "poll_on api k (AsyncSocket_write api k h) (WriteWait bs) None w = Some (Return r1, w')"
    by (auto simp: sys_tcp_stream_write_def elim!: pbind_ReturnE)
  have pending: "s' = WriteWait bs \<and> background_run api k v h w w'"
    if "s = WriteWait bs" and p: "AsyncSocket_write api k h cx s w = Some (Return (Pending, s'), w')" for cx s w s' w'
    using that(1) write_pending_state [OF p] background_step [OF own_write [OF p], of v] by simp
  have "\<exists>t s s' cx w1 w2. r1 = Ok t \<and> background_run api k v h w w1 \<and> s = WriteWait bs \<and>
    AsyncSocket_write api k h cx s w1 = Some (Return (Ready t, s'), w2) \<and> background_run api k v h w2 w'"
    by (rule poll_on_within [where I = "\<lambda>s. s = WriteWait bs", OF executor_surroundings [OF laws] refl _ run])
      (rule pending)
  then obtain t cx w1 s' w2 where "r1 = Ok t" and bg: "background_run api k v h w w1" "background_run api k v h w2 w'"
    and p: "AsyncSocket_write api k h cx (WriteWait bs) w1 = Some (Return (Ready t, s'), w2)" by blast
  with run_then_step [OF bg(1) own_write [OF p] bg(2)] r show ?thesis by (cases t) auto
qed

text \<open>A section on one socket leaves every other socket as it is, wakers included.\<close>

lemma poll_with_other_socket:
  assumes "socket_set_laws api" and "h' \<noteq> h" and "poll_with api k h op w = Some (Return p, w')"
  shows "socket_of api h' w' = socket_of api h' w"
  using assms(3) socket_set_get_put [OF assms(1), of _ h _ h'] assms(2)
  unfolding poll_with_def socket_with_Return_iff by (auto simp: socket_of_def set_nic_def)

lemma read_other_socket:
  assumes "socket_set_laws api" and "h' \<noteq> h" and "AsyncSocket_read api k h cx st w = Some (Return (p, st'), w')"
  shows "socket_of api h' w' = socket_of api h' w"
  using assms(3) by (cases st) (auto simp: resumed_after_completion_def elim!: pbind_ReturnE
    dest: poll_with_other_socket [OF assms(1,2)])

lemma write_other_socket:
  assumes "socket_set_laws api" and "h' \<noteq> h" and "AsyncSocket_write api k h cx st w = Some (Return (p, st'), w')"
  shows "socket_of api h' w' = socket_of api h' w"
  using assms(3) by (cases st) (auto simp: resumed_after_completion_def elim!: pbind_ReturnE
    dest: poll_with_other_socket [OF assms(1,2)])

lemma poll_on_other_socket:
  assumes env: "surroundings_within api k (\<lambda>w w'. R (socket_of api h' w) (socket_of api h' w'))"
    and same: "\<And>cx s w p s' w'. future cx s w = Some (Return (p, s'), w') \<Longrightarrow>
      socket_of api h' w' = socket_of api h' w"
    and ret: "poll_on api k future st None w = Some (Return r, w')"
  shows "R (socket_of api h' w) (socket_of api h' w')"
proof -
  note refl = surroundingsD(1) [OF env]
  from poll_on_within [where I = "\<lambda>_. True", OF env TrueI _ ret] same refl obtain t s s' cx w1 w2 where
    "R (socket_of api h' w) (socket_of api h' w1)" and "future cx s w1 = Some (Return (Ready t, s'), w2)"
    and "R (socket_of api h' w2) (socket_of api h' w')" by fastforce
  with same surroundingsD(2) [OF env, of w w2 w'] show ?thesis by simp
qed

text \<open>
  A client of the connection \<open>h\<close>: it reads and writes, and between its calls other threads and the
  network do any operations of the crate except reading or writing \<open>h\<close>. \<open>got\<close> and \<open>sent\<close> are the bytes
  its calls have reported so far.
\<close>

inductive client_run :: "('ifc, 'set, 'sock, 'dhcp) smoltcp \<Rightarrow> ('ifc, 'set, 'dhcp, 'x, 'r) hkernel \<Rightarrow>
    ('sock \<Rightarrow> byte_stream) \<Rightarrow> Handle \<Rightarrow> ('ifc, 'set, 'dhcp, 'x) world_scheme \<Rightarrow> u8 list \<Rightarrow> u8 list \<Rightarrow>
    ('ifc, 'set, 'dhcp, 'x) world_scheme \<Rightarrow> bool"
  for api k v h w where
  client_starts: "client_run api k v h w [] [] w"
| others_run: "client_run api k v h w got sent w1 \<Longrightarrow> background_run api k v h w1 w2 \<Longrightarrow>
    client_run api k v h w got sent w2"
| client_reads: "client_run api k v h w got sent w1 \<Longrightarrow>
    sys_tcp_stream_read api k h len w1 = Some (Return r, w2) \<Longrightarrow>
    client_run api k v h w (got @ (case r of Ok bs \<Rightarrow> bs | Err u \<Rightarrow> [])) sent w2"
| client_writes: "client_run api k v h w got sent w1 \<Longrightarrow>
    sys_tcp_stream_write api k h bs w1 = Some (Return r, w2) \<Longrightarrow>
    client_run api k v h w got (sent @ (case r of Ok n \<Rightarrow> take n bs | Err u \<Rightarrow> [])) w2"

lemma client_run_events:
  assumes "executor_laws api k v h" and "client_run api k v h w got sent w'"
  shows "\<exists>es. socket_run api k v h w es w' \<and> reads es = got \<and> writes es = sent"
  using assms(2)
proof induction
  case client_starts
  then show ?case using run_refl by fastforce
next
  case (others_run got sent w1 w2)
  then show ?case unfolding background_run_def background_def
    by (metis append_Nil2 socket_run_trans trace_append)
next
  case (client_reads got sent w1 len r w2)
  with read_call_run [OF assms(1) client_reads(2)] show ?case
    by (metis append_Nil2 socket_run_trans trace_append)
next
  case (client_writes got sent w1 bs r w2)
  with write_call_run [OF assms(1) client_writes(2)] show ?case
    by (metis append_Nil2 socket_run_trans trace_append)
qed

section \<open>Properties\<close>

text \<open>
  C2: the sockets implement the abstract byte stream. Every atomic operation of the crate, by any thread
  and on any socket (a poll of \<open>read\<close>, \<open>write\<close>, \<open>close\<close>, \<open>connect\<close> or \<open>accept\<close>, the creation of a socket,
  \<open>peer_addr\<close>, the network task and the network thread), is a sequence of steps of the abstract machine
  of every socket of the interface, with the events its result reports: an operation on one socket is no
  event for another, only \<open>read\<close> takes bytes out of the receive buffer, and it takes those it returns.
\<close>
theorem socket_step_refines_stream:
  assumes "stream_laws api v" and "socket_step api k v h w es w'" and "stream_of api v h w = Some q"
  shows "\<exists>q'. stream_of api v h w' = Some q' \<and> stream_run es q = Some q'"
  using assms(2,1,3) by (rule step_simulated)

text \<open>
  C3: the system calls are a reliable byte stream. A client makes any sequence of \<open>sys_tcp_stream_read\<close>
  and \<open>sys_tcp_stream_write\<close> calls on a connection, including calls that fail; between the calls and
  whenever one of them is in the kernel, other threads and the network do any operations of the crate,
  only they do not read or write this connection. Then the bytes the calls return are, in order and
  without loss or duplication, what was unread and what the stack has delivered since, up to what is still
  unread; the bytes they accept are queued for sending in order, behind those that were queued, and leave
  the queue only at its front. A connection that is opened anew or torn down on the way (\<open>Restarted\<close>) is
  excepted.
\<close>
theorem stream_calls_fifo:
  assumes "stream_laws api v" and "executor_laws api k v h" and "stream_of api v h w = Some q"
    and "client_run api k v h w got sent w'"
  shows "\<exists>es q'. socket_run api k v h w es w' \<and> stream_of api v h w' = Some q' \<and>
    (Restarted \<notin> set es \<longrightarrow>
       unread q @ deliveries es = got @ unread q' \<and>
       unsent q' = drop (retired es) (unsent q @ sent) \<and> retired es \<le> length (unsent q @ sent))"
proof -
  from client_run_events [OF assms(2,4)] obtain es where
    run: "socket_run api k v h w es w'" and "reads es = got" and "writes es = sent" by blast
  with run_simulated [OF run assms(1,3)] stream_run_fifo show ?thesis by metis
qed

text \<open>
  C8: a read or a write of one connection touches no other. Whatever relation \<open>R\<close> bounds what the
  surroundings of the call do to the socket of another connection (the kernel, the tasks the executor
  runs, other threads), the whole call stays within it: with equality for \<open>R\<close>, if nothing else touches
  that socket, then its state, its buffers and its wakers are the same after the call.
\<close>
theorem sys_tcp_stream_read_isolated:
  assumes "socket_set_laws api" and "h' \<noteq> h"
    and "surroundings_within api k (\<lambda>w w'. R (socket_of api h' w) (socket_of api h' w'))"
  shows "(sys_tcp_stream_read api k h len w = Some (Return r, w1) \<longrightarrow>
      R (socket_of api h' w) (socket_of api h' w1)) \<and>
    (sys_tcp_stream_write api k h bs w = Some (Return n, w2) \<longrightarrow>
      R (socket_of api h' w) (socket_of api h' w2))"
  unfolding sys_tcp_stream_read_def sys_tcp_stream_write_def
  by (auto elim!: pbind_ReturnE
    intro: poll_on_other_socket [where R = R, OF assms(3) read_other_socket [OF assms(1,2)]]
      poll_on_other_socket [where R = R, OF assms(3) write_other_socket [OF assms(1,2)]])


section \<open>Witnesses\<close>

definition demo_view :: "demo_sock \<Rightarrow> byte_stream" where
  "demo_view s = \<lparr>unread = sk_rx s, unsent = sk_tx s\<rparr>"

lemma demo_net_change: "net_change demo_stack demo_view s (demo_establish s)"
  by (auto simp: net_change_def demo_stack_def demo_view_def demo_establish_def intro: exI [of _ 0])

lemma demo_stream_laws: "stream_laws demo_stack demo_view"
  unfolding stream_laws_def
proof (intro conjI demo_socket_set_laws)
  show "network_laws demo_stack demo_view"
    using demo_net_change
    by (auto simp: network_laws_def demo_stack_def demo_iface_poll_def split: if_splits)
qed (auto simp: transfer_laws_def control_laws_def open_laws_def demo_stack_def demo_view_def
    demo_close_def empty_stream_def split: if_splits)

lemma demo_receive_laws: "receive_laws demo_stack demo_view"
  by (auto simp: receive_laws_def demo_stack_def demo_view_def)

lemma demo_runnable_run:
  "runnable_run demo_kernel fut sched r = pbind (fut NetworkRun (TaskWaker r)) (\<lambda>_. pret ())"
  by (simp add: demo_kernel_def)

lemma demo_executor_laws: "executor_laws demo_stack demo_kernel demo_view h"
  unfolding executor_laws_def
proof (intro conjI allI impI)
  fix r u and w w' :: demo_world
  assume "runnable_run demo_kernel (task_future demo_stack demo_kernel) (schedule demo_kernel) r w
    = Some (Return u, w')"
  then have "\<exists>c cx p. task_future demo_stack demo_kernel c cx w = Some (Return p, w')"
    unfolding demo_runnable_run by (elim pbind_ReturnE) (auto simp del: task_future.simps)
  then show "(\<lambda>w w'. background_run demo_stack demo_kernel demo_view h w w' \<or>
      (\<exists>c cx p. task_future demo_stack demo_kernel c cx w = Some (Return p, w')))\<^sup>*\<^sup>* w w'" by blast
qed (rule background_kernel, simp add: demo_kernel_def demo_log_def same_statics_def split: list.split)+

lemma demo_conn_stream:
  "stream_of demo_stack demo_view 0 (demo_conn_world s) = Some (demo_view s)"
  by (simp add: stream_of_def demo_conn_world_def demo_stack_def)

lemma demo_data_view: "demo_view demo_data_sock = \<lparr>unread = [1, 2, 3], unsent = []\<rparr>"
  by (simp add: demo_view_def demo_data_sock_def demo_closed_def)

lemma demo_read_step:
  "\<exists>w'. socket_step demo_stack demo_kernel demo_view 0 (demo_conn_world demo_data_sock) [Read [1, 2]] w'"
proof -
  have "\<exists>w'. AsyncSocket_read demo_stack demo_kernel 0 (ThreadWaker 7) (ReadWait 2)
     (demo_conn_world demo_data_sock) = Some (Return (Ready (Ok [1, 2]), ReadDone), w')"
    by (simp add: demo_run_defs read_poll_def demo_data_sock_def)
  then obtain w' where "AsyncSocket_read demo_stack demo_kernel 0 (ThreadWaker 7) (ReadWait 2)
     (demo_conn_world demo_data_sock) = Some (Return (Ready (Ok [1, 2]), ReadDone), w')" ..
  from own_read [OF this, of demo_view] show ?thesis by auto
qed

theorem socket_step_refines_stream_witness:
  "\<exists>w'. socket_step demo_stack demo_kernel demo_view 0 (demo_conn_world demo_data_sock) [Read [1, 2]] w' \<and>
     stream_of demo_stack demo_view 0 w' = Some \<lparr>unread = [3], unsent = []\<rparr>"
proof -
  obtain w' where step: "socket_step demo_stack demo_kernel demo_view 0 (demo_conn_world demo_data_sock)
    [Read [1, 2]] w'" using demo_read_step by blast
  from socket_step_refines_stream [OF demo_stream_laws step demo_conn_stream] step show ?thesis
    by (auto simp: demo_data_view)
qed

text \<open>A client that reads, writes and reads again; in between another thread creates a socket.\<close>

lemma demo_second_read:
  "\<exists>w1 w2 w3 w4.
     sys_tcp_stream_read demo_stack demo_kernel 0 2 (demo_conn_world demo_data_sock) = Some (Return (Ok [1, 2]), w1) \<and>
     AsyncSocket_new demo_stack w1 = Some (Return 1, w2) \<and>
     sys_tcp_stream_write demo_stack demo_kernel 0 [9, 8] w2 = Some (Return (Ok 2), w3) \<and>
     sys_tcp_stream_read demo_stack demo_kernel 0 5 w3 = Some (Return (Ok [3]), w4)"
  by (simp add: sys_tcp_stream_read_def sys_tcp_stream_write_def poll_on_def Let_def AsyncSocket_new_def
      create_handle_def poll_driver.driver_ready demo_run_defs read_poll_def write_poll_def demo_data_sock_def)

lemma demo_client_run:
  "\<exists>w'. client_run demo_stack demo_kernel demo_view 0 (demo_conn_world demo_data_sock) [1, 2, 3] [9, 8] w'"
proof -
  obtain w1 w2 w3 w4 where
    calls: "sys_tcp_stream_read demo_stack demo_kernel 0 2 (demo_conn_world demo_data_sock) = Some (Return (Ok [1, 2]), w1)"
      "sys_tcp_stream_write demo_stack demo_kernel 0 [9, 8] w2 = Some (Return (Ok 2), w3)"
      "sys_tcp_stream_read demo_stack demo_kernel 0 5 w3 = Some (Return (Ok [3]), w4)"
    and other: "AsyncSocket_new demo_stack w1 = Some (Return 1, w2)" using demo_second_read by blast
  from background_step [OF new_socket [OF other]]
  have bg: "background_run demo_stack demo_kernel demo_view 0 w1 w2" by simp
  from client_reads [OF client_writes [OF others_run [OF client_reads [OF client_starts calls(1)] bg] calls(2)] calls(3)]
  show ?thesis by auto
qed

theorem stream_calls_fifo_witness:
  "\<exists>w' es q'. client_run demo_stack demo_kernel demo_view 0 (demo_conn_world demo_data_sock) [1, 2, 3] [9, 8] w' \<and>
     stream_of demo_stack demo_view 0 w' = Some q' \<and>
     (Restarted \<notin> set es \<longrightarrow> [1, 2, 3] @ deliveries es = [1, 2, 3] @ unread q')"
  using demo_client_run stream_calls_fifo [OF demo_stream_laws demo_executor_laws demo_conn_stream]
  by (fastforce simp: demo_data_view)

text \<open>A connection that the peer has closed and of which everything was read.\<close>

lemma demo_read_end:
  "\<exists>w'. sys_tcp_stream_read demo_stack demo_kernel 0 2 (demo_conn_world (demo_closed\<lparr>sk_state := CloseWait\<rparr>))
     = Some (Return (Ok []), w')"
  by (simp add: sys_tcp_stream_read_def poll_on_def Let_def poll_driver.driver_ready demo_run_defs read_poll_def)


text \<open>Two sockets: reading the first leaves what the second has received and queued as it is.\<close>

definition demo_two_sockets :: demo_world where
  "demo_two_sockets = demo_world0\<lparr>nic_state := Initialized (demo_nic\<lparr>sockets := [demo_data_sock, demo_data_sock]\<rparr>)\<rparr>"

lemma demo_read_first:
  "\<exists>w'. sys_tcp_stream_read demo_stack demo_kernel 0 2 demo_two_sockets = Some (Return (Ok [1, 2]), w')"
  by (simp add: demo_two_sockets_def sys_tcp_stream_read_def poll_on_def Let_def poll_driver.driver_ready
      demo_run_defs read_poll_def demo_data_sock_def)

interpretation demo_net: nic_invariant demo_stack
  "\<lambda>nic. map_option demo_view (SocketSet_get demo_stack (sockets nic) h) = q" for h q
  by unfold_locales (auto simp: demo_stack_def demo_iface_poll_def demo_view_def demo_establish_def
    split: if_splits)

lemma demo_network_run_view:
  assumes "network_run_poll demo_stack demo_kernel cx w = Some (Return p, w')"
  shows "stream_of demo_stack demo_view h w' = stream_of demo_stack demo_view h w"
proof (cases "nic_state w")
  case (Initialized nic)
  from demo_net.network_run_keeps [OF Initialized refl assms, of h] Initialized show ?thesis
    by (auto simp: stream_of_def)
qed (use assms in \<open>auto simp: network_run_poll_def nic_lock_Return_iff\<close>)

theorem sys_tcp_stream_read_isolated_witness:
  "\<exists>w'. sys_tcp_stream_read demo_stack demo_kernel 0 2 demo_two_sockets = Some (Return (Ok [1, 2]), w') \<and>
     map_option demo_view (socket_of demo_stack 1 w') = Some \<lparr>unread = [1, 2, 3], unsent = []\<rparr>"
proof -
  let ?R = "\<lambda>s t. map_option demo_view t = map_option demo_view s"
  have env: "surroundings_within demo_stack demo_kernel (\<lambda>w w'. ?R (socket_of demo_stack 1 w) (socket_of demo_stack 1 w'))"
    unfolding surroundings_within_def
  proof (intro conjI allI impI)
    fix r u and w w' :: demo_world
    assume "runnable_run demo_kernel (task_future demo_stack demo_kernel) (schedule demo_kernel) r w = Some (Return u, w')"
    then obtain cx p where "network_run_poll demo_stack demo_kernel cx w = Some (Return p, w')"
      unfolding demo_runnable_run by (elim pbind_ReturnE) auto
    from demo_network_run_view [OF this] show "?R (socket_of demo_stack 1 w) (socket_of demo_stack 1 w')"
      by (simp add: stream_of_socket)
  qed (auto simp: reflp_def transp_def demo_kernel_def demo_log_def socket_of_def split: list.splits)
  obtain w' where run: "sys_tcp_stream_read demo_stack demo_kernel 0 2 demo_two_sockets = Some (Return (Ok [1, 2]), w')"
    using demo_read_first by blast
  have "map_option demo_view (socket_of demo_stack 1 demo_two_sockets) = Some \<lparr>unread = [1, 2, 3], unsent = []\<rparr>"
    by (simp add: socket_of_def demo_two_sockets_def demo_stack_def demo_data_view)
  with sys_tcp_stream_read_isolated [OF demo_socket_set_laws _ env, of 0 2 demo_two_sockets "Ok [1, 2]" w'] run
  show ?thesis by auto
qed

end
