(* ===== verification/Netbench.thy ===== *)
theory Netbench
  imports Prelude
begin

text \<open>
  The network benchmarks of \<open>benches/netbench\<close>: the configuration (\<open>config.rs\<close>), the message loops
  (\<open>connection.rs\<close>), the thread placement (\<open>threading.rs\<close>) and the four programs. The operations on a TCP
  stream, the command-line parser \<open>clap\<close>, the histogram, \<open>core_affinity\<close>, the clock and the sleep are
  the fields of the record \<open>netlib\<close>; a stream is a value of type \<open>'s\<close>. Console output is left out.
  A value of type \<open>usize\<close> is a natural number; sums and products that can pass \<open>2 ^ 64\<close> are written
  with the overflow check of a debug build.
\<close>

section \<open>Configuration\<close>

record Config =
  address :: string
  port :: string
  n_bytes :: nat
  n_rounds :: nat
  no_delay :: bool
  non_blocking :: bool
  p_id :: int

definition address_and_port :: "Config \<Rightarrow> string" where
  "address_and_port c = address c @ '':'' @ port c"

definition punwrap_option :: "'a option \<Rightarrow> ('w, 'a) prog" where
  "punwrap_option x = (case x of None \<Rightarrow> ppanic ''called `Option::unwrap()` on a `None` value'' | Some a \<Rightarrow> pret a)"

definition pparse :: "(string \<Rightarrow> 'a option) \<Rightarrow> string option \<Rightarrow> ('w, 'a) prog" where
  "pparse parse x = pbind (punwrap_option x) (\<lambda>cs.
     case parse cs of None \<Rightarrow> ppanic ''called `Result::unwrap()` on an `Err` value'' | Some a \<Rightarrow> pret a)"

text \<open>\<open>a * b\<close> on \<open>usize\<close>: a debug build panics on overflow, a release build wraps.\<close>

definition pmul :: "nat \<Rightarrow> nat \<Rightarrow> ('w, nat) prog" where
  "pmul a b = (if a * b < 2 ^ 64 then pret (a * b) else ppanic ''attempt to multiply with overflow'')"

text \<open>
  \<open>parse_config\<close>: \<open>value_of\<close> are the matches of the command line, the defaults included. The product in
  the last check is formed in \<open>u128\<close>, where it cannot overflow.
\<close>

definition parse_config :: "(string \<Rightarrow> string option) \<Rightarrow> ('w, Config) prog" where
  "parse_config value_of =
     pbind (punwrap_option (value_of ''address'')) (\<lambda>address.
     pbind (punwrap_option (value_of ''port'')) (\<lambda>port.
     pbind (pparse parse_usize (value_of ''n_bytes'')) (\<lambda>n_bytes.
     pbind (pparse parse_usize (value_of ''rounds'')) (\<lambda>n_rounds.
     pbind (pparse parse_usize (value_of ''nodelay'')) (\<lambda>nodelay.
     pbind (pparse parse_usize (value_of ''nonblocking'')) (\<lambda>nonblocking.
     pbind (pparse parse_i8 (value_of ''thread'')) (\<lambda>p_id.
       if n_bytes > 100000000 then ppanic ''More than 100 MB per round''
       else
         pbind (pmul n_bytes 1000000) (\<lambda>x.
           if x * n_rounds > 2 ^ 64 - 1 then ppanic ''There's going to be too much data''
           else pret \<lparr>address = address, port = port, n_bytes = n_bytes, n_rounds = n_rounds,
             no_delay = nodelay > 0, non_blocking = nonblocking > 0, p_id = p_id\<rparr>))))))))"

section \<open>Streams\<close>

datatype io_error = WouldBlock | Interrupted | OtherIo nat

type_synonym 'a io_result = "('a, io_error) result"

record ('w, 's) netlib =
  stream_write :: "'s \<Rightarrow> u8 list \<Rightarrow> ('w, nat io_result) prog"
  stream_read :: "'s \<Rightarrow> nat \<Rightarrow> ('w, u8 list io_result) prog"
  stream_read_exact :: "'s \<Rightarrow> nat \<Rightarrow> ('w, u8 list io_result) prog"
  stream_flush :: "'s \<Rightarrow> ('w, unit io_result) prog"
  stream_set_nodelay :: "'s \<Rightarrow> bool \<Rightarrow> ('w, unit io_result) prog"
  stream_set_nonblocking :: "'s \<Rightarrow> bool \<Rightarrow> ('w, unit io_result) prog"
  stream_shutdown_both :: "'s \<Rightarrow> ('w, unit io_result) prog"
  stream_peer_addr :: "'s \<Rightarrow> ('w, unit io_result) prog"
  stream_connect :: "string \<Rightarrow> ('w, 's io_result) prog"
  listener_bind :: "string \<Rightarrow> ('w, unit io_result) prog"
  listener_next :: "('w, 's io_result) prog"
  get_core_ids :: "('w, nat list option) prog"
  set_for_current :: "nat \<Rightarrow> ('w, unit) prog"
  nanos_now :: "('w, nat) prog"
  hist_add_value :: "nat \<Rightarrow> ('w, unit) prog"
  sleep_secs :: "nat \<Rightarrow> ('w, unit) prog"

text \<open>The slice \<open>&buf[from..]\<close>, which panics if \<open>from\<close> is past the end.\<close>

definition slice_from :: "nat \<Rightarrow> 'a list \<Rightarrow> ('w, 'a list) prog" where
  "slice_from from buf = (if from \<le> length buf then pret (drop from buf) else ppanic ''slice index starts past the end'')"

definition send_body :: "('w, 's) netlib \<Rightarrow> nat \<Rightarrow> 's \<Rightarrow> u8 list \<Rightarrow> nat \<Rightarrow> ('w, (unit, nat) flow) prog" where
  "send_body lib n stream wbuf send =
     (if send < n then
        pbind (slice_from send wbuf) (\<lambda>bs.
        pbind (stream_write lib stream bs) (\<lambda>r.
          case r of
            Ok m \<Rightarrow> pret (Continue (send + m))
          | Err WouldBlock \<Rightarrow> pret (Continue send)
          | Err e \<Rightarrow> ppanic ''Error occurred while writing''))
      else pret (Break ()))"

definition send_message :: "('w, 's) netlib \<Rightarrow> nat \<Rightarrow> 's \<Rightarrow> u8 list \<Rightarrow> ('w, unit) prog" where
  "send_message lib n stream wbuf = rust_loop (send_body lib n stream wbuf) 0"

text \<open>The buffer that \<open>receive_message\<close> fills is threaded through the loop.\<close>

definition receive_body :: "('w, 's) netlib \<Rightarrow> nat \<Rightarrow> 's \<Rightarrow> nat \<times> u8 list \<Rightarrow>
    ('w, (u8 list, nat \<times> u8 list) flow) prog" where
  "receive_body lib n stream = (\<lambda>(recv, rbuf).
     if recv < n then
       pbind (slice_from recv rbuf) (\<lambda>bs.
       pbind (stream_read lib stream (length bs)) (\<lambda>r.
         case r of
           Ok got \<Rightarrow> pret (Continue (recv + length got, take recv rbuf @ got @ drop (recv + length got) rbuf))
         | Err WouldBlock \<Rightarrow> pret (Continue (recv, rbuf))
         | Err e \<Rightarrow> ppanic ''Error occurred while reading''))
     else pret (Break rbuf))"

definition receive_message :: "('w, 's) netlib \<Rightarrow> nat \<Rightarrow> 's \<Rightarrow> u8 list \<Rightarrow> ('w, u8 list) prog" where
  "receive_message lib n stream rbuf = rust_loop (receive_body lib n stream) (0, rbuf)"

definition connection_setup :: "('w, 's) netlib \<Rightarrow> Config \<Rightarrow> 's \<Rightarrow> ('w, unit) prog" where
  "connection_setup lib config stream =
     pbind (if no_delay config
            then pbind (stream_set_nodelay lib stream True) (punwrap ''Can't set no_delay to true'')
            else pret ()) (\<lambda>_.
       if non_blocking config
       then pbind (stream_set_nonblocking lib stream True) (punwrap ''Can't set channel to be non-blocking'')
       else pret ())"

definition client_connect :: "('w, 's) netlib \<Rightarrow> string \<Rightarrow> ('w, 's io_result) prog" where
  "client_connect lib addr = stream_connect lib addr"

definition close_connection :: "('w, 's) netlib \<Rightarrow> 's \<Rightarrow> ('w, unit) prog" where
  "close_connection lib stream = pbind (stream_shutdown_both lib stream) (punwrap ''shutdown call failed'')"

definition server_listen_and_get_first_connection :: "('w, 's) netlib \<Rightarrow> string \<Rightarrow> ('w, 's) prog" where
  "server_listen_and_get_first_connection lib prt =
     pbind (listener_bind lib (''0.0.0.0:'' @ prt)) (\<lambda>r.
     pbind (punwrap ''bind'' r) (\<lambda>_.
     pbind (listener_next lib) (\<lambda>r.
     pbind (punwrap ''incoming'' r) (\<lambda>stream.
     pbind (stream_peer_addr lib stream) (\<lambda>r.
     pbind (punwrap ''peer_addr'' r) (\<lambda>_. pret stream))))))"

definition threading_setup :: "('w, 's) netlib \<Rightarrow> Config \<Rightarrow> ('w, unit) prog" where
  "threading_setup lib config =
     (if p_id config \<ge> 0 then
        pbind (get_core_ids lib) (\<lambda>ids.
        pbind (punwrap_option ids) (\<lambda>core_ids.
          if core_ids = [] then ppanic ''attempt to calculate the remainder with a divisor of zero''
          else set_for_current lib (core_ids ! (nat (p_id config) mod length core_ids))))
      else pret ())"

section \<open>Programs\<close>

text \<open>\<open>rust-tcp-bw/client.rs\<close>: one round writes the buffer.\<close>

definition bw_write_body :: "('w, 's) netlib \<Rightarrow> 's \<Rightarrow> u8 list \<Rightarrow> nat \<Rightarrow> ('w, (unit, nat) flow) prog" where
  "bw_write_body lib stream buf pos =
     (if pos < length buf then
        pbind (slice_from pos buf) (\<lambda>bs.
        pbind (stream_write lib stream bs) (\<lambda>r.
          case r of
            Ok len \<Rightarrow> pret (Continue (pos + len))
          | Err WouldBlock \<Rightarrow> pret (Continue (pos + 0))
          | Err e \<Rightarrow> ppanic ''encountered IO error''))
      else pret (Break ()))"

definition bw_client_main :: "('w, 's) netlib \<Rightarrow> (string \<Rightarrow> string option) \<Rightarrow> ('w, unit) prog" where
  "bw_client_main lib value_of =
     pbind (parse_config value_of) (\<lambda>args.
     pbind (client_connect lib (address_and_port args)) (\<lambda>r.
       case r of
         Ok stream \<Rightarrow>
           pbind (connection_setup lib args stream) (\<lambda>_.
           let buf = replicate (n_bytes args) 0
           in pbind (pfor [0..<n_rounds args] (\<lambda>i _. rust_loop (bw_write_body lib stream buf) 0) ()) (\<lambda>_.
              pbind (stream_flush lib stream) (\<lambda>r.
              pbind (punwrap ''Unexpected behaviour'' r) (\<lambda>_.
                close_connection lib stream))))
       | Err _ \<Rightarrow> pret ()))"

text \<open>\<open>rust-tcp-bw/server.rs\<close>; the result is the number of bytes that the report is computed from.\<close>

definition bw_server_main :: "('w, 's) netlib \<Rightarrow> (string \<Rightarrow> string option) \<Rightarrow> ('w, nat) prog" where
  "bw_server_main lib value_of =
     pbind (parse_config value_of) (\<lambda>args.
     pbind (pmul (n_rounds args) (n_bytes args)) (\<lambda>tot_bytes.
     pbind (server_listen_and_get_first_connection lib (port args)) (\<lambda>stream.
     pbind (connection_setup lib args stream) (\<lambda>_.
     pbind (pfor [0..<n_rounds args] (\<lambda>i buf.
         pbind (stream_read_exact lib stream (length buf)) (punwrap ''read_exact''))
         (replicate (n_bytes args) 0)) (\<lambda>_.
       pret tot_bytes)))))"

text \<open>\<open>rust-tcp-latency/client.rs\<close>: the round trip \<open>i\<close> of a connection.\<close>

definition latency_round :: "('w, 's) netlib \<Rightarrow> Config \<Rightarrow> nat \<Rightarrow> 's \<Rightarrow> u8 list \<Rightarrow> nat \<Rightarrow> u8 list \<Rightarrow>
    ('w, u8 list) prog" where
  "latency_round lib args progress_tracking_percentage stream wbuf i rbuf =
     pbind (nanos_now lib) (\<lambda>start.
     pbind (send_message lib (n_bytes args) stream wbuf) (\<lambda>_.
     pbind (receive_message lib (n_bytes args) stream rbuf) (\<lambda>rbuf.
     pbind (nanos_now lib) (\<lambda>now.
     pbind (if i \<ge> n_rounds args then hist_add_value lib (now - start) else pret ()) (\<lambda>_.
       if progress_tracking_percentage = 0
       then ppanic ''attempt to calculate the remainder with a divisor of zero''
       else pret rbuf)))))"

definition latency_connect_body :: "('w, 's) netlib \<Rightarrow> Config \<Rightarrow> nat \<Rightarrow> u8 list \<Rightarrow> u8 list \<Rightarrow>
    ('w, (unit, u8 list) flow) prog" where
  "latency_connect_body lib args progress_tracking_percentage wbuf rbuf =
     pbind (client_connect lib (address_and_port args)) (\<lambda>r.
       case r of
         Ok stream \<Rightarrow>
           pbind (connection_setup lib args stream) (\<lambda>_.
           pbind (threading_setup lib args) (\<lambda>_.
           pbind (pmul (n_rounds args) 2) (\<lambda>rounds.
           pbind (pfor [0..<rounds] (latency_round lib args progress_tracking_percentage stream wbuf) rbuf) (\<lambda>_.
           pbind (close_connection lib stream) (\<lambda>_. pret (Break ()))))))
       | Err _ \<Rightarrow> pbind (sleep_secs lib 1) (\<lambda>_. pret (Continue rbuf)))"

definition latency_client_main :: "('w, 's) netlib \<Rightarrow> (string \<Rightarrow> string option) \<Rightarrow> ('w, unit) prog" where
  "latency_client_main lib value_of =
     pbind (parse_config value_of) (\<lambda>args.
     pbind (pmul (n_rounds args) 2) (\<lambda>double.
       rust_loop (latency_connect_body lib args (double div 100) (replicate (n_bytes args) 0))
         (replicate (n_bytes args) 0)))"

text \<open>\<open>rust-tcp-latency/server.rs\<close>\<close>

definition latency_server_main :: "('w, 's) netlib \<Rightarrow> (string \<Rightarrow> string option) \<Rightarrow> ('w, unit) prog" where
  "latency_server_main lib value_of =
     pbind (parse_config value_of) (\<lambda>args.
     pbind (server_listen_and_get_first_connection lib (port args)) (\<lambda>stream.
     pbind (connection_setup lib args stream) (\<lambda>_.
     pbind (threading_setup lib args) (\<lambda>_.
     pbind (pmul (n_rounds args) 2) (\<lambda>rounds.
     pbind (pfor [0..<rounds] (\<lambda>i buf.
         pbind (receive_message lib (n_bytes args) stream buf) (\<lambda>buf.
         pbind (send_message lib (n_bytes args) stream buf) (\<lambda>_. pret buf)))
         (replicate (n_bytes args) 0)) (\<lambda>_. pret ()))))))"

section \<open>What the theorems rely on of a stream\<close>

text \<open>
  \<open>write\<close> returns; \<open>Ok(m)\<close> means that the first \<open>m\<close> bytes, no more than given, were sent, an error that
  none was. \<open>read\<close> returns; \<open>Ok\<close> means that at most as many bytes as asked for were taken from the
  incoming data. \<open>sent\<close> and \<open>received\<close> are the bytes that have gone through the stream.
\<close>

definition write_laws :: "('w, 's) netlib \<Rightarrow> 's \<Rightarrow> ('w \<Rightarrow> u8 list) \<Rightarrow> bool" where
  "write_laws lib s sent \<longleftrightarrow> (\<forall>bs w. \<exists>r w'. stream_write lib s bs w = Some (Return r, w') \<and>
     (case r of Ok m \<Rightarrow> m \<le> length bs \<and> sent w' = sent w @ take m bs | Err _ \<Rightarrow> sent w' = sent w))"

definition read_laws :: "('w, 's) netlib \<Rightarrow> 's \<Rightarrow> ('w \<Rightarrow> u8 list) \<Rightarrow> bool" where
  "read_laws lib s received \<longleftrightarrow> (\<forall>n w. \<exists>r w'. stream_read lib s n w = Some (Return r, w') \<and>
     (case r of Ok bs \<Rightarrow> length bs \<le> n \<and> received w' = received w @ bs | Err _ \<Rightarrow> received w' = received w))"

lemma slice_from_eq [simp]: "k \<le> length buf \<Longrightarrow> slice_from k buf = pret (drop k buf)"
  by (simp add: slice_from_def)

text \<open>
  The same for a stream whose effect is a relation: \<open>moves w bs w'\<close> says that the bytes \<open>bs\<close> have gone through
  the stream between \<open>w\<close> and \<open>w'\<close>. The message loops are proved correct for such a stream; a stream with
  the laws above is one.
\<close>

definition composes :: "('w \<Rightarrow> u8 list \<Rightarrow> 'w \<Rightarrow> bool) \<Rightarrow> bool" where
  "composes moves \<longleftrightarrow> (\<forall>w. moves w [] w) \<and>
     (\<forall>w as w1 bs w2. moves w as w1 \<longrightarrow> moves w1 bs w2 \<longrightarrow> moves w (as @ bs) w2)"

definition moves_out :: "('w, 's) netlib \<Rightarrow> 's \<Rightarrow> ('w \<Rightarrow> u8 list \<Rightarrow> 'w \<Rightarrow> bool) \<Rightarrow> bool" where
  "moves_out lib s moves \<longleftrightarrow> composes moves \<and>
     (\<forall>bs w r w'. stream_write lib s bs w = Some (Return r, w') \<longrightarrow>
        (case r of Ok m \<Rightarrow> m \<le> length bs \<and> moves w (take m bs) w' | Err _ \<Rightarrow> moves w [] w'))"

definition moves_in :: "('w, 's) netlib \<Rightarrow> 's \<Rightarrow> ('w \<Rightarrow> u8 list \<Rightarrow> 'w \<Rightarrow> bool) \<Rightarrow> bool" where
  "moves_in lib s moves \<longleftrightarrow> composes moves \<and>
     (\<forall>n w r w'. stream_read lib s n w = Some (Return r, w') \<longrightarrow>
        (case r of Ok bs \<Rightarrow> length bs \<le> n \<and> moves w bs w' | Err _ \<Rightarrow> moves w [] w'))"

lemma composesD:
  assumes "composes moves"
  shows "moves w [] w" and "moves w as w1 \<Longrightarrow> moves w1 bs w2 \<Longrightarrow> moves w (as @ bs) w2"
  using assms unfolding composes_def by blast+

lemma moves_outD:
  "moves_out lib s moves \<Longrightarrow> stream_write lib s bs w = Some (Return r, w') \<Longrightarrow>
     case r of Ok m \<Rightarrow> m \<le> length bs \<and> moves w (take m bs) w' | Err _ \<Rightarrow> moves w [] w'"
  unfolding moves_out_def by blast

lemma moves_inD:
  "moves_in lib s moves \<Longrightarrow> stream_read lib s n w = Some (Return r, w') \<Longrightarrow>
     case r of Ok bs \<Rightarrow> length bs \<le> n \<and> moves w bs w' | Err _ \<Rightarrow> moves w [] w'"
  unfolding moves_in_def by blast

lemma write_laws_moves_out:
  assumes "write_laws lib s sent"
  shows "moves_out lib s (\<lambda>w bs w'. sent w' = sent w @ bs)"
  unfolding moves_out_def
proof (intro conjI allI impI)
  fix bs w r w' assume r: "stream_write lib s bs w = Some (Return r, w')"
  obtain r0 w0 where "stream_write lib s bs w = Some (Return r0, w0)"
    and "case r0 of Ok m \<Rightarrow> m \<le> length bs \<and> sent w0 = sent w @ take m bs | Err _ \<Rightarrow> sent w0 = sent w"
    using assms unfolding write_laws_def by blast
  with r show "case r of Ok m \<Rightarrow> m \<le> length bs \<and> sent w' = sent w @ take m bs | Err _ \<Rightarrow> sent w' = sent w @ []"
    by (cases r) auto
qed (simp add: composes_def)

lemma read_laws_moves_in:
  assumes "read_laws lib s received"
  shows "moves_in lib s (\<lambda>w bs w'. received w' = received w @ bs)"
  unfolding moves_in_def
proof (intro conjI allI impI)
  fix n w r w' assume r: "stream_read lib s n w = Some (Return r, w')"
  obtain r0 w0 where "stream_read lib s n w = Some (Return r0, w0)"
    and "case r0 of Ok bs \<Rightarrow> length bs \<le> n \<and> received w0 = received w @ bs | Err _ \<Rightarrow> received w0 = received w"
    using assms unfolding read_laws_def by blast
  with r show "case r of Ok bs \<Rightarrow> length bs \<le> n \<and> received w' = received w @ bs | Err _ \<Rightarrow> received w' = received w @ []"
    by (cases r) auto
qed (simp add: composes_def)

text \<open>One iteration of the loops, at a position inside the buffer.\<close>

lemma send_body_Continue:
  assumes "moves_out lib s moves" and "k \<le> length wbuf"
    and "send_body lib n s wbuf k w = Some (Return (Continue k'), w')"
  shows "k \<le> k' \<and> k' \<le> length wbuf \<and> moves w (take (k' - k) (drop k wbuf)) w'"
proof -
  from assms(2,3) obtain r w1 where "stream_write lib s (drop k wbuf) w = Some (Return r, w1)"
    and "(case r of Ok m \<Rightarrow> pret (Continue (k + m)) | Err WouldBlock \<Rightarrow> pret (Continue k)
      | Err e \<Rightarrow> ppanic ''Error occurred while writing'') w1 = Some (Return (Continue k' :: (unit, nat) flow), w')"
    by (auto simp: send_body_def elim!: pbind_ReturnE split: if_splits)
  with moves_outD [OF assms(1) this(1)] assms(2) show ?thesis
    by (auto split: result.split_asm io_error.split_asm)
qed

lemma receive_body_Continue:
  assumes "moves_in lib s moves" and "k \<le> length rbuf"
    and "receive_body lib n s (k, rbuf) w = Some (Return (Continue (k', rbuf')), w')"
  shows "\<exists>got. k' = k + length got \<and> rbuf' = take k rbuf @ got @ drop k' rbuf \<and>
    k' \<le> length rbuf \<and> moves w got w'"
proof -
  from assms(2,3) obtain r w1 where "stream_read lib s (length rbuf - k) w = Some (Return r, w1)"
    and "(case r of Ok got \<Rightarrow> pret (Continue (k + length got, take k rbuf @ got @ drop (k + length got) rbuf))
      | Err WouldBlock \<Rightarrow> pret (Continue (k, rbuf))
      | Err e \<Rightarrow> ppanic ''Error occurred while reading'') w1
        = Some (Return (Continue (k', rbuf') :: (u8 list, nat \<times> u8 list) flow), w')"
    by (auto simp: receive_body_def elim!: pbind_ReturnE split: if_splits)
  with moves_inD [OF assms(1) this(1)] assms(2) show ?thesis
    by (auto split: result.split_asm io_error.split_asm)
qed

lemma send_body_Break:
  "k \<le> length wbuf \<Longrightarrow> send_body lib n s wbuf k w = Some (Return (Break u), w') \<Longrightarrow> n \<le> k \<and> w' = w"
  by (auto simp: send_body_def elim!: pbind_ReturnE split: if_splits result.split_asm io_error.split_asm)

lemma receive_body_Break:
  "k \<le> length rbuf \<Longrightarrow> receive_body lib n s (k, rbuf) w = Some (Return (Break b), w') \<Longrightarrow>
     n \<le> k \<and> b = rbuf \<and> w' = w"
  by (auto simp: receive_body_def elim!: pbind_ReturnE split: if_splits result.split_asm io_error.split_asm)

lemma send_message_moves:
  assumes laws: "moves_out lib s moves" and run: "send_message lib n s wbuf w = Some (Return u, w')"
  shows "\<exists>k. n \<le> k \<and> k \<le> length wbuf \<and> moves w (take k wbuf) w'"
proof -
  note c = composesD [OF laws [unfolded moves_out_def, THEN conjunct1]]
  let ?Q = "\<lambda>(out, w'). \<forall>u :: unit. out = Return u \<longrightarrow> (\<exists>k. n \<le> k \<and> k \<le> length wbuf \<and> moves w (take k wbuf) w')"
  have "?Q (Return u, w')"
  proof (rule rust_loop_invariant [where Inv = "\<lambda>k w1. k \<le> length wbuf \<and> moves w (take k wbuf) w1",
        OF run [unfolded send_message_def]])
    fix k w1 k' w2
    assume inv: "k \<le> length wbuf \<and> moves w (take k wbuf) w1"
      and "send_body lib n s wbuf k w1 = Some (Return (Continue k'), w2)"
    from send_body_Continue [OF laws conjunct1 [OF inv] this(2)]
    have k': "k \<le> k'" "k' \<le> length wbuf" and m: "moves w1 (take (k' - k) (drop k wbuf)) w2" by auto
    from c(2) [OF conjunct2 [OF inv] m] k' show "k' \<le> length wbuf \<and> moves w (take k' wbuf) w2"
      by (simp flip: take_add)
  next
    fix k w1 r w2
    assume inv: "k \<le> length wbuf \<and> moves w (take k wbuf) w1"
      and b: "send_body lib n s wbuf k w1 = Some (Return (Break r), w2)"
    from send_body_Break [OF conjunct1 [OF inv] b] inv show "?Q (Return r, w2)" by blast
  qed (simp_all add: c(1))
  then show ?thesis by simp
qed

lemma receive_message_moves:
  assumes laws: "moves_in lib s moves" and run: "receive_message lib n s rbuf w = Some (Return rbuf', w')"
  shows "\<exists>k. n \<le> k \<and> length rbuf' = length rbuf \<and> moves w (take k rbuf') w' \<and> drop k rbuf' = drop k rbuf"
proof -
  note c = composesD [OF laws [unfolded moves_in_def, THEN conjunct1]]
  let ?Inv = "\<lambda>(k, buf) w1. k \<le> length buf \<and> length buf = length rbuf \<and> moves w (take k buf) w1 \<and>
    drop k buf = drop k rbuf"
  let ?Q = "\<lambda>(out, w'). \<forall>b. out = Return b \<longrightarrow>
    (\<exists>k. n \<le> k \<and> length b = length rbuf \<and> moves w (take k b) w' \<and> drop k b = drop k rbuf)"
  have "?Q (Return rbuf', w')"
  proof (rule rust_loop_invariant [where Inv = ?Inv, OF run [unfolded receive_message_def]])
    fix st w1 st' w2
    assume inv: "?Inv st w1" and body: "receive_body lib n s st w1 = Some (Return (Continue st'), w2)"
    obtain k buf k' buf' where st: "st = (k, buf)" "st' = (k', buf')" by fastforce
    from inv st have k: "k \<le> length buf" by simp
    from receive_body_Continue [OF laws k body [unfolded st]] obtain got where
      got: "k' = k + length got" "buf' = take k buf @ got @ drop k' buf" "k' \<le> length buf" "moves w1 got w2"
      by blast
    have "drop (length got) (drop k buf) = drop (length got) (drop k rbuf)" using inv st by simp
    then have d: "drop k' buf = drop k' rbuf" using got(1) by (simp add: add.commute)
    from inv st got(4) have "moves w (take k buf @ got) w2" using c(2) by auto
    with inv st k got(1-3) d show "?Inv st' w2" by auto
  next
    fix st w1 b w2
    assume inv: "?Inv st w1" and body: "receive_body lib n s st w1 = Some (Return (Break b), w2)"
    obtain k buf where st: "st = (k, buf)" by fastforce
    from inv st have "k \<le> length buf" by simp
    from receive_body_Break [OF this body [unfolded st]] inv st show "?Q (Return b, w2)" by auto
  qed (simp_all add: c(1))
  then show ?thesis by simp
qed

text \<open>With the laws the loops panic only on an error of the stream.\<close>

lemma send_message_panics:
  assumes laws: "write_laws lib s sent" and run: "send_message lib n s wbuf w = Some (Panic e, w')"
    and len: "n \<le> length wbuf"
  shows "e = ''Error occurred while writing''"
proof -
  have total: "\<exists>r w'. stream_write lib s bs w = Some (Return r, w')" for bs w
    using laws unfolding write_laws_def by blast
  let ?Q = "\<lambda>(out :: unit outcome, w'). \<forall>e. out = Panic e \<longrightarrow> e = ''Error occurred while writing''"
  have "?Q (Panic e, w')"
  proof (rule rust_loop_invariant [where Inv = "\<lambda>k _. k \<le> length wbuf", OF run [unfolded send_message_def]])
    fix k w1 e w2
    assume "k \<le> length wbuf" and p: "send_body lib n s wbuf k w1 = Some (Panic e, w2)"
    obtain r w3 where "stream_write lib s (drop k wbuf) w1 = Some (Return r, w3)" using total by blast
    with p \<open>k \<le> length wbuf\<close> show "?Q (Panic e, w2)"
      by (auto simp: send_body_def split: if_splits result.split_asm io_error.split_asm)
  next
    fix k w1 k' w2
    assume "k \<le> length wbuf" and "send_body lib n s wbuf k w1 = Some (Return (Continue k'), w2)"
    with send_body_Continue [OF write_laws_moves_out [OF laws]] show "k' \<le> length wbuf" by blast
  qed simp_all
  then show ?thesis by simp
qed

lemma receive_message_panics:
  assumes laws: "read_laws lib s received" and run: "receive_message lib n s rbuf w = Some (Panic e, w')"
  shows "e = ''Error occurred while reading''"
proof -
  have total: "\<exists>r w'. stream_read lib s m w = Some (Return r, w')" for m w
    using laws unfolding read_laws_def by blast
  let ?Q = "\<lambda>(out :: u8 list outcome, w'). \<forall>e. out = Panic e \<longrightarrow> e = ''Error occurred while reading''"
  have "?Q (Panic e, w')"
  proof (rule rust_loop_invariant [where Inv = "\<lambda>(k, buf) _. k \<le> length buf", OF run [unfolded receive_message_def]])
    fix st w1 st' w2
    assume "(\<lambda>(k, buf) _. k \<le> length buf) st w1"
      and "receive_body lib n s st w1 = Some (Return (Continue st'), w2)"
    then show "(\<lambda>(k, buf) _. k \<le> length buf) st' w2"
      using receive_body_Continue [OF read_laws_moves_in [OF laws]] by (cases st; cases st') fastforce
  next
    fix st w1 e w2
    assume k: "(\<lambda>(k, buf) _. k \<le> length buf) st w1" and p: "receive_body lib n s st w1 = Some (Panic e, w2)"
    obtain k buf where st: "st = (k, buf)" by fastforce
    obtain r w3 where "stream_read lib s (length buf - k) w1 = Some (Return r, w3)" using total by blast
    with p k st show "?Q (Panic e, w2)"
      by (auto simp: receive_body_def split: if_splits result.split_asm io_error.split_asm)
  qed simp_all
  then show ?thesis by simp
qed

section \<open>Configurations\<close>

lemma pparse_Return:
  "pparse parse x w = Some (Return a, w') \<Longrightarrow> w' = w \<and> (\<exists>cs. x = Some cs \<and> parse cs = Some a)"
  by (auto simp: pparse_def punwrap_option_def elim!: pbind_ReturnE split: option.split_asm)

lemma pmul_Return: "pmul a b w = Some (Return c, w') \<longleftrightarrow> a * b < 2 ^ 64 \<and> c = a * b \<and> w' = w"
  by (auto simp: pmul_def)

lemma parse_config_Return:
  assumes "parse_config value_of w = Some (Return c, w')"
  shows "n_bytes c \<le> 100000000" and "n_bytes c * 1000000 * n_rounds c < 2 ^ 64"
    and "n_rounds c < 2 ^ 64" and "w' = w"
proof -
  have "n_bytes c \<le> 100000000 \<and> n_bytes c * 1000000 * n_rounds c < 2 ^ 64 \<and> n_rounds c < 2 ^ 64 \<and> w' = w"
    using assms unfolding parse_config_def
    by (elim pbind_ReturnE)
      (auto simp: punwrap_option_def pmul_Return split: if_splits option.split_asm
        dest!: pparse_Return elim!: pbind_ReturnE dest: parse_usize_bound)
  then show "n_bytes c \<le> 100000000" and "n_bytes c * 1000000 * n_rounds c < 2 ^ 64"
    and "n_rounds c < 2 ^ 64" and "w' = w" by simp_all
qed

section \<open>Properties\<close>

text \<open>
  \<open>send_message\<close> sends a prefix of the buffer, without gap or repetition, of at least \<open>n_bytes\<close> bytes
  (all of it when the buffer has \<open>n_bytes\<close> bytes), however the stream cuts the writes and however often
  it would block; it panics only on a write error.
\<close>
theorem send_message_sends_prefix:
  assumes laws: "write_laws lib s sent" and len: "n \<le> length wbuf"
    and run: "send_message lib n s wbuf w = Some (out, w')"
  shows "case out of
      Return u \<Rightarrow> \<exists>k. n \<le> k \<and> k \<le> length wbuf \<and> sent w' = sent w @ take k wbuf
    | Panic e \<Rightarrow> e = ''Error occurred while writing''"
  using run send_message_moves [OF write_laws_moves_out [OF laws]] send_message_panics [OF laws _ len]
  by (cases out) auto

text \<open>
  \<open>receive_message\<close> stores at least \<open>n_bytes\<close> bytes, exactly those that came through the stream, in
  their order, at the front of the buffer, and leaves the rest of the buffer alone; it panics only on a
  read error.
\<close>
theorem receive_message_stores_stream:
  assumes laws: "read_laws lib s received" and len: "n \<le> length rbuf"
    and run: "receive_message lib n s rbuf w = Some (out, w')"
  shows "case out of
      Return rbuf' \<Rightarrow> \<exists>k. n \<le> k \<and> length rbuf' = length rbuf \<and>
        received w' = received w @ take k rbuf' \<and> drop k rbuf' = drop k rbuf
    | Panic e \<Rightarrow> e = ''Error occurred while reading''"
  using run receive_message_moves [OF read_laws_moves_in [OF laws]] receive_message_panics [OF laws]
  by (cases out) auto

text \<open>A stream of which a witness evaluates runs: it sends or receives at most two bytes at a time.\<close>

record pipe =
  pipe_out :: "u8 list"
  pipe_in :: "u8 list"
  pipe_got :: "u8 list"

definition pipe_lib :: "(pipe, unit) netlib" where
  "pipe_lib = \<lparr>
     stream_write = (\<lambda>_ bs. pcall (\<lambda>w. (Ok (length (take 2 bs)), w\<lparr>pipe_out := pipe_out w @ take 2 bs\<rparr>))),
     stream_read = (\<lambda>_ n. pcall (\<lambda>w. (Ok (take (min 2 n) (pipe_in w)),
       w\<lparr>pipe_in := drop (min 2 n) (pipe_in w), pipe_got := pipe_got w @ take (min 2 n) (pipe_in w)\<rparr>))),
     stream_read_exact = (\<lambda>_ n. pret (Err WouldBlock)),
     stream_flush = (\<lambda>_. pret (Ok ())),
     stream_set_nodelay = (\<lambda>_ _. pret (Ok ())),
     stream_set_nonblocking = (\<lambda>_ _. pret (Ok ())),
     stream_shutdown_both = (\<lambda>_. pret (Ok ())),
     stream_peer_addr = (\<lambda>_. pret (Ok ())),
     stream_connect = (\<lambda>_. pret (Ok ())),
     listener_bind = (\<lambda>_. pret (Ok ())),
     listener_next = pret (Ok ()),
     get_core_ids = pret (Some [0]),
     set_for_current = (\<lambda>_. pret ()),
     nanos_now = pret 0,
     hist_add_value = (\<lambda>_. pret ()),
     sleep_secs = (\<lambda>_. pret ())\<rparr>"

lemma pipe_write_laws: "write_laws pipe_lib () pipe_out"
  by (auto simp: write_laws_def pipe_lib_def min_def)

lemma pipe_read_laws: "read_laws pipe_lib () pipe_got"
  by (auto simp: read_laws_def pipe_lib_def)

lemma pipe_send_runs:
  "send_message pipe_lib 3 () [1, 2, 3] \<lparr>pipe_out = [], pipe_in = [], pipe_got = []\<rparr>
     = Some (Return (), \<lparr>pipe_out = [1, 2, 3], pipe_in = [], pipe_got = []\<rparr>)"
  by (simp add: send_message_def rust_loop_Continue rust_loop_Break send_body_def pipe_lib_def)

theorem send_message_sends_prefix_witness:
  "\<exists>k. 3 \<le> k \<and> k \<le> length [1, 2, 3 :: u8] \<and> pipe_out \<lparr>pipe_out = [1, 2, 3], pipe_in = [], pipe_got = []\<rparr> = take k [1, 2, 3]"
  using send_message_sends_prefix [OF pipe_write_laws _ pipe_send_runs] by simp

lemma pipe_receive_runs:
  "receive_message pipe_lib 3 () [0, 0, 0, 7] \<lparr>pipe_out = [], pipe_in = [4, 5, 6, 9], pipe_got = []\<rparr>
     = Some (Return [4, 5, 6, 9], \<lparr>pipe_out = [], pipe_in = [], pipe_got = [4, 5, 6, 9]\<rparr>)"
  by (simp add: receive_message_def rust_loop_Continue rust_loop_Break receive_body_def pipe_lib_def)

theorem receive_message_stores_stream_witness:
  "\<exists>k. 3 \<le> k \<and> [4, 5, 6, 9] = take k [4, 5, 6, 9 :: u8]"
  using receive_message_stores_stream [OF pipe_read_laws _ pipe_receive_runs] by auto

text \<open>
  the message loops return only if the stream makes progress. If every write sends at least one byte,
  \<open>send_message\<close> returns; if the stream answers \<open>Ok(0)\<close>, as it does at the end of the connection, both
  loops spin forever instead of reporting it.
\<close>
theorem message_loops_need_progress:
  "(write_laws lib s sent \<and> n \<le> length wbuf \<and>
     (\<forall>bs w. bs \<noteq> [] \<longrightarrow> (\<exists>m w'. stream_write lib s bs w = Some (Return (Ok (Suc m)), w'))) \<longrightarrow>
       (\<exists>w'. send_message lib n s wbuf w = Some (Return (), w'))) \<and>
   (0 < n \<and> n \<le> length wbuf \<and> (\<forall>bs w. \<exists>w'. stream_write lib s bs w = Some (Return (Ok 0), w')) \<longrightarrow>
       send_message lib n s wbuf w = None) \<and>
   (0 < n \<and> n \<le> length wbuf \<and> (\<forall>k w. \<exists>w'. stream_read lib s k w = Some (Return (Ok []), w')) \<longrightarrow>
       receive_message lib n s wbuf w = None)"
proof (intro conjI impI)
  assume a: "write_laws lib s sent \<and> n \<le> length wbuf \<and>
     (\<forall>bs w. bs \<noteq> [] \<longrightarrow> (\<exists>m w'. stream_write lib s bs w = Some (Return (Ok (Suc m)), w')))"
  let ?goal = "\<lambda>k w. (\<exists>r w'. send_body lib n s wbuf k w = Some (Return (Break r), w') \<and> True) \<or>
    (\<exists>k' w'. send_body lib n s wbuf k w = Some (Return (Continue k'), w') \<and> k' \<le> length wbuf \<and> n - k' < n - k)"
  have step: "?goal k w" if "k \<le> length wbuf" for k w
  proof (cases "k < n")
    case True
    then have "drop k wbuf \<noteq> []" using a by simp
    then obtain m w' where "stream_write lib s (drop k wbuf) w = Some (Return (Ok (Suc m)), w')"
      using a by blast
    with True that have "send_body lib n s wbuf k w = Some (Return (Continue (k + Suc m)), w')"
      by (simp add: send_body_def)
    with send_body_Continue [OF write_laws_moves_out [OF conjunct1 [OF a]] that this] True show ?thesis by auto
  qed (simp add: send_body_def)
  show "\<exists>w'. send_message lib n s wbuf w = Some (Return (), w')"
    using rust_loop_total [where Inv = "\<lambda>k w. k \<le> length wbuf" and m = "\<lambda>k w. n - k", OF _ step]
    by (fastforce simp: send_message_def)
next
  assume a: "0 < n \<and> n \<le> length wbuf \<and> (\<forall>bs w. \<exists>w'. stream_write lib s bs w = Some (Return (Ok 0), w'))"
  show "send_message lib n s wbuf w = None"
    unfolding send_message_def
  proof (rule rust_loop_diverges [where Inv = "\<lambda>k w. k = 0"])
    fix k w assume "k = (0::nat)"
    with a obtain w' where "stream_write lib s (drop k wbuf) w = Some (Return (Ok 0), w')" by blast
    with a \<open>k = 0\<close> show "\<exists>k' w'. send_body lib n s wbuf k w = Some (Return (Continue k'), w') \<and> k' = 0"
      by (simp add: send_body_def)
  qed simp
next
  assume a: "0 < n \<and> n \<le> length wbuf \<and> (\<forall>k w. \<exists>w'. stream_read lib s k w = Some (Return (Ok []), w'))"
  show "receive_message lib n s wbuf w = None"
    unfolding receive_message_def
  proof (rule rust_loop_diverges [where Inv = "\<lambda>st w. st = (0, wbuf)"])
    fix st w assume st: "st = (0::nat, wbuf)"
    from a obtain w' where "stream_read lib s (length wbuf) w = Some (Return (Ok []), w')" by blast
    with a st show "\<exists>st' w'. receive_body lib n s st w = Some (Return (Continue st'), w') \<and> st' = (0, wbuf)"
      by (simp add: receive_body_def)
  qed simp
qed

theorem message_loops_need_progress_witness:
  "receive_message (pipe_lib\<lparr>stream_read := \<lambda>_ _. pret (Ok [])\<rparr>) 3 () [0, 0, 0]
     \<lparr>pipe_out = [], pipe_in = [], pipe_got = []\<rparr> = None"
  using message_loops_need_progress [of "pipe_lib\<lparr>stream_read := \<lambda>_ _. pret (Ok [])\<rparr>" "()" pipe_out 3 "[0, 0, 0]"]
  by simp

text \<open>
  the checks of \<open>parse_config\<close> rule out the overflows of the four programs, with one exception: in an
  accepted configuration at most 100 MB are sent per round, the total number of bytes, even in
  micro-units, fits in 64 bits, and so do the doubled rounds unless \<open>n_bytes\<close> is 0; with \<open>n_bytes = 0\<close>
  any number of rounds is accepted.
\<close>
theorem parse_config_bounds:
  "(parse_config value_of w = Some (Return c, w') \<longrightarrow>
     n_bytes c \<le> 100000000 \<and> n_rounds c * n_bytes c < 2 ^ 64 \<and> n_bytes c * n_rounds c * 1000000 < 2 ^ 64 \<and>
     (n_bytes c > 0 \<longrightarrow> n_rounds c * 2 < 2 ^ 64)) \<and>
   (\<exists>value_of c. parse_config value_of w = Some (Return c, w) \<and> n_bytes c = 0 \<and> \<not> n_rounds c * 2 < 2 ^ 64)"
proof (intro conjI impI)
  assume c: "parse_config value_of w = Some (Return c, w')"
  have total: "n_bytes c * 1000000 * n_rounds c < 2 ^ 64" using parse_config_Return(2) [OF c] .
  then show "n_bytes c * n_rounds c * 1000000 < 2 ^ 64" by (simp add: ac_simps)
  have "n_rounds c * n_bytes c \<le> n_bytes c * 1000000 * n_rounds c" by simp
  then show "n_rounds c * n_bytes c < 2 ^ 64" using total by linarith
  show "n_bytes c \<le> 100000000" using parse_config_Return(1) [OF c] .
  assume "n_bytes c > 0"
  then have "n_rounds c * 2 \<le> n_bytes c * 1000000 * n_rounds c" by (cases "n_bytes c") simp_all
  then show "n_rounds c * 2 < 2 ^ 64" using total by linarith
next
  let ?v = "\<lambda>k. if k = ''n_bytes'' then Some ''0'' else if k = ''rounds'' then Some ''18446744073709551615'' else Some ''0''"
  show "\<exists>value_of c. parse_config value_of w = Some (Return c, w) \<and> n_bytes c = 0 \<and> \<not> n_rounds c * 2 < 2 ^ 64"
    by (rule exI [of _ ?v]) (simp add: parse_config_def pparse_def punwrap_option_def parse_usize_def
        parse_i8_def pmul_def)
qed

definition default_args :: "string \<Rightarrow> string option" where
  "default_args k =
     (if k = ''address'' then Some ''127.0.0.1'' else if k = ''port'' then Some ''7878''
      else if k = ''n_bytes'' then Some ''1'' else if k = ''rounds'' then Some ''100000''
      else if k = ''nodelay'' then Some ''1'' else if k = ''nonblocking'' then Some ''1''
      else if k = ''thread'' then Some ''-1'' else None)"

lemma default_config:
  "parse_config default_args w = Some (Return \<lparr>address = ''127.0.0.1'', port = ''7878'', n_bytes = 1,
     n_rounds = 100000, no_delay = True, non_blocking = True, p_id = - 1\<rparr>, w)"
  by (simp add: parse_config_def default_args_def pparse_def punwrap_option_def parse_usize_def
      parse_i8_def pmul_def)

theorem parse_config_bounds_witness:
  "\<exists>c. parse_config default_args () = Some (Return c, ()) \<and> n_rounds c = 100000 \<and> n_rounds c * 2 < 2 ^ 64"
  using parse_config_bounds [of default_args "()"] default_config [of "()"] by fastforce

text \<open>
  the latency client cannot run fewer than 50 rounds. The progress step \<open>(n_rounds * 2) / 100\<close> is then
  0 and the first round trip ends in a remainder by zero: for \<open>1 <= n_rounds < 50\<close> the program never
  finishes normally, whatever the network does.
\<close>
theorem latency_client_few_rounds_never_completes:
  assumes "parse_config value_of w = Some (Return args, w0)" and "0 < n_rounds args" and "n_rounds args < 50"
  shows "latency_client_main lib value_of w \<noteq> Some (Return u, w')"
proof
  have w0: "w0 = w" using parse_config_Return(4) [OF assms(1)] .
  have round: "latency_round lib args 0 stream wbuf i rbuf w1 \<noteq> Some (Return x, w2)"
    for stream wbuf i rbuf w1 x w2 by (auto simp: latency_round_def elim!: pbind_ReturnE)
  obtain r where rounds: "[0..<n_rounds args * 2] = 0 # r" using assms(2) by (simp add: upt_conv_Cons)
  have body: "latency_connect_body lib args 0 wbuf rbuf w1 \<noteq> Some (Return (Break x), w2)" for wbuf rbuf w1 x w2
    using round by (auto simp: latency_connect_body_def pmul_Return rounds elim!: pbind_ReturnE
        split: result.split_asm)
  assume run: "latency_client_main lib value_of w = Some (Return u, w')"
  have "n_rounds args * 2 div 100 = 0" using assms(3) by simp
  with run assms(1,3) w0 have loop: "rust_loop (latency_connect_body lib args 0 (replicate (n_bytes args) 0))
      (replicate (n_bytes args) 0) w = Some (Return u, w')"
    by (auto simp: latency_client_main_def pmul_Return elim!: pbind_ReturnE)
  have "(\<lambda>(out, w'). \<forall>x. out \<noteq> Return x) (Return u, w')"
    using loop by (rule rust_loop_invariant [where Inv = "\<lambda>_ _. True"]) (use body in auto)
  then show False by simp
qed

theorem latency_client_few_rounds_never_completes_witness:
  "\<forall>w'. latency_client_main pipe_lib (default_args(''rounds'' \<mapsto> ''49''))
     \<lparr>pipe_out = [], pipe_in = [], pipe_got = []\<rparr> \<noteq> Some (Return (), w')"
  by (rule allI, rule latency_client_few_rounds_never_completes [OF _ , of _ _ "\<lparr>address = ''127.0.0.1'', port = ''7878'',
      n_bytes = 1, n_rounds = 49, no_delay = True, non_blocking = True, p_id = - 1\<rparr>"
      "\<lparr>pipe_out = [], pipe_in = [], pipe_got = []\<rparr>"])
    (simp_all add: parse_config_def default_args_def pparse_def punwrap_option_def parse_usize_def
      parse_i8_def pmul_def)

end
