(* ===== verification/Message_Stream.thy ===== *)
theory Message_Stream
  imports Tcp_Stream Tcp_Backends Netbench
begin

text \<open>
  The message loops of the network benchmarks on RustyHermit: \<open>TcpStream\<close> of the standard library passes
  \<open>read\<close> and \<open>write\<close> to \<open>hermit-abi\<close>, which calls the network stack. The loops are programs over a stream
  (\<open>moves_in\<close>, \<open>moves_out\<close> of \<open>Netbench\<close>); the system calls are one, with the runs of \<open>Tcp_Stream\<close> as the
  effect of a call.
\<close>

definition forwards_read :: "('w, Handle) netlib \<Rightarrow> 'w tcp_symbols \<Rightarrow> (unit \<Rightarrow> io_error) \<Rightarrow> bool" where
  "forwards_read lib t e \<longleftrightarrow>
     (\<forall>s n. stream_read lib s n = pbind (tcpstream_read t s n) (\<lambda>r. pret (map_err e r)))"

definition forwards_write :: "('w, Handle) netlib \<Rightarrow> 'w tcp_symbols \<Rightarrow> (unit \<Rightarrow> io_error) \<Rightarrow> bool" where
  "forwards_write lib t e \<longleftrightarrow>
     (\<forall>s bs. stream_write lib s bs = pbind (tcpstream_write t s bs) (\<lambda>r. pret (map_err e r)))"

definition reading_run :: "('ifc, 'set, 'sock, 'dhcp) smoltcp \<Rightarrow> ('ifc, 'set, 'dhcp, 'x, 'r) hkernel \<Rightarrow>
    ('sock \<Rightarrow> byte_stream) \<Rightarrow> Handle \<Rightarrow> ('ifc, 'set, 'dhcp, 'x) world_scheme \<Rightarrow> u8 list \<Rightarrow>
    ('ifc, 'set, 'dhcp, 'x) world_scheme \<Rightarrow> bool" where
  "reading_run api k v h w bs w' \<longleftrightarrow> (\<exists>es. socket_run api k v h w es w' \<and> reads es = bs \<and> writes es = [])"

definition writing_run :: "('ifc, 'set, 'sock, 'dhcp) smoltcp \<Rightarrow> ('ifc, 'set, 'dhcp, 'x, 'r) hkernel \<Rightarrow>
    ('sock \<Rightarrow> byte_stream) \<Rightarrow> Handle \<Rightarrow> ('ifc, 'set, 'dhcp, 'x) world_scheme \<Rightarrow> u8 list \<Rightarrow>
    ('ifc, 'set, 'dhcp, 'x) world_scheme \<Rightarrow> bool" where
  "writing_run api k v h w bs w' \<longleftrightarrow> (\<exists>es. socket_run api k v h w es w' \<and> reads es = [] \<and> writes es = bs)"

lemma runs_compose: "composes (reading_run api k v h)" "composes (writing_run api k v h)"
proof -
  have nil: "socket_run api k v h w [] w" for w by (rule run_refl)
  have app: "socket_run api k v h w (es @ fs) w2"
    if "socket_run api k v h w es w1" and "socket_run api k v h w1 fs w2" for w es w1 fs w2
    using that(2,1) by (rule socket_run_trans)
  show "composes (reading_run api k v h)"
    unfolding composes_def reading_run_def
  proof (intro conjI allI impI; (elim exE conjE)?)
    fix w show "\<exists>es. socket_run api k v h w es w \<and> reads es = [] \<and> writes es = []"
      using nil by (intro exI [of _ "[]"]) simp
  next
    fix w as w1 bs w2 es fs
    assume "socket_run api k v h w es w1" and "socket_run api k v h w1 fs w2"
      and "reads es = as" "writes es = []" "reads fs = bs" "writes fs = []"
    with app show "\<exists>es. socket_run api k v h w es w2 \<and> reads es = as @ bs \<and> writes es = []"
      by (intro exI [of _ "es @ fs"]) simp
  qed
  show "composes (writing_run api k v h)"
    unfolding composes_def writing_run_def
  proof (intro conjI allI impI; (elim exE conjE)?)
    fix w show "\<exists>es. socket_run api k v h w es w \<and> reads es = [] \<and> writes es = []"
      using nil by (intro exI [of _ "[]"]) simp
  next
    fix w as w1 bs w2 es fs
    assume "socket_run api k v h w es w1" and "socket_run api k v h w1 fs w2"
      and "reads es = []" "writes es = as" "reads fs = []" "writes fs = bs"
    with app show "\<exists>es. socket_run api k v h w es w2 \<and> reads es = [] \<and> writes es = as @ bs"
      by (intro exI [of _ "es @ fs"]) simp
  qed
qed

lemma stream_laws_slice: "stream_laws api v \<Longrightarrow> slice_laws api"
  unfolding slice_laws_def using transfer_lawsD(1,3) [OF stream_lawsD(2)] by fastforce

lemma syscalls_move_in:
  assumes "stream_laws api v" and "executor_laws api k v h" and "forwards_read lib (net_symbols api k) e"
  shows "moves_in lib h (reading_run api k v h)"
  unfolding moves_in_def
proof (intro conjI allI impI runs_compose(1))
  fix n w r w'
  assume "stream_read lib h n w = Some (Return r, w')"
  then obtain r1 where r: "r = map_err e r1" and run: "sys_tcp_stream_read api k h n w = Some (Return r1, w')"
    using assms(3) by (auto simp: forwards_read_def tcpstream_read_def net_symbols_def elim!: pbind_ReturnE)
  from read_call_run [OF assms(2) run]
    sys_tcp_stream_read_result [OF stream_laws_slice [OF assms(1)], of k h n w _ w'] run r
  show "case r of Ok bs \<Rightarrow> length bs \<le> n \<and> reading_run api k v h w bs w' | Err _ \<Rightarrow> reading_run api k v h w [] w'"
    unfolding reading_run_def by (cases r1) auto
qed

lemma syscalls_move_out:
  assumes "stream_laws api v" and "executor_laws api k v h" and "forwards_write lib (net_symbols api k) e"
  shows "moves_out lib h (writing_run api k v h)"
  unfolding moves_out_def
proof (intro conjI allI impI runs_compose(2))
  fix bs w r w'
  assume "stream_write lib h bs w = Some (Return r, w')"
  then obtain r1 where r: "r = map_err e r1" and run: "sys_tcp_stream_write api k h bs w = Some (Return r1, w')"
    using assms(3) by (auto simp: forwards_write_def tcpstream_write_def net_symbols_def elim!: pbind_ReturnE)
  from write_call_run [OF assms(2) run]
    sys_tcp_stream_write_result [OF stream_laws_slice [OF assms(1)], of k h bs w _ w'] run r
  show "case r of Ok m \<Rightarrow> m \<le> length bs \<and> writing_run api k v h w (take m bs) w' | Err _ \<Rightarrow> writing_run api k v h w [] w'"
    unfolding writing_run_def by (cases r1) auto
qed

lemma stream_of_finished:
  assumes "kernel_frame k"
    and "\<exists>w1 nic'. call = Some (Return r, sys_set_network_polling_mode k False w1) \<and>
      \<not> nic_poisoned w1 \<and> nic_state w1 = Initialized nic' \<and>
      (\<forall>h'. SocketSet_get api (sockets nic') h' = (if h' = h then Some s' else SocketSet_get api ss h'))"
  shows "\<exists>w'. call = Some (Return r, w') \<and> stream_of api v h w' = Some (v s')"
proof -
  from assms(2) obtain w1 nic' where "call = Some (Return r, sys_set_network_polling_mode k False w1)"
    and "nic_state w1 = Initialized nic'" and "SocketSet_get api (sockets nic') h = Some s'" by auto
  with kernel_frame_mode [OF assms(1), of w1 False] show ?thesis
    by (auto simp: same_statics_def stream_of_def)
qed

section \<open>Properties\<close>

text \<open>
  C4: the benchmark on the whole stack. On RustyHermit \<open>receive_message\<close> returns with the next bytes of
  the connection at the front of its buffer, at least as many as asked for, in order and without gap or
  repetition: they are what was unread and what the stack delivered meanwhile, up to what is still unread.
  \<open>send_message\<close> returns with at least the bytes asked for queued on the connection, in order, behind
  what was queued before. Other threads and the network may do anything meanwhile except read or write
  this connection (\<open>executor_laws\<close>). Excepted is a connection that is torn down or opened anew on the way
  (a \<open>Restarted\<close> event of the run): its buffers are cleared, and nothing is claimed of the bytes then.
\<close>

theorem messages_over_the_stack:
  assumes "stream_laws api v" and "executor_laws api k v h" and "stream_of api v h w = Some q"
    and "forwards_read lib (net_symbols api k) e" and "forwards_write lib (net_symbols api k) e"
  shows "(receive_message lib n h rbuf w = Some (Return rbuf', w') \<longrightarrow>
      (\<exists>es q' m. socket_run api k v h w es w' \<and> stream_of api v h w' = Some q' \<and> n \<le> m \<and>
        length rbuf' = length rbuf \<and> drop m rbuf' = drop m rbuf \<and>
        (Restarted \<notin> set es \<longrightarrow> unread q @ deliveries es = take m rbuf' @ unread q'))) \<and>
    (send_message lib n h wbuf w = Some (Return (), w2) \<longrightarrow>
      (\<exists>es q' m. socket_run api k v h w es w2 \<and> stream_of api v h w2 = Some q' \<and> n \<le> m \<and> m \<le> length wbuf \<and>
        (Restarted \<notin> set es \<longrightarrow> unsent q' = drop (retired es) (unsent q @ take m wbuf))))"
proof (intro conjI impI)
  assume "receive_message lib n h rbuf w = Some (Return rbuf', w')"
  from receive_message_moves [OF syscalls_move_in [OF assms(1,2,4)] this] obtain m es where
    m: "n \<le> m" "length rbuf' = length rbuf" "drop m rbuf' = drop m rbuf"
    and run: "socket_run api k v h w es w'" and "reads es = take m rbuf'"
    unfolding reading_run_def by blast
  moreover obtain q' where "stream_of api v h w' = Some q'" and "stream_run es q = Some q'"
    using run_simulated [OF run assms(1,3)] by blast
  ultimately show "\<exists>es q' m. socket_run api k v h w es w' \<and> stream_of api v h w' = Some q' \<and> n \<le> m \<and>
        length rbuf' = length rbuf \<and> drop m rbuf' = drop m rbuf \<and>
        (Restarted \<notin> set es \<longrightarrow> unread q @ deliveries es = take m rbuf' @ unread q')"
    using stream_run_fifo [of es q q'] by metis
next
  assume "send_message lib n h wbuf w = Some (Return (), w2)"
  from send_message_moves [OF syscalls_move_out [OF assms(1,2,5)] this] obtain m es where
    m: "n \<le> m" "m \<le> length wbuf" and run: "socket_run api k v h w es w2" and "writes es = take m wbuf"
    unfolding writing_run_def by blast
  moreover obtain q' where "stream_of api v h w2 = Some q'" and "stream_run es q = Some q'"
    using run_simulated [OF run assms(1,3)] by blast
  ultimately show "\<exists>es q' m. socket_run api k v h w es w2 \<and> stream_of api v h w2 = Some q' \<and> n \<le> m \<and> m \<le> length wbuf \<and>
        (Restarted \<notin> set es \<longrightarrow> unsent q' = drop (retired es) (unsent q @ take m wbuf))"
    using stream_run_fifo [of es q q'] by metis
qed

text \<open>
  C9: the benchmark does not wait for what is there: when a whole message is in the receive buffer,
  \<open>receive_message\<close> returns with it after one system call, and when the send buffer has room for the message,
  \<open>send_message\<close> returns with the message queued. (The connection must be open in both directions to send:
  \<open>write\<close> tests \<open>may_recv\<close> first. The kernel calls leave the statics of the crate alone: no other
  thread touches the interface during the call.)
\<close>

theorem buffered_messages_complete:
  assumes "stream_laws api v" and "kernel_frame k" and "\<not> nic_poisoned w"
    and "nic_state w = Initialized nic" and "SocketSet_get api (sockets nic) h = Some s"
    and "\<not> is_shut (TcpSocket_state api s)" and "0 < n"
    and fr: "forwards_read lib (net_symbols api k) e" and fw: "forwards_write lib (net_symbols api k) e"
  shows "(TcpSocket_can_recv api s \<and> TcpSocket_recv_slice api (length rbuf) s = (Ok bs, s1, ws1) \<and>
      n \<le> length (unread (v s)) \<and> n \<le> length rbuf \<longrightarrow>
      (\<exists>w'. receive_message lib n h rbuf w = Some (Return (bs @ drop (length bs) rbuf), w') \<and>
        bs = take (length rbuf) (unread (v s)) \<and>
        stream_of api v h w' = Some ((v s)\<lparr>unread := drop (length rbuf) (unread (v s))\<rparr>))) \<and>
    (TcpSocket_may_recv api s \<and> TcpSocket_can_send api s \<and>
      TcpSocket_send_slice api wbuf s = (Ok m, s2, ws2) \<and> n \<le> m \<longrightarrow>
      (\<exists>w'. send_message lib n h wbuf w = Some (Return (), w') \<and>
        stream_of api v h w' = Some ((v s)\<lparr>unsent := unsent (v s) @ take m wbuf\<rparr>)))"
proof (intro conjI impI; elim conjE)
  assume can: "TcpSocket_can_recv api s" and slice: "TcpSocket_recv_slice api (length rbuf) s = (Ok bs, s1, ws1)"
    and n: "n \<le> length (unread (v s))" "n \<le> length rbuf"
  obtain w1 where run: "sys_tcp_stream_read api k h (length rbuf) w = Some (Return (Ok bs), w1)"
    and s1: "stream_of api v h w1 = Some (v s1)"
    using stream_of_finished [OF assms(2)
      read_at_once [OF assms(2) stream_lawsD(1) [OF assms(1)] assms(3-6) can slice]] by blast
  note t = transfer_lawsD(1) [OF stream_lawsD(2) [OF assms(1)] slice]
  from run have first: "receive_body lib n h (0, rbuf) w
      = Some (Return (Continue (length bs, bs @ drop (length bs) rbuf)), w1)"
    using assms(7) fr by (simp add: receive_body_def forwards_read_def tcpstream_read_def net_symbols_def)
  have "receive_body lib n h (length bs, bs @ drop (length bs) rbuf) w1
      = Some (Return (Break (bs @ drop (length bs) rbuf)), w1)"
    using t n by (simp add: receive_body_def)
  with first have "receive_message lib n h rbuf w = Some (Return (bs @ drop (length bs) rbuf), w1)"
    by (simp add: receive_message_def rust_loop_Continue [where body = "receive_body lib n h"]
        rust_loop_Break [where body = "receive_body lib n h"])
  with s1 t show "\<exists>w'. receive_message lib n h rbuf w = Some (Return (bs @ drop (length bs) rbuf), w') \<and>
      bs = take (length rbuf) (unread (v s)) \<and>
      stream_of api v h w' = Some ((v s)\<lparr>unread := drop (length rbuf) (unread (v s))\<rparr>)" by simp
next
  assume may: "TcpSocket_may_recv api s" and can: "TcpSocket_can_send api s"
    and slice: "TcpSocket_send_slice api wbuf s = (Ok m, s2, ws2)" and n: "n \<le> m"
  obtain w1 where run: "sys_tcp_stream_write api k h wbuf w = Some (Return (Ok m), w1)"
    and s2: "stream_of api v h w1 = Some (v s2)"
    using stream_of_finished [OF assms(2)
      write_at_once [OF assms(2) stream_lawsD(1) [OF assms(1)] assms(3-6) may can slice]] by blast
  note t = transfer_lawsD(3) [OF stream_lawsD(2) [OF assms(1)] slice]
  from run have first: "send_body lib n h wbuf 0 w = Some (Return (Continue m), w1)"
    using assms(7) fw by (simp add: send_body_def forwards_write_def tcpstream_write_def net_symbols_def)
  have "send_body lib n h wbuf m w1 = Some (Return (Break ()), w1)"
    using n by (simp add: send_body_def)
  with first have "send_message lib n h wbuf w = Some (Return (), w1)"
    by (simp add: send_message_def rust_loop_Continue [where body = "send_body lib n h wbuf"]
        rust_loop_Break [where body = "send_body lib n h wbuf"])
  with s2 t show "\<exists>w'. send_message lib n h wbuf w = Some (Return (), w') \<and>
      stream_of api v h w' = Some ((v s)\<lparr>unsent := unsent (v s) @ take m wbuf\<rparr>)" by simp
qed

text \<open>A standard library that passes reads and writes on, and fails or ignores everything else.\<close>

definition socket_lib :: "(demo_world, Handle) netlib" where
  "socket_lib = \<lparr>
     stream_write = (\<lambda>s bs. pbind (tcpstream_write (net_symbols demo_stack demo_kernel) s bs)
       (\<lambda>r. pret (map_err (\<lambda>_. OtherIo 0) r))),
     stream_read = (\<lambda>s n. pbind (tcpstream_read (net_symbols demo_stack demo_kernel) s n)
       (\<lambda>r. pret (map_err (\<lambda>_. OtherIo 0) r))),
     stream_read_exact = (\<lambda>_ _. pret (Err WouldBlock)), stream_flush = (\<lambda>_. pret (Ok ())),
     stream_set_nodelay = (\<lambda>_ _. pret (Ok ())), stream_set_nonblocking = (\<lambda>_ _. pret (Err WouldBlock)),
     stream_shutdown_both = (\<lambda>_. pret (Ok ())), stream_peer_addr = (\<lambda>_. pret (Ok ())),
     stream_connect = (\<lambda>_. pret (Ok 0)), listener_bind = (\<lambda>_. pret (Ok ())), listener_next = pret (Ok 0),
     get_core_ids = pret None, set_for_current = (\<lambda>_. pret ()), nanos_now = pret 0,
     hist_add_value = (\<lambda>_. pret ()), sleep_secs = (\<lambda>_. pret ())\<rparr>"

lemma demo_receive_runs:
  "\<exists>w'. receive_message socket_lib 2 0 [0, 0] (demo_conn_world demo_data_sock) = Some (Return [1, 2], w')"
proof -
  obtain w' where "sys_tcp_stream_read demo_stack demo_kernel 0 2 (demo_conn_world demo_data_sock)
     = Some (Return (Ok [1, 2]), w')" using demo_read_runs by blast
  then have first: "receive_body socket_lib 2 0 (0, [0, 0]) (demo_conn_world demo_data_sock)
     = Some (Return (Continue (2, [1, 2])), w')"
    by (simp add: receive_body_def socket_lib_def tcpstream_read_def net_symbols_def numeral_2_eq_2)
  have "receive_body socket_lib 2 0 (2, [1, 2]) w' = Some (Return (Break [1, 2]), w')"
    by (simp add: receive_body_def)
  with first show ?thesis
    by (simp add: receive_message_def rust_loop_Continue [where body = "receive_body socket_lib 2 0"]
        rust_loop_Break [where body = "receive_body socket_lib 2 0"])
qed

theorem messages_over_the_stack_witness:
  "\<exists>w' es q' m. receive_message socket_lib 2 0 [0, 0] (demo_conn_world demo_data_sock) = Some (Return [1, 2], w') \<and>
     stream_of demo_stack demo_view 0 w' = Some q' \<and> 2 \<le> m \<and>
     (Restarted \<notin> set es \<longrightarrow> [1, 2, 3] @ deliveries es = take m [1, 2] @ unread q')"
proof -
  have f: "forwards_read socket_lib (net_symbols demo_stack demo_kernel) (\<lambda>_. OtherIo 0)"
    "forwards_write socket_lib (net_symbols demo_stack demo_kernel) (\<lambda>_. OtherIo 0)"
    by (simp_all add: forwards_read_def forwards_write_def socket_lib_def)
  obtain w' where run: "receive_message socket_lib 2 0 [0, 0] (demo_conn_world demo_data_sock) = Some (Return [1, 2], w')"
    using demo_receive_runs by blast
  from messages_over_the_stack [OF demo_stream_laws demo_executor_laws demo_conn_stream f,
      THEN conjunct1, THEN mp, OF run] run show ?thesis
    unfolding demo_data_view byte_stream.simps by blast
qed

theorem buffered_messages_complete_witness:
  "\<exists>w'. receive_message socket_lib 2 0 [0, 0] (demo_conn_world demo_data_sock) = Some (Return [1, 2], w') \<and>
     stream_of demo_stack demo_view 0 w' = Some \<lparr>unread = [3], unsent = []\<rparr>"
proof -
  let ?w = "demo_conn_world demo_data_sock"
  have f: "forwards_read socket_lib (net_symbols demo_stack demo_kernel) (\<lambda>_. OtherIo 0)"
    "forwards_write socket_lib (net_symbols demo_stack demo_kernel) (\<lambda>_. OtherIo 0)"
    by (simp_all add: forwards_read_def forwards_write_def socket_lib_def)
  have "\<not> nic_poisoned ?w" and "nic_state ?w = Initialized (demo_nic\<lparr>sockets := [demo_data_sock]\<rparr>)"
    by (simp_all add: demo_conn_world_def demo_world0_def)
  moreover have "SocketSet_get demo_stack (sockets (demo_nic\<lparr>sockets := [demo_data_sock]\<rparr>)) 0 = Some demo_data_sock"
    and "\<not> is_shut (TcpSocket_state demo_stack demo_data_sock)" and "TcpSocket_can_recv demo_stack demo_data_sock"
    and "TcpSocket_recv_slice demo_stack (length [0 :: u8, 0]) demo_data_sock =
      (Ok [1, 2], demo_data_sock\<lparr>sk_rx := [3]\<rparr>, [])"
    by (simp_all add: demo_stack_def demo_data_sock_def demo_closed_def numeral_2_eq_2)
  ultimately show ?thesis
    using buffered_messages_complete [OF demo_stream_laws demo_kernel_frame _ _ _ _ _ f, THEN conjunct1,
      of ?w "demo_nic\<lparr>sockets := [demo_data_sock]\<rparr>" 0 demo_data_sock 2 "[0, 0]" "[1, 2]"
        "demo_data_sock\<lparr>sk_rx := [3]\<rparr>" "[]"]
    by (simp add: demo_data_view)
qed

end
