(* ===== verification/Cmath.thy ===== *)
theory Cmath
  imports Prelude
begin

text \<open>
  The C mathematics functions that \<open>hermit-sys/src/cmath.rs\<close> exports. Each export is a descriptor: its
  name, the types of its parameters and of its result, the function of the crate \<open>libm\<close> that its body
  calls, which parameters it passes, and where the components of the result go (returned, or stored
  through a pointer parameter). \<open>call_export\<close> is the meaning of such a body. \<open>libm\<close> is third-party code
  and a parameter: a function from the name and the arguments to the components of the result.
\<close>

section \<open>Bodies\<close>

datatype cty = TF64 | TF32 | TI32 | TPtr

datatype cval = VF64 u64 | VF32 u32 | VI32 u32 | VPtr nat

datatype dest = Ret | Store nat

record cexport =
  ex_name :: string
  ex_params :: "cty list"
  ex_ret :: "cty option"
  ex_callee :: string
  ex_args :: "nat list"
  ex_outs :: "dest list"

definition export :: "string \<Rightarrow> cty list \<Rightarrow> cty option \<Rightarrow> string \<Rightarrow> nat list \<Rightarrow> dest list \<Rightarrow> cexport" where
  "export name params ret callee args outs =
     \<lparr>ex_name = name, ex_params = params, ex_ret = ret, ex_callee = callee, ex_args = args, ex_outs = outs\<rparr>"

type_synonym memory = "nat \<Rightarrow> cval"
type_synonym libm = "string \<Rightarrow> cval list \<Rightarrow> cval list"

fun store :: "cval \<Rightarrow> cval \<Rightarrow> memory \<Rightarrow> memory" where
  "store (VPtr a) v mem = mem(a := v)"
| "store _ v mem = mem"

text \<open>The components of the result go to their destinations in order.\<close>

fun deliver :: "dest list \<Rightarrow> cval list \<Rightarrow> cval list \<Rightarrow> cval option \<times> memory \<Rightarrow> cval option \<times> memory" where
  "deliver (Ret # ds) (v # vs) args (r, mem) = deliver ds vs args (Some v, mem)"
| "deliver (Store p # ds) (v # vs) args (r, mem) = deliver ds vs args (r, store (args ! p) v mem)"
| "deliver _ _ args s = s"

definition call_export :: "libm \<Rightarrow> cexport \<Rightarrow> cval list \<Rightarrow> memory \<Rightarrow> cval option \<times> memory" where
  "call_export libm e args mem =
     deliver (ex_outs e) (libm (ex_callee e) (map (\<lambda>i. args ! i) (ex_args e))) args (None, mem)"

section \<open>The exports\<close>

definition cmath_exports_1 :: "cexport list" where
  "cmath_exports_1 = [
   export ''acos'' [TF64] (Some TF64) ''acos'' [0] [Ret],
   export ''acosf'' [TF32] (Some TF32) ''acosf'' [0] [Ret],
   export ''acosh'' [TF64] (Some TF64) ''acosh'' [0] [Ret],
   export ''acoshf'' [TF32] (Some TF32) ''acoshf'' [0] [Ret],
   export ''asin'' [TF64] (Some TF64) ''asin'' [0] [Ret],
   export ''asinf'' [TF32] (Some TF32) ''asinf'' [0] [Ret],
   export ''asinh'' [TF64] (Some TF64) ''asinh'' [0] [Ret],
   export ''asinhf'' [TF32] (Some TF32) ''asinhf'' [0] [Ret],
   export ''atan'' [TF64] (Some TF64) ''atan'' [0] [Ret],
   export ''atan2'' [TF64, TF64] (Some TF64) ''atan2'' [0, 1] [Ret],
   export ''atan2f'' [TF32, TF32] (Some TF32) ''atan2f'' [0, 1] [Ret],
   export ''atanf'' [TF32] (Some TF32) ''atanf'' [0] [Ret],
   export ''atanh'' [TF64] (Some TF64) ''atanh'' [0] [Ret],
   export ''atanhf'' [TF32] (Some TF32) ''atanhf'' [0] [Ret],
   export ''cbrt'' [TF64] (Some TF64) ''cbrt'' [0] [Ret],
   export ''cbrtf'' [TF32] (Some TF32) ''cbrtf'' [0] [Ret],
   export ''ceil'' [TF64] (Some TF64) ''ceil'' [0] [Ret],
   export ''ceilf'' [TF32] (Some TF32) ''ceilf'' [0] [Ret],
   export ''copysign'' [TF64, TF64] (Some TF64) ''copysign'' [0, 1] [Ret],
   export ''copysignf'' [TF32, TF32] (Some TF32) ''copysignf'' [0, 1] [Ret],
   export ''cos'' [TF64] (Some TF64) ''cos'' [0] [Ret],
   export ''cosf'' [TF32] (Some TF32) ''cosf'' [0] [Ret],
   export ''cosh'' [TF64] (Some TF64) ''cosh'' [0] [Ret],
   export ''coshf'' [TF32] (Some TF32) ''coshf'' [0] [Ret],
   export ''erf'' [TF64] (Some TF64) ''erf'' [0] [Ret],
   export ''erfc'' [TF64] (Some TF64) ''erfc'' [0] [Ret],
   export ''erff'' [TF32] (Some TF32) ''erff'' [0] [Ret],
   export ''erfcf'' [TF32] (Some TF32) ''erfcf'' [0] [Ret],
   export ''exp'' [TF64] (Some TF64) ''exp'' [0] [Ret],
   export ''expf'' [TF32] (Some TF32) ''expf'' [0] [Ret]]"

definition cmath_exports_2 :: "cexport list" where
  "cmath_exports_2 = [
   export ''exp2'' [TF64] (Some TF64) ''exp2'' [0] [Ret],
   export ''exp2f'' [TF32] (Some TF32) ''exp2f'' [0] [Ret],
   export ''exp10'' [TF64] (Some TF64) ''exp10'' [0] [Ret],
   export ''exp10f'' [TF32] (Some TF32) ''exp10f'' [0] [Ret],
   export ''expm1'' [TF64] (Some TF64) ''expm1'' [0] [Ret],
   export ''expm1f'' [TF32] (Some TF32) ''expm1f'' [0] [Ret],
   export ''fabs'' [TF64] (Some TF64) ''fabs'' [0] [Ret],
   export ''fabsf'' [TF32] (Some TF32) ''expm1f'' [0] [Ret],
   export ''fdim'' [TF64, TF64] (Some TF64) ''fdim'' [0, 1] [Ret],
   export ''fdimf'' [TF32, TF32] (Some TF32) ''fdimf'' [0, 1] [Ret],
   export ''floorf'' [TF32] (Some TF32) ''floorf'' [0] [Ret],
   export ''fma'' [TF64, TF64, TF64] (Some TF64) ''fma'' [0, 1, 2] [Ret],
   export ''fmaf'' [TF32, TF32, TF32] (Some TF32) ''fmaf'' [0, 1, 2] [Ret],
   export ''fmax'' [TF64, TF64] (Some TF64) ''fmax'' [0, 1] [Ret],
   export ''fmaxf'' [TF32, TF32] (Some TF32) ''fmaxf'' [0, 1] [Ret],
   export ''fmin'' [TF64, TF64] (Some TF64) ''fmin'' [0, 1] [Ret],
   export ''fminf'' [TF32, TF32] (Some TF32) ''fminf'' [0, 1] [Ret],
   export ''fmod'' [TF64, TF64] (Some TF64) ''fmod'' [0, 1] [Ret],
   export ''fmodf'' [TF32, TF32] (Some TF32) ''fmodf'' [0, 1] [Ret],
   export ''frexp'' [TF64, TPtr] (Some TF64) ''frexp'' [0] [Ret, Store 1],
   export ''frexpf'' [TF32, TPtr] (Some TF32) ''frexpf'' [0] [Ret, Store 1],
   export ''hypot'' [TF64, TF64] (Some TF64) ''hypot'' [0, 1] [Ret],
   export ''hypotf'' [TF32, TF32] (Some TF32) ''hypotf'' [0, 1] [Ret],
   export ''ilogb'' [TF64] (Some TI32) ''ilogb'' [0] [Ret],
   export ''ilogbf'' [TF32] (Some TI32) ''ilogbf'' [0] [Ret],
   export ''j0'' [TF64] (Some TF64) ''j0'' [0] [Ret],
   export ''j0f'' [TF32] (Some TF32) ''j0f'' [0] [Ret],
   export ''j1'' [TF64] (Some TF64) ''j1'' [0] [Ret]]"

definition cmath_exports_3 :: "cexport list" where
  "cmath_exports_3 = [
   export ''j1f'' [TF32] (Some TF32) ''j1f'' [0] [Ret],
   export ''jn'' [TI32, TF64] (Some TF64) ''jn'' [0, 1] [Ret],
   export ''jnf'' [TI32, TF32] (Some TF32) ''jnf'' [0, 1] [Ret],
   export ''ldexp'' [TF64, TI32] (Some TF64) ''ldexp'' [0, 1] [Ret],
   export ''ldexpf'' [TF32, TI32] (Some TF32) ''ldexpf'' [0, 1] [Ret],
   export ''lgamma'' [TF64] (Some TF64) ''lgamma'' [0] [Ret],
   export ''lgammaf'' [TF32] (Some TF32) ''lgammaf'' [0] [Ret],
   export ''lgamma_r'' [TF64, TPtr] (Some TF64) ''lgamma_r'' [0] [Ret, Store 1],
   export ''lgammaf_r'' [TF32, TPtr] (Some TF32) ''lgammaf_r'' [0] [Ret, Store 1],
   export ''log'' [TF64] (Some TF64) ''log'' [0] [Ret],
   export ''log10'' [TF64] (Some TF64) ''log10'' [0] [Ret],
   export ''log10f'' [TF32] (Some TF32) ''log10f'' [0] [Ret],
   export ''logf'' [TF32] (Some TF32) ''logf'' [0] [Ret],
   export ''log2'' [TF64] (Some TF64) ''log2'' [0] [Ret],
   export ''log2f'' [TF32] (Some TF32) ''log2f'' [0] [Ret],
   export ''log1p'' [TF64] (Some TF64) ''log1p'' [0] [Ret],
   export ''log1pf'' [TF32] (Some TF32) ''log1pf'' [0] [Ret],
   export ''modf'' [TF64, TPtr] (Some TF64) ''modf'' [0] [Ret, Store 1],
   export ''modff'' [TF32, TPtr] (Some TF32) ''modff'' [0] [Ret, Store 1],
   export ''nextafter'' [TF64, TF64] (Some TF64) ''nextafter'' [0, 1] [Ret],
   export ''nextafterf'' [TF32, TF32] (Some TF32) ''nextafterf'' [0, 1] [Ret],
   export ''pow'' [TF64, TF64] (Some TF64) ''pow'' [0, 1] [Ret],
   export ''powf'' [TF32, TF32] (Some TF32) ''powf'' [0, 1] [Ret],
   export ''remainder'' [TF64, TF64] (Some TF64) ''remainder'' [0, 1] [Ret],
   export ''remainderf'' [TF32, TF32] (Some TF32) ''remainderf'' [0, 1] [Ret],
   export ''remquo'' [TF64, TF64, TPtr] (Some TF64) ''remquo'' [0, 1] [Ret, Store 2]]"

definition cmath_exports_4 :: "cexport list" where
  "cmath_exports_4 = [
   export ''remquof'' [TF32, TF32, TPtr] (Some TF32) ''remquof'' [0, 1] [Ret, Store 2],
   export ''round'' [TF64] (Some TF64) ''round'' [0] [Ret],
   export ''roundf'' [TF32] (Some TF32) ''roundf'' [0] [Ret],
   export ''scalbn'' [TF64, TI32] (Some TF64) ''scalbn'' [0, 1] [Ret],
   export ''scalbnf'' [TF32, TI32] (Some TF32) ''scalbnf'' [0, 1] [Ret],
   export ''sin'' [TF64] (Some TF64) ''sin'' [0] [Ret],
   export ''sinf'' [TF32] (Some TF32) ''sinf'' [0] [Ret],
   export ''sincos'' [TF64, TPtr, TPtr] None ''sincos'' [0] [Store 1, Store 2],
   export ''sincosf'' [TF32, TPtr, TPtr] None ''sincosf'' [0] [Store 1, Store 2],
   export ''sinh'' [TF64] (Some TF64) ''sinh'' [0] [Ret],
   export ''sinhf'' [TF32] (Some TF32) ''sinhf'' [0] [Ret],
   export ''sqrt'' [TF64] (Some TF64) ''sqrt'' [0] [Ret],
   export ''sqrtf'' [TF32] (Some TF32) ''sqrtf'' [0] [Ret],
   export ''tan'' [TF64] (Some TF64) ''tan'' [0] [Ret],
   export ''tanf'' [TF32] (Some TF32) ''tanf'' [0] [Ret],
   export ''tanh'' [TF64] (Some TF64) ''tanh'' [0] [Ret],
   export ''tanhf'' [TF32] (Some TF32) ''tanhf'' [0] [Ret],
   export ''tgamma'' [TF64] (Some TF64) ''tgamma'' [0] [Ret],
   export ''tgammaf'' [TF32] (Some TF32) ''tgammaf'' [0] [Ret],
   export ''trunc'' [TF64] (Some TF64) ''trunc'' [0] [Ret],
   export ''truncf'' [TF32] (Some TF32) ''truncf'' [0] [Ret],
   export ''y0'' [TF64] (Some TF64) ''y0'' [0] [Ret],
   export ''y0f'' [TF32] (Some TF32) ''y0f'' [0] [Ret],
   export ''y1'' [TF64] (Some TF64) ''y1'' [0] [Ret],
   export ''y1f'' [TF32] (Some TF32) ''y1f'' [0] [Ret],
   export ''yn'' [TI32, TF64] (Some TF64) ''yn'' [0, 1] [Ret],
   export ''ynf'' [TI32, TF32] (Some TF32) ''ynf'' [0, 1] [Ret]]"

definition cmath_exports :: "cexport list" where
  "cmath_exports = cmath_exports_1 @ cmath_exports_2 @ cmath_exports_3 @ cmath_exports_4"

lemmas cmath_tables = cmath_exports_def cmath_exports_1_def cmath_exports_2_def cmath_exports_3_def
  cmath_exports_4_def export_def

section \<open>The convention of the C library\<close>

text \<open>
  What the C library asks of a function with \<open>n\<close> values and then pointers as parameters: it computes the
  function of its own name on the values; the first component of the result is returned, unless the
  function returns nothing, and the others are stored through the pointers in order.
\<close>

definition n_values :: "cexport \<Rightarrow> nat" where
  "n_values e = length (filter (\<lambda>t. t \<noteq> TPtr) (ex_params e))"

fun store_all :: "cval list \<Rightarrow> cval list \<Rightarrow> memory \<Rightarrow> memory" where
  "store_all (p # ps) (v # vs) mem = store_all ps vs (store p v mem)"
| "store_all _ _ mem = mem"

definition c_call :: "libm \<Rightarrow> string \<Rightarrow> nat \<Rightarrow> bool \<Rightarrow> cval list \<Rightarrow> memory \<Rightarrow> cval option \<times> memory" where
  "c_call libm name n returns args mem =
     (case (returns, libm name (take n args)) of
        (True, v # vs) \<Rightarrow> (Some v, store_all (drop n args) vs mem)
      | (True, []) \<Rightarrow> (None, mem)
      | (False, vs) \<Rightarrow> (None, store_all (drop n args) vs mem))"

definition conventional :: "cexport \<Rightarrow> bool" where
  "conventional e \<longleftrightarrow>
     (let n = n_values e; k = length (ex_params e)
      in n \<le> k \<and> ex_args e = [0..<n] \<and>
         ex_outs e = (if ex_ret e = None then [] else [Ret]) @ map Store [n..<k])"

lemma deliver_stores:
  "length args = k \<Longrightarrow> n \<le> k \<Longrightarrow>
     deliver (map Store [n..<k]) vs args (r, mem) = (r, store_all (drop n args) vs mem)"
proof (induction "k - n" arbitrary: n vs mem)
  case 0
  then show ?case by simp
next
  case (Suc d)
  then have "n < k" by simp
  then have "[n..<k] = n # [Suc n..<k]" and "drop n args = args ! n # drop (Suc n) args"
    using Suc.prems by (simp_all add: upt_conv_Cons Cons_nth_drop_Suc)
  with Suc \<open>n < k\<close> show ?case by (cases vs) simp_all
qed

lemma conventional_call:
  assumes "conventional e" and "length args = length (ex_params e)"
  shows "call_export libm e args mem = c_call libm (ex_callee e) (n_values e) (ex_ret e \<noteq> None) args mem"
proof -
  have n: "n_values e \<le> length args" using assms by (simp add: conventional_def Let_def)
  then have "map (\<lambda>i. args ! i) [0..<n_values e] = take (n_values e) args"
    by (simp add: list_eq_iff_nth_eq)
  with assms n show ?thesis
    by (auto simp: call_export_def c_call_def conventional_def Let_def deliver_stores
        split: list.split)
qed

lemma exports_conventional: "list_all conventional cmath_exports"
  by (simp add: cmath_tables conventional_def n_values_def Let_def upt_rec)

lemma exports_callees:
  "list_all (\<lambda>e. ex_callee e = (if ex_name e = ''fabsf'' then ''expm1f'' else ex_name e)) cmath_exports"
  by (simp add: cmath_tables)

section \<open>Properties\<close>

text \<open>
  C32: every exported function computes the \<open>libm\<close> function of its own name, on its arguments in their
  order, returns and stores the components of the result as the C library does, and touches no other
  memory, with one exception: \<open>fabsf\<close> computes \<open>expm1f\<close>.
\<close>
theorem cmath_exports_forward:
  assumes "e \<in> set cmath_exports" and "length args = length (ex_params e)"
  shows "call_export libm e args mem =
    c_call libm (if ex_name e = ''fabsf'' then ''expm1f'' else ex_name e) (n_values e) (ex_ret e \<noteq> None) args mem"
  using conventional_call [of e args libm mem] assms exports_conventional exports_callees
  by (auto simp: list_all_iff)

theorem cmath_exports_forward_witness:
  "call_export (\<lambda>f args. if f = ''expm1f'' then [VF32 7] else [VF32 1])
     (export ''fabsf'' [TF32] (Some TF32) ''expm1f'' [0] [Ret]) [VF32 0] (\<lambda>_. VI32 0) = (Some (VF32 7), \<lambda>_. VI32 0)"
proof -
  have "export ''fabsf'' [TF32] (Some TF32) ''expm1f'' [0] [Ret] \<in> set cmath_exports"
    by (simp add: cmath_tables)
  from cmath_exports_forward [OF this, of "[VF32 0]"] show ?thesis
    by (simp add: export_def c_call_def n_values_def)
qed

end
