(* ===== verification/Laplace.thy ===== *)
theory Laplace
  imports Complex_Main Matmul
begin

text \<open>
  The Jacobi iteration of \<open>examples/demo/src/tests/laplace.rs\<close> and its setup in \<open>tests/mod.rs\<close>. A matrix is
  a row-major list; an index out of bounds and a subtraction below zero panic. The element type is
  arbitrary and \<open>quarter\<close> is the constant \<open>0.25\<close> (\<open>f64\<close> in the source); the properties are proved over an
  ordered field, that is, without rounding. Chunks and rows are processed in parallel in the source, on
  disjoint parts of the matrix; here in order.
\<close>

section \<open>Operations\<close>

definition checked_sub :: "nat \<Rightarrow> nat \<Rightarrow> nat run" where
  "checked_sub a b = (if b \<le> a then Ok (a - b) else Err (PanicFault ''attempt to subtract with overflow''))"

definition index_get :: "'a list \<Rightarrow> nat \<Rightarrow> 'a run" where
  "index_get xs i = (if i < length xs then Ok (xs ! i) else Err (PanicFault ''index out of bounds''))"

text \<open>The mean of the four neighbours: \<open>(w + e + s + n) * 0.25\<close>.\<close>

definition mean4 :: "'a \<Rightarrow> 'a::{plus,times} list \<Rightarrow> nat \<Rightarrow> nat \<Rightarrow> nat \<Rightarrow> nat \<Rightarrow> 'a run" where
  "mean4 quarter m i j k l =
     rbind (index_get m i) (\<lambda>a. rbind (index_get m j) (\<lambda>b.
     rbind (index_get m k) (\<lambda>c. rbind (index_get m l) (\<lambda>d. Ok ((a + b + c + d) * quarter)))))"

definition residual_term :: "'a \<Rightarrow> 'a::{plus,minus,times} list \<Rightarrow> nat \<Rightarrow> nat \<Rightarrow> nat \<Rightarrow> 'a \<Rightarrow> 'a run" where
  "residual_term quarter m size_x y x acc =
     rbind (mean4 quarter m (y * size_x + x - 1) (y * size_x + x + 1) ((y + 1) * size_x + x)
       ((y - 1) * size_x + x)) (\<lambda>new.
     rbind (index_get m (y * size_x + x)) (\<lambda>old.
       let diff = new - old in Ok (acc + diff * diff)))"

definition get_residual :: "'a \<Rightarrow> 'a::{zero,plus,minus,times} list \<Rightarrow> nat \<Rightarrow> nat \<Rightarrow> 'a run" where
  "get_residual quarter m size_x size_y =
     rbind (checked_sub size_y 1) (\<lambda>ey.
       for_each [1..<ey] (\<lambda>y acc.
         rbind (checked_sub size_x 1) (\<lambda>ex.
         rbind (for_each [1..<ex] (residual_term quarter m size_x y) 0) (\<lambda>local_sum.
           Ok (acc + local_sum)))) 0)"

text \<open>One cell of the chunk that starts at \<open>base\<close> and has \<open>len\<close> cells.\<close>

definition update_cell :: "'a \<Rightarrow> 'a::{plus,times} list \<Rightarrow> nat \<Rightarrow> nat \<Rightarrow> nat \<Rightarrow> nat \<Rightarrow> nat \<Rightarrow>
    'a list \<Rightarrow> 'a list run" where
  "update_cell quarter cur size_x offset_base base len x next =
     rbind (mean4 quarter cur (offset_base + x - 1) (offset_base + x + 1) (offset_base + size_x + x)
       (offset_base - size_x + x)) (\<lambda>v.
     if x < len then Ok (next[base + x := v]) else Err (PanicFault ''index out of bounds''))"

definition iteration :: "'a \<Rightarrow> 'a::{plus,times} list \<Rightarrow> 'a list \<Rightarrow> nat \<Rightarrow> nat \<Rightarrow> 'a list run" where
  "iteration quarter cur next size_x size_y =
     (if size_y = 0 then Err (PanicFault ''chunk_size must not be zero'')
      else for_each [0..<(length next + size_y - 1) div size_y] (\<lambda>chunk_index next.
        if chunk_index > 0 \<and> chunk_index < size_y - 1
        then
          let offset_base = chunk_index * size_x;
              base = chunk_index * size_y;
              len = min size_y (length next - base)
          in rbind (checked_sub size_x 1) (\<lambda>ex.
               for_each [1..<ex] (update_cell quarter cur size_x offset_base base len) next)
        else Ok next) next)"

text \<open>
  \<open>compute\<close>: the loop on the counter as a primitive recursion on the number of steps left; the source
  runs 1000.
\<close>

definition compute_step :: "'a \<Rightarrow> nat \<Rightarrow> nat \<Rightarrow> 'a::{plus,times} list list \<Rightarrow> 'a list list run" where
  "compute_step quarter size_x size_y matrix =
     (case matrix of
        current # next # rest \<Rightarrow>
          rbind (iteration quarter current next size_x size_y) (\<lambda>next. Ok (next # current # rest))
      | _ \<Rightarrow> Err (PanicFault ''index out of bounds''))"

fun compute_loop :: "'a \<Rightarrow> nat \<Rightarrow> nat \<Rightarrow> nat \<Rightarrow> 'a::{plus,times} list list \<Rightarrow> 'a list list run" where
  "compute_loop quarter size_x size_y 0 matrix = Ok matrix"
| "compute_loop quarter size_x size_y (Suc k) matrix =
     rbind (compute_step quarter size_x size_y matrix) (compute_loop quarter size_x size_y k)"

definition compute :: "'a \<Rightarrow> 'a::{zero,plus,minus,times} list list \<Rightarrow> nat \<Rightarrow> nat \<Rightarrow> (nat \<times> 'a) run" where
  "compute quarter matrix size_x size_y =
     rbind (compute_loop quarter size_x size_y 1000 matrix) (\<lambda>matrix.
     rbind (index_get matrix 0) (\<lambda>m.
     rbind (get_residual quarter m size_x size_y) (\<lambda>res. Ok (1000, res))))"

definition matrix_setup_one :: "nat \<Rightarrow> nat \<Rightarrow> 'a::{zero,one} list run" where
  "matrix_setup_one size_x size_y =
     rbind (for_each [0..<size_x] (\<lambda>x m. index_set m x 1) (replicate (size_x * size_y) 0)) (\<lambda>m.
     rbind (for_each [0..<size_x] (\<lambda>x m. rbind (checked_sub size_y 1) (\<lambda>ly. index_set m (ly * size_x + x) 1)) m) (\<lambda>m.
     rbind (for_each [0..<size_y] (\<lambda>y m. index_set m (y * size_x) 1) m) (\<lambda>m.
       for_each [0..<size_y] (\<lambda>y m. rbind (checked_sub (y * size_x + size_x) 1) (\<lambda>p. index_set m p 1)) m)))"

text \<open>Both buffers get the same assignments.\<close>

definition matrix_setup :: "nat \<Rightarrow> nat \<Rightarrow> 'a::{zero,one} list list run" where
  "matrix_setup size_x size_y = rbind (matrix_setup_one size_x size_y) (\<lambda>m. Ok [m, m])"

section \<open>Loops that set cells\<close>

text \<open>
  \<open>sets_cells N P V body\<close>: on a list of \<open>N\<close> cells, \<open>body\<close> returns and has set exactly the cells in \<open>P\<close>, to
  the values \<open>V\<close>.
\<close>

definition sets_cells :: "nat \<Rightarrow> (nat \<Rightarrow> bool) \<Rightarrow> (nat \<Rightarrow> 'a) \<Rightarrow> ('a list \<Rightarrow> 'a list run) \<Rightarrow> bool" where
  "sets_cells N P V body \<longleftrightarrow> (\<forall>d. length d = N \<longrightarrow>
     (\<exists>d'. body d = Ok d' \<and> length d' = N \<and> (\<forall>p < N. d' ! p = (if P p then V p else d ! p))))"

lemma sets_cellsE:
  assumes "sets_cells N P V body" and "length d = N"
  obtains d' where "body d = Ok d'" and "length d' = N" and "\<And>p. p < N \<Longrightarrow> d' ! p = (if P p then V p else d ! p)"
  using assms unfolding sets_cells_def by blast

lemma sets_cellsD: "sets_cells N P V body \<Longrightarrow> length d = N \<Longrightarrow>
    \<exists>d'. body d = Ok d' \<and> length d' = N \<and> (\<forall>p < N. d' ! p = (if P p then V p else d ! p))"
  unfolding sets_cells_def by blast

lemma sets_cells_cong:
  "sets_cells N P V body \<Longrightarrow> (\<And>p. p < N \<Longrightarrow> P p = Q p) \<Longrightarrow> sets_cells N Q V body"
  unfolding sets_cells_def by (metis (full_types))

lemma sets_cells_index_set: "i < N \<Longrightarrow> v = V i \<Longrightarrow> sets_cells N (\<lambda>p. p = i) V (\<lambda>m. index_set m i v)"
  by (auto simp: sets_cells_def index_set_def nth_list_update)

lemma sets_cells_none: "sets_cells N (\<lambda>p. False) V Ok"
  by (simp add: sets_cells_def)

lemma sets_cells_rbind:
  assumes "sets_cells N P V b1" and "sets_cells N Q V b2"
  shows "sets_cells N (\<lambda>p. P p \<or> Q p) V (\<lambda>m. rbind (b1 m) b2)"
  unfolding sets_cells_def
proof (intro allI impI)
  fix d :: "'a list" assume "length d = N"
  with assms(1) obtain d1 where d1: "b1 d = Ok d1" "length d1 = N"
    "\<And>p. p < N \<Longrightarrow> d1 ! p = (if P p then V p else d ! p)" by (rule sets_cellsE) blast
  from assms(2) d1(2) obtain d2 where "b2 d1 = Ok d2" "length d2 = N"
    "\<And>p. p < N \<Longrightarrow> d2 ! p = (if Q p then V p else d1 ! p)" by (rule sets_cellsE) blast
  with d1 show "\<exists>d'. rbind (b1 d) b2 = Ok d' \<and> length d' = N \<and>
    (\<forall>p < N. d' ! p = (if P p \<or> Q p then V p else d ! p))" by auto
qed

lemma sets_cells_for_each:
  assumes "\<And>x. x \<in> set xs \<Longrightarrow> sets_cells N (P x) V (body x)"
  shows "sets_cells N (\<lambda>p. \<exists>x \<in> set xs. P x p) V (for_each xs body)"
  using assms
proof (induction xs)
  case Nil
  then show ?case by (simp add: sets_cells_none)
next
  case (Cons x xs)
  have "sets_cells N (\<lambda>p. P x p \<or> (\<exists>x \<in> set xs. P x p)) V (\<lambda>m. rbind (body x m) (for_each xs body))"
    using Cons by (intro sets_cells_rbind) auto
  moreover have "(\<lambda>m. rbind (body x m) (for_each xs body)) = for_each (x # xs) body"
    by (rule ext) simp
  ultimately show ?case by simp
qed

section \<open>One iteration on a square\<close>

definition interior :: "nat \<Rightarrow> nat \<Rightarrow> bool" where
  "interior n p \<longleftrightarrow> 0 < p div n \<and> p div n < n - 1 \<and> 0 < p mod n \<and> p mod n < n - 1"

definition stencil :: "'a \<Rightarrow> 'a::{plus,times} list \<Rightarrow> nat \<Rightarrow> nat \<Rightarrow> 'a" where
  "stencil quarter cur n p = (cur ! (p - 1) + cur ! (p + 1) + cur ! (p + n) + cur ! (p - n)) * quarter"

lemma cell_less: "c < n \<Longrightarrow> x < n \<Longrightarrow> c * n + x < n * n" for c n x :: nat
  using mult_le_mono1 [of "Suc c" n n] by simp

lemma update_cell_sets:
  assumes "length cur = n * n" and "0 < c" "c < n - 1" "0 < x" "x < n - 1"
  shows "sets_cells (n * n) (\<lambda>p. p = c * n + x) (stencil quarter cur n)
    (update_cell quarter cur n (c * n) (c * n) n x)"
proof -
  have le: "n \<le> c * n" using assms(2) by simp
  have "(c + 1) * n + x < n * n" using assms by (intro cell_less) simp_all
  then have idx: "c * n + n + x < n * n" "c * n + x + 1 < n * n" "c * n + x - 1 < n * n"
    "c * n - n + x < n * n" using assms le by (simp_all add: algebra_simps)
  have "c * n - n + x = c * n + x - n" using le by simp
  then have "mean4 quarter cur (c * n + x - 1) (c * n + x + 1) (c * n + n + x) (c * n - n + x)
      = Ok (stencil quarter cur n (c * n + x))"
    using idx assms(1) by (simp add: mean4_def index_get_def stencil_def ac_simps)
  then show ?thesis
    using assms idx by (auto simp: update_cell_def sets_cells_def nth_list_update)
qed

lemma chunk_sets:
  assumes "length cur = n * n" and "0 < c" "c < n - 1"
  shows "sets_cells (n * n) (\<lambda>p. p div n = c \<and> 0 < p mod n \<and> p mod n < n - 1) (stencil quarter cur n)
    (\<lambda>next. rbind (checked_sub n 1) (\<lambda>ex.
       for_each [1..<ex] (update_cell quarter cur n (c * n) (c * n) (min n (length next - c * n))) next))"
proof -
  have n: "0 < n" using assms(3) by simp
  have "sets_cells (n * n) (\<lambda>p. \<exists>x \<in> set [1..<n - 1]. p = c * n + x) (stencil quarter cur n)
      (for_each [1..<n - 1] (update_cell quarter cur n (c * n) (c * n) n))"
    by (rule sets_cells_for_each) (use assms in \<open>auto intro: update_cell_sets\<close>)
  moreover have "(\<exists>x \<in> set [1..<n - 1]. p = c * n + x) \<longleftrightarrow> p div n = c \<and> 0 < p mod n \<and> p mod n < n - 1" for p
  proof
    assume "p div n = c \<and> 0 < p mod n \<and> p mod n < n - 1"
    then show "\<exists>x \<in> set [1..<n - 1]. p = c * n + x"
      by (intro bexI [of _ "p mod n"]) (auto simp: div_mult_mod_eq)
  qed (use n in auto)
  ultimately have "sets_cells (n * n) (\<lambda>p. p div n = c \<and> 0 < p mod n \<and> p mod n < n - 1)
      (stencil quarter cur n) (for_each [1..<n - 1] (update_cell quarter cur n (c * n) (c * n) n))"
    by (simp only:)
  moreover have "min n (n * n - c * n) = n"
  proof -
    have "(c + 1) * n \<le> n * n" using assms(3) by (intro mult_le_mono1) simp
    then show ?thesis by simp
  qed
  ultimately show ?thesis using n by (simp add: sets_cells_def checked_sub_def)
qed

lemma iteration_sets:
  assumes "length cur = n * n" and "0 < n"
  shows "sets_cells (n * n) (interior n) (stencil quarter cur n) (\<lambda>next. iteration quarter cur next n n)"
proof -
  let ?body = "\<lambda>c next. if c > 0 \<and> c < n - 1
        then rbind (checked_sub n 1) (\<lambda>ex.
          for_each [1..<ex] (update_cell quarter cur n (c * n) (c * n) (min n (length next - c * n))) next)
        else Ok next"
  have "sets_cells (n * n) (\<lambda>p. \<exists>c \<in> set [0..<n]. 0 < c \<and> c < n - 1 \<and> p div n = c \<and> 0 < p mod n \<and> p mod n < n - 1)
      (stencil quarter cur n) (for_each [0..<n] ?body)"
  proof (rule sets_cells_for_each)
    fix c show "sets_cells (n * n) (\<lambda>p. 0 < c \<and> c < n - 1 \<and> p div n = c \<and> 0 < p mod n \<and> p mod n < n - 1)
        (stencil quarter cur n) (?body c)"
    proof (cases "0 < c \<and> c < n - 1")
      case True
      with chunk_sets [OF assms(1), of c quarter] show ?thesis by simp
    next
      case False
      then show ?thesis by (auto simp: sets_cells_def)
    qed
  qed
  then have "sets_cells (n * n) (interior n) (stencil quarter cur n) (for_each [0..<n] ?body)"
    by (rule sets_cells_cong) (auto simp: interior_def)
  moreover have "(n * n + n - 1) div n = n"
  proof -
    have "(n * n + n - 1) div n = (n - 1 + n * n) div n" using assms(2) by (simp add: add.commute)
    also have "\<dots> = n" using assms(2) by (simp only: div_mult_self1) simp
    finally show ?thesis .
  qed
  ultimately show ?thesis
    using assms(2) unfolding sets_cells_def iteration_def Let_def by auto
qed

section \<open>Setup and computation on a square\<close>

lemma border_cells:
  assumes "0 < n" and "p < n * n"
  shows "((\<exists>x \<in> set [0..<n]. p = x) \<or> (\<exists>x \<in> set [0..<n]. p = (n - 1) * n + x) \<or>
      (\<exists>y \<in> set [0..<n]. p = y * n) \<or> (\<exists>y \<in> set [0..<n]. p = y * n + (n - 1))) \<longleftrightarrow> \<not> interior n p"
    (is "?lhs \<longleftrightarrow> _")
proof
  have p: "p = p div n * n + p mod n" by simp
  have y: "p div n < n" and x: "p mod n < n" using assms by (simp_all add: less_mult_imp_div_less)
  assume "\<not> interior n p"
  then have "p div n = 0 \<or> p div n = n - 1 \<or> p mod n = 0 \<or> p mod n = n - 1"
    using x y unfolding interior_def by linarith
  then show ?lhs using p x y by (metis add.right_neutral add_0 atLeast_upt lessThan_iff mult_0)
next
  have corner: "(y * n + (n - 1)) mod n = n - 1" for y
    using assms(1) by (simp only: mod_mult_self3) simp
  assume ?lhs
  then show "\<not> interior n p"
  proof (elim disjE bexE)
    fix y assume "p = y * n + (n - 1)"
    then show ?thesis using corner [of y] by (simp only: interior_def) simp
  qed (use assms(1) in \<open>auto simp: interior_def\<close>)
qed

lemma matrix_setup_one_square:
  assumes "0 < n"
  shows "\<exists>m. matrix_setup_one n n = Ok m \<and> length m = n * n \<and>
    (\<forall>p < n * n. m ! p = (if interior n p then 0 else (1::'a::{zero,one})))"
proof -
  let ?V = "\<lambda>_::nat. 1::'a"
  have top: "sets_cells (n * n) (\<lambda>p. \<exists>x \<in> set [0..<n]. p = x) ?V (for_each [0..<n] (\<lambda>x m. index_set m x 1))"
    by (rule sets_cells_for_each, rule sets_cells_index_set) (use cell_less [of 0 n] assms in auto)
  have bottom: "sets_cells (n * n) (\<lambda>p. \<exists>x \<in> set [0..<n]. p = (n - 1) * n + x) ?V
      (for_each [0..<n] (\<lambda>x m. rbind (checked_sub n 1) (\<lambda>ly. index_set m (ly * n + x) 1)))"
  proof (rule sets_cells_for_each)
    fix x assume "x \<in> set [0..<n]"
    then have "(n - 1) * n + x < n * n" using assms by (intro cell_less) auto
    then have "sets_cells (n * n) (\<lambda>p. p = (n - 1) * n + x) ?V (\<lambda>m. index_set m ((n - 1) * n + x) 1)"
      by (rule sets_cells_index_set) simp
    then show "sets_cells (n * n) (\<lambda>p. p = (n - 1) * n + x) ?V
        (\<lambda>m. rbind (checked_sub n 1) (\<lambda>ly. index_set m (ly * n + x) 1))"
      using assms by (simp add: checked_sub_def)
  qed
  have left: "sets_cells (n * n) (\<lambda>p. \<exists>y \<in> set [0..<n]. p = y * n) ?V (for_each [0..<n] (\<lambda>y m. index_set m (y * n) 1))"
    by (rule sets_cells_for_each, rule sets_cells_index_set) (use cell_less [of _ n 0] assms in auto)
  have right: "sets_cells (n * n) (\<lambda>p. \<exists>y \<in> set [0..<n]. p = y * n + (n - 1)) ?V
      (for_each [0..<n] (\<lambda>y m. rbind (checked_sub (y * n + n) 1) (\<lambda>p. index_set m p 1)))"
  proof (rule sets_cells_for_each)
    fix y assume "y \<in> set [0..<n]"
    then have "y * n + (n - 1) < n * n" using assms by (intro cell_less) auto
    then have "sets_cells (n * n) (\<lambda>p. p = y * n + (n - 1)) ?V (\<lambda>m. index_set m (y * n + (n - 1)) 1)"
      by (rule sets_cells_index_set) simp
    then show "sets_cells (n * n) (\<lambda>p. p = y * n + (n - 1)) ?V
        (\<lambda>m. rbind (checked_sub (y * n + n) 1) (\<lambda>p. index_set m p 1))"
      using assms by (simp add: checked_sub_def)
  qed
  note all = sets_cells_rbind [OF top sets_cells_rbind [OF bottom sets_cells_rbind [OF left right]]]
  have "\<exists>m. matrix_setup_one n n = Ok m \<and> length m = n * n \<and>
      (\<forall>p < n * n. m ! p = (if \<not> interior n p then (1::'a) else replicate (n * n) 0 ! p))"
    unfolding matrix_setup_one_def
    by (rule sets_cellsD [OF sets_cells_cong [OF all border_cells [OF assms]] length_replicate])
  then show ?thesis by auto
qed

text \<open>The reference step on a square: the interior cells are averaged, the others kept.\<close>

definition jacobi :: "'a \<Rightarrow> nat \<Rightarrow> 'a::{plus,times} list \<Rightarrow> 'a list" where
  "jacobi quarter n m = map (\<lambda>p. if interior n p then stencil quarter m n p else m ! p) [0..<n * n]"

lemma length_jacobi [simp]: "length (jacobi quarter n m) = n * n"
  by (simp add: jacobi_def)

lemma nth_jacobi: "p < n * n \<Longrightarrow> jacobi quarter n m ! p = (if interior n p then stencil quarter m n p else m ! p)"
  by (simp add: jacobi_def)

definition same_border :: "nat \<Rightarrow> 'a list \<Rightarrow> 'a list \<Rightarrow> bool" where
  "same_border n a b \<longleftrightarrow> (\<forall>p < n * n. \<not> interior n p \<longrightarrow> a ! p = b ! p)"

lemma same_border_jacobi: "same_border n (jacobi quarter n a) a"
  by (simp add: same_border_def nth_jacobi)

lemma iteration_jacobi:
  assumes "0 < n" and "length a = n * n" and "length b = n * n" and "same_border n a b"
  shows "iteration quarter a b n n = Ok (jacobi quarter n a)"
proof -
  obtain d where d: "iteration quarter a b n n = Ok d" "length d = n * n"
    and cells: "\<And>p. p < n * n \<Longrightarrow> d ! p = (if interior n p then stencil quarter a n p else b ! p)"
    using sets_cellsD [OF iteration_sets [OF assms(2,1), of quarter] assms(3)] by blast
  have "d = jacobi quarter n a"
    using d(2) cells assms(4) by (intro nth_equalityI) (auto simp: nth_jacobi same_border_def)
  with d(1) show ?thesis by simp
qed

lemma compute_step_jacobi:
  assumes "0 < n" and "length a = n * n" and "length b = n * n" and "same_border n a b"
  shows "compute_step quarter n n [a, b] = Ok [jacobi quarter n a, a]"
  using iteration_jacobi [OF assms, of quarter] by (simp add: compute_step_def)

lemma compute_loop_jacobi:
  assumes "0 < n" and "length a = n * n" and "length b = n * n" and "same_border n a b"
  shows "compute_loop quarter n n k [a, b] = Ok [(jacobi quarter n ^^ k) a,
    if k = 0 then b else (jacobi quarter n ^^ (k - 1)) a]"
  using assms
proof (induction k arbitrary: a b)
  case (Suc k)
  have step: "compute_loop quarter n n (Suc k) [a, b] = compute_loop quarter n n k [jacobi quarter n a, a]"
    using compute_step_jacobi [OF Suc.prems, of quarter] by simp
  have "compute_loop quarter n n k [jacobi quarter n a, a] = Ok [(jacobi quarter n ^^ k) (jacobi quarter n a),
      if k = 0 then a else (jacobi quarter n ^^ (k - 1)) (jacobi quarter n a)]"
    using Suc.prems same_border_jacobi by (intro Suc.IH) auto
  also have "\<dots> = Ok [(jacobi quarter n ^^ Suc k) a, (jacobi quarter n ^^ k) a]"
    by (cases k) (simp_all add: funpow_swap1)
  finally show ?case using step by simp
qed simp

section \<open>The maximum principle\<close>

definition in_range :: "nat \<Rightarrow> 'a::{zero,one,ord} list \<Rightarrow> bool" where
  "in_range n m \<longleftrightarrow> length m = n * n \<and>
     (\<forall>p < n * n. 0 \<le> m ! p \<and> m ! p \<le> 1 \<and> (\<not> interior n p \<longrightarrow> m ! p = 1))"

lemma interior_neighbours:
  assumes "interior n p" and "p < n * n"
  shows "p - 1 < n * n" "p + 1 < n * n" "p + n < n * n" "p - n < n * n"
proof -
  have y: "p div n + 1 < n" and x: "p mod n < n" "p mod n + 1 < n" using assms(1) by (auto simp: interior_def)
  have "(p div n + 1) * n + p mod n = p + n" "p div n * n + (p mod n + 1) = p + 1" by (simp_all add: algebra_simps)
  then show "p + n < n * n" "p + 1 < n * n"
    using cell_less [OF y x(1)] cell_less [of "p div n" n "p mod n + 1"] x(2) y by simp_all
  show "p - 1 < n * n" "p - n < n * n" using assms(2) by simp_all
qed

lemma in_range_jacobi:
  fixes m :: "'a::linordered_field list"
  assumes "in_range n m"
  shows "in_range n (jacobi (1/4) n m)"
proof -
  have "0 \<le> stencil (1/4) m n p \<and> stencil (1/4) m n p \<le> 1" if "p < n * n" "interior n p" for p
  proof -
    have cell: "0 \<le> m ! q" "m ! q \<le> 1" if "q < n * n" for q using assms that by (auto simp: in_range_def)
    note nb = interior_neighbours [OF that(2,1)]
    have "m ! (p - 1) + m ! (p + 1) + m ! (p + n) + m ! (p - n) \<le> 4"
      using add_mono [OF add_mono [OF add_mono [OF cell(2) [OF nb(1)] cell(2) [OF nb(2)]] cell(2) [OF nb(3)]] cell(2) [OF nb(4)]]
      by simp
    moreover have "0 \<le> m ! (p - 1) + m ! (p + 1) + m ! (p + n) + m ! (p - n)"
      using cell(1) nb by (intro add_nonneg_nonneg)
    ultimately show ?thesis by (simp add: stencil_def)
  qed
  with assms show ?thesis by (auto simp: in_range_def nth_jacobi)
qed

lemma in_range_jacobi_power:
  "in_range n m \<Longrightarrow> in_range n ((jacobi (1/4::'a::linordered_field) n ^^ k) m)"
  by (induction k) (simp_all add: in_range_jacobi)

text \<open>Every step raises the cells: the averaging is monotone and the setup starts below its own average.\<close>

definition cells_le :: "nat \<Rightarrow> 'a::ord list \<Rightarrow> 'a list \<Rightarrow> bool" where
  "cells_le n a b \<longleftrightarrow> (\<forall>p < n * n. a ! p \<le> b ! p)"

lemma cells_le_jacobi:
  fixes a :: "'a::linordered_field list"
  assumes "cells_le n a b"
  shows "cells_le n (jacobi (1/4) n a) (jacobi (1/4) n b)"
proof -
  have "stencil (1/4) a n p \<le> stencil (1/4) b n p" if "p < n * n" "interior n p" for p
  proof -
    have cell: "a ! q \<le> b ! q" if "q < n * n" for q using assms that by (simp add: cells_le_def)
    note nb = interior_neighbours [OF that(2,1)]
    have "a ! (p - 1) + a ! (p + 1) + a ! (p + n) + a ! (p - n) \<le> b ! (p - 1) + b ! (p + 1) + b ! (p + n) + b ! (p - n)"
      by (intro add_mono cell nb)
    then show ?thesis by (simp add: stencil_def)
  qed
  with assms show ?thesis by (simp add: cells_le_def nth_jacobi)
qed

lemma cells_le_jacobi_power:
  fixes m :: "'a::linordered_field list"
  assumes "cells_le n m (jacobi (1/4) n m)"
  shows "cells_le n ((jacobi (1/4) n ^^ k) m) ((jacobi (1/4) n ^^ Suc k) m)"
  using assms by (induction k) (simp_all add: cells_le_jacobi)

lemma matrix_setup_square:
  assumes "0 < n"
  obtains m :: "'a::linordered_field list" where "matrix_setup n n = Ok [m, m]" and "in_range n m"
    and "cells_le n m (jacobi (1/4) n m)"
proof -
  obtain m :: "'a list" where m: "matrix_setup_one n n = Ok m" "length m = n * n"
    and cells: "\<And>p. p < n * n \<Longrightarrow> m ! p = (if interior n p then 0 else 1)"
    using matrix_setup_one_square [OF assms] by blast
  have range: "in_range n m" using m(2) cells by (simp add: in_range_def)
  then have "cells_le n m (jacobi (1/4) n m)"
    using in_range_jacobi [OF range] cells by (auto simp: in_range_def cells_le_def)
  with m(1) range show thesis by (intro that) (simp_all add: matrix_setup_def)
qed

section \<open>The residual\<close>

lemma for_each_invariant:
  assumes "\<And>x s. x \<in> set xs \<Longrightarrow> I s \<Longrightarrow> \<exists>s'. body x s = Ok s' \<and> I s'" and "I s"
  shows "\<exists>s'. for_each xs body s = Ok s' \<and> I s'"
  using assms
proof (induction xs arbitrary: s)
  case (Cons x xs)
  then obtain s1 where "body x s = Ok s1" "I s1" by (meson list.set_intros(1))
  with Cons.IH [of s1] Cons.prems(1) show ?case by auto
qed simp

lemma residual_term_square:
  fixes m :: "'a::linordered_field list"
  assumes "length m = n * n" and "y \<in> set [1..<n - 1]" and "x \<in> set [1..<n - 1]" and "0 \<le> acc"
  shows "\<exists>r. residual_term q m n y x acc = Ok r \<and> 0 \<le> r"
proof -
  have "y * n + (x - 1) < n * n" "y * n + (x + 1) < n * n" "(y + 1) * n + x < n * n" "(y - 1) * n + x < n * n"
    "y * n + x < n * n" using assms(2,3) by (intro cell_less; simp; linarith)+
  moreover have "y * n + x - 1 = y * n + (x - 1)" using assms(3) by simp
  ultimately show ?thesis
    using assms(1,4) by (simp add: residual_term_def mean4_def index_get_def Let_def add.assoc)
qed

lemma get_residual_square:
  fixes m :: "'a::linordered_field list"
  assumes "0 < n" and "length m = n * n"
  shows "\<exists>r. get_residual q m n n = Ok r \<and> 0 \<le> r"
proof -
  have inner: "\<exists>r. for_each [1..<n - 1] (residual_term q m n y) 0 = Ok r \<and> 0 \<le> r" if "y \<in> set [1..<n - 1]" for y
    by (rule for_each_invariant [OF residual_term_square [OF assms(2) that] order_refl])
  have "\<exists>r. for_each [1..<n - 1] (\<lambda>y acc. rbind (for_each [1..<n - 1] (residual_term q m n y) 0)
      (\<lambda>local_sum. Ok (acc + local_sum))) 0 = Ok r \<and> 0 \<le> r"
    by (rule for_each_invariant) (use inner in fastforce)+
  with assms(1) show ?thesis by (simp add: get_residual_def checked_sub_def)
qed

section \<open>Properties\<close>

text \<open>
  C17: On a square matrix \<open>compute\<close> runs the Jacobi iteration: if the two buffers have the same border,
  \<open>k\<close> rounds of its loop return, without any index out of bounds, the \<open>k\<close>-th iterate of the reference step
  \<open>jacobi\<close> as the current matrix and the previous iterate as the other buffer, over any element type.
\<close>

theorem compute_loop_iterates_jacobi:
  fixes a b :: "'a::{plus,times} list"
  assumes "0 < n" and "length a = n * n" and "length b = n * n"
    and "\<forall>p < n * n. \<not> interior n p \<longrightarrow> a ! p = b ! p"
  shows "compute_loop quarter n n k [a, b] = Ok [(jacobi quarter n ^^ k) a,
    if k = 0 then b else (jacobi quarter n ^^ (k - 1)) a]"
  using compute_loop_jacobi [OF assms(1-3)] assms(4) by (simp add: same_border_def)

theorem compute_loop_iterates_jacobi_witness:
  "compute_loop 2 3 3 1 [[1,2,3,4,5,6,7,8,9], [1,2,3,4,0,6,7,8,9]]
     = Ok [(jacobi 2 3 ^^ 1) [1,2,3,4,5,6,7,8,9], (jacobi 2 3 ^^ 0) [1,2,3,4,5,6,7,8,9::nat]] \<and>
   (jacobi 2 3 ^^ 1) [1,2,3,4,5,6,7,8,9] = [1,2,3,4,(4 + 6 + 8 + 2) * 2,6,7,8,9::nat]"
proof
  have nums: "{p. p < 3 * 3} = {0, 1, 2, 3, 4, 5, 6, 7, 8::nat}" by auto
  have "\<forall>p < 3 * 3. \<not> interior 3 p \<longrightarrow> [1,2,3,4,5,6,7,8,9::nat] ! p = [1,2,3,4,0,6,7,8,9] ! p"
  proof (intro allI impI)
    fix p :: nat assume "p < 3 * 3" "\<not> interior 3 p"
    moreover from this have "p \<in> {0, 1, 2, 3, 4, 5, 6, 7, 8}" using nums by blast
    ultimately show "[1,2,3,4,5,6,7,8,9::nat] ! p = [1,2,3,4,0,6,7,8,9] ! p" by (auto simp: interior_def)
  qed
  then show "compute_loop 2 3 3 1 [[1,2,3,4,5,6,7,8,9], [1,2,3,4,0,6,7,8,9]]
     = Ok [(jacobi 2 3 ^^ 1) [1,2,3,4,5,6,7,8,9], (jacobi 2 3 ^^ 0) [1,2,3,4,5,6,7,8,9::nat]]"
    using compute_loop_iterates_jacobi [of 3 "[1,2,3,4,5,6,7,8,9::nat]" "[1,2,3,4,0,6,7,8,9]" 2 1] by simp
  show "(jacobi 2 3 ^^ 1) [1,2,3,4,5,6,7,8,9] = [1,2,3,4,(4 + 6 + 8 + 2) * 2,6,7,8,9::nat]"
    by code_simp
qed

text \<open>
  C18: The maximum principle for the demo \<open>laplace\<close>, over an ordered field: from \<open>matrix_setup\<close> on a square,
  after any number of rounds every cell is between 0 and 1, the border is still 1, every cell is at least
  what it was one round earlier, and \<open>compute\<close> returns 1000 rounds and a residual that is not negative.
\<close>

theorem laplace_maximum_principle:
  assumes "0 < n"
  shows "\<exists>m :: 'a::linordered_field list. matrix_setup n n = Ok [m, m] \<and>
    (\<forall>k. \<exists>a b. compute_loop (1/4) n n (Suc k) [m, m] = Ok [a, b] \<and> length a = n * n \<and> length b = n * n \<and>
       (\<forall>p < n * n. 0 \<le> b ! p \<and> b ! p \<le> a ! p \<and> a ! p \<le> 1 \<and> (\<not> interior n p \<longrightarrow> a ! p = 1))) \<and>
    (\<exists>res. compute (1/4) [m, m] n n = Ok (1000, res) \<and> 0 \<le> res)"
proof -
  obtain m :: "'a list" where m: "matrix_setup n n = Ok [m, m]" and range: "in_range n m"
    and up: "cells_le n m (jacobi (1/4) n m)" by (rule matrix_setup_square [OF assms])
  have len: "length m = n * n" using range by (simp add: in_range_def)
  have loop: "compute_loop (1/4) n n (Suc k) [m, m] = Ok [(jacobi (1/4) n ^^ Suc k) m, (jacobi (1/4) n ^^ k) m]" for k
    using compute_loop_jacobi [OF assms len len, of "1/4" "Suc k"] by (simp add: same_border_def)
  have rounds: "\<exists>a b. compute_loop (1/4) n n (Suc k) [m, m] = Ok [a, b] \<and> length a = n * n \<and> length b = n * n \<and>
       (\<forall>p < n * n. 0 \<le> b ! p \<and> b ! p \<le> a ! p \<and> a ! p \<le> 1 \<and> (\<not> interior n p \<longrightarrow> a ! p = 1))" for k
    using in_range_jacobi_power [OF range, of "Suc k"] in_range_jacobi_power [OF range, of k]
      cells_le_jacobi_power [OF up, of k]
    unfolding loop in_range_def cells_le_def by blast
  have "\<exists>res. get_residual (1/4) ((jacobi (1/4) n ^^ Suc 999) m) n n = Ok res \<and> 0 \<le> res"
    by (rule get_residual_square [OF assms]) (simp only: funpow.simps o_apply length_jacobi)
  then have "\<exists>res. compute (1/4) [m, m] n n = Ok (1000, res) \<and> 0 \<le> res"
    using loop [of 999] unfolding compute_def by (auto simp: index_get_def simp del: funpow.simps compute_loop.simps)
  with m rounds show ?thesis by blast
qed

theorem laplace_maximum_principle_witness:
  "\<exists>m :: real list. matrix_setup 3 3 = Ok [m, m] \<and>
    (\<forall>k. \<exists>a b. compute_loop (1/4) 3 3 (Suc k) [m, m] = Ok [a, b] \<and> length a = 3 * 3 \<and> length b = 3 * 3 \<and>
       (\<forall>p < 3 * 3. 0 \<le> b ! p \<and> b ! p \<le> a ! p \<and> a ! p \<le> 1 \<and> (\<not> interior 3 p \<longrightarrow> a ! p = 1))) \<and>
    (\<exists>res. compute (1/4) [m, m] 3 3 = Ok (1000, res) \<and> 0 \<le> res)"
  by (rule laplace_maximum_principle) simp

text \<open>
  On a matrix that is not square \<open>iteration\<close> does not compute the step: it cuts the destination into
  chunks of \<open>size_y\<close> instead of \<open>size_x\<close> cells. With four columns and three rows the border cell 4 is
  overwritten and the interior cell 6 keeps its old value.
\<close>

theorem iteration_not_square:
  "iteration 1 (replicate 12 (1::nat)) (replicate 12 7) 4 3 = Ok [7, 7, 7, 7, 4, 4, 7, 7, 7, 7, 7, 7]"
  by code_simp

end
