(* ===== verification/Demo_Tests.thy ===== *)
theory Demo_Tests
  imports Laplace Matmul_Recursive
begin

text \<open>
  The demo application: the numerical tests \<open>pi_sequential\<close>, \<open>pi_parallel\<close> and \<open>laplace\<close> of
  \<open>tests/mod.rs\<close> and the three main programs that run and report tests. The numbers are an arbitrary
  ordered field (\<open>f64\<close> in the source); the properties are about the reals, that is, without rounding. The
  constant \<open>PI\<close> and the parallel sum of \<open>rayon\<close> are arguments; the tests that only use the operating system
  are in \<open>Demo_System\<close>. The main program takes its tests as an argument.
\<close>

section \<open>Approximating pi\<close>

definition pi_term :: "'a::linordered_field \<Rightarrow> nat \<Rightarrow> 'a" where
  "pi_term step i = (let x = (of_nat i + 1/2) * step in 4 / (1 + x * x))"

definition pi_check :: "'a::linordered_field \<Rightarrow> nat \<Rightarrow> 'a \<Rightarrow> (unit, unit) result" where
  "pi_check PI num_steps summ =
     (let mypi = summ * (1 / of_nat num_steps) in if \<bar>mypi - PI\<bar> < 1 / 100000 then Ok () else Err ())"

definition pi_sequential :: "'a::linordered_field \<Rightarrow> nat \<Rightarrow> (unit, unit) result" where
  "pi_sequential PI num_steps =
     (let step = 1 / of_nat num_steps;
          summ = foldl (\<lambda>acc i. acc + pi_term step i) 0 [0..<num_steps]
      in pi_check PI num_steps summ)"

definition pi_parallel :: "('a list \<Rightarrow> 'a) \<Rightarrow> 'a::linordered_field \<Rightarrow> nat \<Rightarrow> (unit, unit) result" where
  "pi_parallel par_sum PI num_steps =
     (let step = 1 / of_nat num_steps;
          summ = par_sum (map (pi_term step) [0..<num_steps])
      in pi_check PI num_steps summ)"

section \<open>Laplace\<close>

definition laplace :: "'a::linordered_field \<Rightarrow> nat \<Rightarrow> nat \<Rightarrow> (unit, unit) result run" where
  "laplace quarter size_x size_y =
     rbind (matrix_setup size_x size_y) (\<lambda>matrix.
     rbind (compute quarter matrix size_x size_y) (\<lambda>(iterations, res).
       Ok (if res < 1 / 100 then Ok () else Err ())))"

section \<open>Matrix multiplication\<close>

definition ROW_SIZE :: nat where "ROW_SIZE = 512"

definition test_matmul_strassen :: "(nat \<Rightarrow> 'a) \<Rightarrow> 'a::{zero,one,plus,minus,times} \<Rightarrow> (unit, unit) result run" where
  "test_matmul_strassen junk two =
     (let n = ROW_SIZE * ROW_SIZE; x = replicate n 1; y = replicate n two; z = replicate n 0
      in rbind (matmul_strassen junk x y z) (\<lambda>z. Ok (Ok ())))"

text \<open>\<open>next_power_of_two\<close> of the standard library, and the matrices that \<open>timed_matmul\<close> multiplies.\<close>

fun power_of_two_from :: "nat \<Rightarrow> nat \<Rightarrow> nat \<Rightarrow> nat" where
  "power_of_two_from 0 p n = p"
| "power_of_two_from (Suc k) p n = (if n \<le> p then p else power_of_two_from k (2 * p) n)"

definition next_power_of_two :: "nat \<Rightarrow> nat" where
  "next_power_of_two n = power_of_two_from 64 1 n"

definition timed_matmul :: "('a::{zero,plus} list \<Rightarrow> 'a list \<Rightarrow> 'a list \<Rightarrow> 'a list run) \<Rightarrow> (nat \<Rightarrow> 'a) \<Rightarrow> nat \<Rightarrow> 'a list run" where
  "timed_matmul f as_float siz =
     (let siz = next_power_of_two siz; n = siz * siz
      in f (map as_float [0..<n]) (map (\<lambda>i. as_float (i + 7)) [0..<n]) (replicate n 0))"

section \<open>Main programs\<close>

fun test_result :: "(unit, 'e) result \<Rightarrow> string" where
  "test_result (Ok _) = ''ok''"
| "test_result (Err _) = ''failed!''"

definition report :: "(string \<Rightarrow> 'w \<Rightarrow> 'w) \<Rightarrow> string \<Rightarrow> ('w, (unit, 'e) result) prog \<Rightarrow> ('w, unit) prog" where
  "report println name test =
     pbind test (\<lambda>r. pmodify (println (''Test '' @ name @ '' ... '' @ test_result r)))"

definition demo_tests :: "string list" where
  "demo_tests = [''hello'', ''arithmetic'', ''print_argv'', ''print_env'', ''read_file'', ''create_file'', ''threading'',
     ''pi_sequential'', ''pi_parallel'', ''laplace'', ''test_matmul_strassen'', ''thread_creation'']"

text \<open>\<open>test\<close> is the test of a name, applied to its arguments: \<open>pi_sequential(5000000)\<close>, \<open>laplace(128, 128)\<close>.\<close>

fun run_tests :: "(string \<Rightarrow> 'w \<Rightarrow> 'w) \<Rightarrow> (string \<Rightarrow> ('w, (unit, 'e) result) prog) \<Rightarrow> string list \<Rightarrow> ('w, unit) prog" where
  "run_tests println test [] = pret ()"
| "run_tests println test (n # ns) = pbind (report println n (test n)) (\<lambda>_. run_tests println test ns)"

definition demo_main :: "(string \<Rightarrow> 'w \<Rightarrow> 'w) \<Rightarrow> (string \<Rightarrow> ('w, (unit, 'e) result) prog) \<Rightarrow> ('w, unit) prog" where
  "demo_main println test = run_tests println test demo_tests"

definition pi_main :: "(string \<Rightarrow> 'w \<Rightarrow> 'w) \<Rightarrow> (string \<Rightarrow> ('w, (unit, 'e) result) prog) \<Rightarrow> ('w, unit) prog" where
  "pi_main println test = run_tests println test [''pi_sequential'']"

definition matmul_main :: "(string \<Rightarrow> 'w \<Rightarrow> 'w) \<Rightarrow> (string \<Rightarrow> ('w, (unit, 'e) result) prog) \<Rightarrow> ('w, unit) prog" where
  "matmul_main println test = run_tests println test [''test_matmul_strassen'']"

section \<open>The midpoint rule\<close>

definition arctan_diff :: "nat \<Rightarrow> real \<Rightarrow> real" where
  "arctan_diff m x =
     (if m = 0 then 4 * arctan x
      else if m = 1 then 4 / (1 + x\<^sup>2)
      else if m = 2 then - (8 * x) / (1 + x\<^sup>2)\<^sup>2
      else (24 * x\<^sup>2 - 8) / (1 + x\<^sup>2) ^ 3)"

lemma arctan_diff_deriv:
  assumes "m < 3"
  shows "DERIV (arctan_diff m) x :> arctan_diff (Suc m) x"
proof -
  have pos: "1 + x\<^sup>2 \<noteq> 0" using sum_power2_eq_zero_iff [of 1 x] by simp
  from assms consider "m = 0" | "m = 1" | "m = 2" by linarith
  then show ?thesis
  proof cases
    case 1
    then have "arctan_diff m = (\<lambda>x. 4 * arctan x)" by (simp add: arctan_diff_def fun_eq_iff)
    then show ?thesis using 1 pos
      by (auto simp: arctan_diff_def field_simps intro!: derivative_eq_intros)
  next
    case 2
    then have "arctan_diff m = (\<lambda>x. 4 / (1 + x\<^sup>2))" by (simp add: arctan_diff_def fun_eq_iff)
    then show ?thesis using 2 pos
      by (auto simp: arctan_diff_def power2_eq_square intro!: derivative_eq_intros)
  next
    case 3
    then have "arctan_diff m = (\<lambda>x. - (8 * x) / (1 + x\<^sup>2)\<^sup>2)" by (simp add: arctan_diff_def fun_eq_iff)
    moreover have "DERIV (\<lambda>x. - (8 * x) / (1 + x\<^sup>2)\<^sup>2) x :> (24 * x\<^sup>2 - 8) / (1 + x\<^sup>2) ^ 3"
      using pos by (auto intro!: derivative_eq_intros simp: divide_simps) algebra
    ultimately show ?thesis using 3 by (simp add: arctan_diff_def)
  qed
qed

lemma arctan_diff3_bound: "\<bar>arctan_diff 3 x\<bar> \<le> 8"
proof -
  have p: "0 < (1 + x\<^sup>2) ^ 3" by (simp add: add_pos_nonneg)
  have nn: "0 \<le> x\<^sup>2 * x\<^sup>2" "0 \<le> x\<^sup>2 * x\<^sup>2 * x\<^sup>2" "0 \<le> x\<^sup>2" by simp_all
  have e: "(1 + x\<^sup>2) ^ 3 = 1 + 3 * x\<^sup>2 + 3 * (x\<^sup>2 * x\<^sup>2) + x\<^sup>2 * x\<^sup>2 * x\<^sup>2"
    by (simp add: power3_eq_cube algebra_simps)
  have "24 * x\<^sup>2 - 8 \<le> 8 * (1 + x\<^sup>2) ^ 3" "- (8 * (1 + x\<^sup>2) ^ 3) \<le> 24 * x\<^sup>2 - 8"
    using nn e by (linarith, linarith)
  with p show ?thesis by (simp add: arctan_diff_def abs_le_iff field_simps)
qed

text \<open>The error of the midpoint rule on one interval.\<close>

lemma midpoint_cell:
  assumes "0 < h"
  shows "\<bar>4 * arctan (c + h) - 4 * arctan (c - h) - 2 * h * (4 / (1 + c\<^sup>2))\<bar> \<le> 8 / 3 * h ^ 3"
proof -
  have taylor: "\<exists>t. 4 * arctan x = (\<Sum>m<3. (arctan_diff m c / fact m) * (x - c) ^ m) + (arctan_diff 3 t / fact 3) * (x - c) ^ 3"
    if "x \<noteq> c" "c - h \<le> x" "x \<le> c + h" for x
    using Taylor [of 3 arctan_diff "\<lambda>x. 4 * arctan x" "c - h" "c + h" c x] assms that arctan_diff_deriv
    by (auto simp: arctan_diff_def [of 0, abs_def])
  obtain t1 where t1: "4 * arctan (c + h) = (\<Sum>m<3. (arctan_diff m c / fact m) * h ^ m) + (arctan_diff 3 t1 / fact 3) * h ^ 3"
    using taylor [of "c + h"] assms by auto
  obtain t2 where t2: "4 * arctan (c - h) = (\<Sum>m<3. (arctan_diff m c / fact m) * (- h) ^ m) + (arctan_diff 3 t2 / fact 3) * (- h) ^ 3"
    using taylor [of "c - h"] assms by auto
  have "4 * arctan (c + h) - 4 * arctan (c - h) - 2 * h * arctan_diff 1 c = (arctan_diff 3 t1 + arctan_diff 3 t2) * h ^ 3 / 6"
    unfolding t1 t2 by (simp add: eval_nat_numeral field_simps)
  moreover have "\<bar>(arctan_diff 3 t1 + arctan_diff 3 t2) * h ^ 3 / 6\<bar> \<le> 16 * h ^ 3 / 6"
  proof -
    have "\<bar>arctan_diff 3 t1 + arctan_diff 3 t2\<bar> \<le> 16"
      using arctan_diff3_bound [of t1] arctan_diff3_bound [of t2] by linarith
    then have "\<bar>arctan_diff 3 t1 + arctan_diff 3 t2\<bar> * h ^ 3 \<le> 16 * h ^ 3"
      using assms by (intro mult_right_mono) auto
    with assms show ?thesis by (simp add: abs_mult)
  qed
  moreover have "16 * h ^ 3 / 6 = 8 / 3 * h ^ 3" by simp
  ultimately have "\<bar>4 * arctan (c + h) - 4 * arctan (c - h) - 2 * h * arctan_diff 1 c\<bar> \<le> 8 / 3 * h ^ 3" by (simp only:)
  moreover have "arctan_diff 1 c = 4 / (1 + c\<^sup>2)" by (simp add: arctan_diff_def)
  ultimately show ?thesis by simp
qed

text \<open>All the intervals: the sum telescopes to four times the arcus tangens of one.\<close>

lemma midpoint_rule:
  assumes "0 < n"
  shows "\<bar>(\<Sum>i<n. pi_term (1 / real n) i) * (1 / real n) - pi\<bar> \<le> 1 / (3 * (real n)\<^sup>2)"
proof -
  let ?s = "1 / real n"
  have pos: "0 < real n" using assms by simp
  have cell: "\<bar>4 * arctan (real (Suc i) * ?s) - 4 * arctan (real i * ?s) - pi_term ?s i * ?s\<bar> \<le> 1 / (3 * real n ^ 3)" for i
  proof -
    let ?c = "(real i + 1/2) * ?s" and ?h = "?s / 2"
    have "?c + ?h = real (Suc i) * ?s" "?c - ?h = real i * ?s" using pos by (simp_all add: field_simps)
    moreover have "2 * ?h * (4 / (1 + ?c\<^sup>2)) = pi_term ?s i * ?s" by (simp add: pi_term_def Let_def power2_eq_square)
    moreover have "8 / 3 * ?h ^ 3 = 1 / (3 * real n ^ 3)" by (simp add: power_divide)
    ultimately show ?thesis using midpoint_cell [of ?h ?c] pos by simp
  qed
  have "(\<Sum>i<n. 4 * arctan (real (Suc i) * ?s) - 4 * arctan (real i * ?s)) = 4 * arctan (real n * ?s) - 4 * arctan (real 0 * ?s)"
    by (rule sum_lessThan_telescope)
  then have tele: "(\<Sum>i<n. 4 * arctan (real (Suc i) * ?s) - 4 * arctan (real i * ?s)) = pi"
    using pos by (simp add: arctan_one)
  have "\<bar>\<Sum>i<n. (4 * arctan (real (Suc i) * ?s) - 4 * arctan (real i * ?s)) - pi_term ?s i * ?s\<bar> \<le> (\<Sum>i<n. 1 / (3 * real n ^ 3))"
    by (rule order_trans [OF sum_abs sum_mono]) (rule cell)
  also have "\<dots> = 1 / (3 * (real n)\<^sup>2)" using pos by (simp add: power2_eq_square power3_eq_cube)
  finally have "\<bar>pi - (\<Sum>i<n. pi_term ?s i * ?s)\<bar> \<le> 1 / (3 * (real n)\<^sup>2)"
    using tele by (simp only: sum_subtractf)
  then show ?thesis by (simp add: sum_divide_distrib abs_minus_commute)
qed

lemma foldl_pi_sum: "foldl (\<lambda>acc i. acc + f i) a [0..<n] = a + (\<Sum>i<n. f i :: 'a::comm_monoid_add)"
  by (induction n) (simp_all add: add.assoc)

lemma pi_check_Ok:
  assumes "183 \<le> n"
  shows "pi_check pi n (\<Sum>i<n. pi_term (1 / real n) i) = Ok ()"
proof -
  have "(183::real)\<^sup>2 \<le> (real n)\<^sup>2" using assms by (intro power_mono) auto
  then have "1 / (3 * (real n)\<^sup>2) < 1 / 100000" by (simp add: divide_simps)
  moreover have "\<bar>(\<Sum>i<n. pi_term (1 / real n) i) * (1 / real n) - pi\<bar> \<le> 1 / (3 * (real n)\<^sup>2)"
    using assms by (intro midpoint_rule) simp
  ultimately show ?thesis unfolding pi_check_def Let_def by (simp only: if_True order_le_less_trans)
qed

section \<open>The other numerical tests\<close>

text \<open>The test of the matrix multiplication passes over a ring.\<close>

lemma test_matmul_strassen_passes: "test_matmul_strassen (junk :: nat \<Rightarrow> 'a::ring_1) two = Ok (Ok ())"
proof -
  have n: "ROW_SIZE * ROW_SIZE = 4 ^ 9" by (simp add: ROW_SIZE_def)
  obtain r where "matmul_strassen junk (replicate (4 ^ 9) 1) (replicate (4 ^ 9) two) (replicate (4 ^ 9) 0) = Ok r"
    using strassen.mul_entries [where junk = junk and m = 9, OF TrueI length_replicate length_replicate length_replicate] by blast
  then show ?thesis unfolding test_matmul_strassen_def Let_def n by (simp only: rbind.simps)
qed

lemma power_of_two_from_power: "\<exists>m. power_of_two_from k (2 ^ p) n = 2 ^ m"
  by (induction k arbitrary: p) (auto simp flip: power_Suc)

text \<open>Whatever size is asked for, \<open>timed_matmul\<close> hands the multiplications matrices of a size they accept.\<close>

lemma timed_matmul_returns: "\<exists>r. timed_matmul (matmul_strassen junk) as_float siz = Ok (r :: 'a::ring_1 list)"
proof -
  obtain m where "next_power_of_two siz = 2 ^ m"
    using power_of_two_from_power [of 64 0 siz] by (auto simp: next_power_of_two_def)
  then have n: "next_power_of_two siz * next_power_of_two siz = 4 ^ m" by (simp flip: power_mult_distrib)
  show ?thesis
    unfolding timed_matmul_def Let_def n
    using strassen.mul_entries [where junk = junk and m = m and a = "map as_float [0..<4 ^ m]"
      and b = "map (\<lambda>i. as_float (i + 7)) [0..<4 ^ m]" and dest = "replicate (4 ^ m) 0"] by auto
qed

text \<open>The test \<open>laplace\<close> on a square does not panic: it ends with a verdict.\<close>

lemma laplace_returns:
  assumes "0 < n"
  shows "\<exists>r. laplace (1/4 :: 'a::linordered_field) n n = Ok r"
proof -
  obtain m :: "'a list" where m: "matrix_setup n n = Ok [m, m]" and range: "in_range n m"
    by (rule matrix_setup_square [OF assms])
  have len: "length m = n * n" using range by (simp add: in_range_def)
  have loop: "compute_loop (1/4) n n 1000 [m, m] = Ok [(jacobi (1/4) n ^^ 1000) m, (jacobi (1/4) n ^^ (1000 - 1)) m]"
    using compute_loop_jacobi [OF assms len len, of "1/4" 1000] by (simp add: same_border_def)
  have "length ((jacobi (1/4) n ^^ 1000) m) = n * n"
    using in_range_jacobi_power [OF range, of 1000] unfolding in_range_def by blast
  then obtain r where "get_residual (1/4) ((jacobi (1/4) n ^^ 1000) m) n n = Ok r"
    using get_residual_square [OF assms] by blast
  with m loop show ?thesis
    by (simp add: laplace_def compute_def index_get_def del: compute_loop.simps)
qed

section \<open>Properties\<close>

text \<open>
  C16: the numerical tests of the demo, over the reals. With 183 or more steps the midpoint rule of
  \<open>pi_sequential\<close> is within its tolerance of pi (the error is at most one third of the inverse square of the
  number of steps; the demo uses five million), and so is \<open>pi_parallel\<close> in whatever order the parallel sum
  adds; the test of the matrix multiplication passes, whatever the uninitialised buffers hold; and
  \<open>laplace(128, 128)\<close> ends with a verdict.
\<close>

theorem demo_numeric_tests:
  assumes "183 \<le> num_steps" and "\<forall>xs. par_sum xs = sum_list xs"
  shows "pi_sequential pi num_steps = Ok () \<and> pi_parallel par_sum pi num_steps = Ok () \<and>
    test_matmul_strassen (junk :: nat \<Rightarrow> real) 2 = Ok (Ok ()) \<and> (\<exists>verdict. laplace (1/4 :: real) 128 128 = Ok verdict)"
proof -
  have "par_sum (map (pi_term (1 / real num_steps)) [0..<num_steps]) = (\<Sum>i<num_steps. pi_term (1 / real num_steps) i)"
    unfolding assms(2) [rule_format] by (simp add: sum_list_sum_nth atLeast0LessThan)
  with pi_check_Ok [OF assms(1)] have "pi_sequential pi num_steps = Ok () \<and> pi_parallel par_sum pi num_steps = Ok ()"
    by (simp add: pi_sequential_def pi_parallel_def foldl_pi_sum)
  moreover have "\<exists>verdict. laplace (1/4 :: real) 128 128 = Ok verdict" by (rule laplace_returns) simp
  ultimately show ?thesis using test_matmul_strassen_passes [of junk 2] by blast
qed

theorem demo_numeric_tests_witness:
  "pi_sequential pi 5000000 = Ok () \<and> pi_parallel (\<lambda>xs. foldr (+) xs 0) pi 5000000 = Ok () \<and>
   test_matmul_strassen (\<lambda>_. 0 :: real) 2 = Ok (Ok ())"
proof -
  have "\<forall>xs :: real list. foldr (+) xs 0 = sum_list xs" by (simp add: sum_list.eq_foldr)
  with demo_numeric_tests [of 5000000 "\<lambda>xs. foldr (+) xs 0" "\<lambda>_. 0"] show ?thesis by simp
qed

lemma run_tests_lines:
  assumes "\<And>n w. \<exists>r w'. test n w = Some (Return r, w') \<and> lines w' = lines w \<and> (is_ok r \<longleftrightarrow> verdict n)"
    and "\<And>l w. lines (println l w) = lines w @ [l]"
  shows "\<exists>w'. run_tests println test ns w = Some (Return (), w') \<and> lines w' = lines w @
    map (\<lambda>n. ''Test '' @ n @ '' ... '' @ (if verdict n then ''ok'' else ''failed!'')) ns"
proof (induction ns arbitrary: w)
  case (Cons n ns)
  obtain r w1 where t: "test n w = Some (Return r, w1)" "lines w1 = lines w" "is_ok r \<longleftrightarrow> verdict n"
    using assms(1) by blast
  have v: "test_result r = (if verdict n then ''ok'' else ''failed!'')" using t(3) by (cases r) auto
  from Cons.IH [of "println (''Test '' @ n @ '' ... '' @ test_result r) w1"] t assms(2) v show ?case
    by (auto simp: report_def)
qed simp

text \<open>
  the main program reports: if every test returns, the demo prints one line for each of its twelve
  tests, in order, with the verdict of that test, whatever the tests do in between.
\<close>

theorem demo_main_reports:
  assumes "\<And>n w. \<exists>r w'. test n w = Some (Return r, w') \<and> lines w' = lines w \<and> (is_ok r \<longleftrightarrow> verdict n)"
    and "\<And>l w. lines (println l w) = lines w @ [l]"
  shows "\<exists>w'. demo_main println test w = Some (Return (), w') \<and> lines w' = lines w @
    map (\<lambda>n. ''Test '' @ n @ '' ... '' @ (if verdict n then ''ok'' else ''failed!''))
      [''hello'', ''arithmetic'', ''print_argv'', ''print_env'', ''read_file'', ''create_file'', ''threading'',
       ''pi_sequential'', ''pi_parallel'', ''laplace'', ''test_matmul_strassen'', ''thread_creation'']"
  unfolding demo_main_def demo_tests_def by (rule run_tests_lines [where test = test and verdict = verdict, OF assms])

theorem demo_main_reports_witness:
  "\<exists>w'. demo_main (\<lambda>l w. w @ [l]) (\<lambda>n. pret (if n = ''pi_sequential'' then pi_sequential pi 5000000 else Err ())) [] = Some (Return (), w') \<and>
     w' ! 0 = ''Test hello ... failed!''"
proof -
  let ?test = "\<lambda>n. pret (if n = ''pi_sequential'' then pi_sequential pi 5000000 else Err ()) :: (string list, (unit, unit) result) prog"
  let ?v = "\<lambda>n. n = ''pi_sequential'' \<and> is_ok (pi_sequential pi 5000000)"
  have "\<exists>r w'. ?test n w = Some (Return r, w') \<and> w' = w \<and> (is_ok r \<longleftrightarrow> ?v n)" for n w by simp
  from demo_main_reports [of ?test "\<lambda>w. w" ?v "\<lambda>l w. w @ [l]" "[]", OF this] show ?thesis by auto
qed

end
