(* ===== verification/Demo_System.thy ===== *)
theory Demo_System
  imports Demo_Tests
begin

text \<open>
  The tests of the demo application that use the operating system (\<open>tests/mod.rs\<close>): files, threads,
  arguments, environment and output. The standard library is the record \<open>std_os\<close>: a world \<open>'w\<close>, files
  \<open>'f\<close>, threads \<open>'t\<close> and errors \<open>'e\<close>; its documented behaviour is stated as \<open>fs_laws\<close> and \<open>thread_laws\<close>. A
  value that goes out of scope is dropped where the source drops it. Times are only printed: their text
  is an argument.
\<close>

record ('w, 'f, 't, 'e) std_os =
  println :: "string \<Rightarrow> 'w \<Rightarrow> 'w"
  env_args :: "'w \<Rightarrow> string list"
  env_vars :: "'w \<Rightarrow> (string \<times> string) list"
  File_open :: "string \<Rightarrow> 'w \<Rightarrow> ('f, 'e) result \<times> 'w"
  File_create :: "string \<Rightarrow> 'w \<Rightarrow> ('f, 'e) result \<times> 'w"
  File_read_to_string :: "'f \<Rightarrow> 'w \<Rightarrow> (string, 'e) result \<times> 'w"
  File_write_all :: "'f \<Rightarrow> string \<Rightarrow> 'w \<Rightarrow> (unit, 'e) result \<times> 'w"
  File_drop :: "'f \<Rightarrow> 'w \<Rightarrow> 'w"
  fs_remove_file :: "string \<Rightarrow> 'w \<Rightarrow> (unit, 'e) result \<times> 'w"
  ErrorKind_Other :: 'e
  thread_spawn :: "('w, unit) prog \<Rightarrow> 'w \<Rightarrow> ('t, 'e) result \<times> 'w"
  thread_join :: "'t \<Rightarrow> ('w, (unit, unit) result) prog"
  thread_id :: "'w \<Rightarrow> u64"
  clock_now :: "'w \<Rightarrow> nat \<times> 'w"

section \<open>Output\<close>

text \<open>\<open>for (i, x) in xs.enumerate() { println!(..) }\<close>\<close>

definition println_each :: "('w, 'f, 't, 'e) std_os \<Rightarrow> ('a \<Rightarrow> string) \<Rightarrow> 'a list \<Rightarrow> ('w, unit) prog" where
  "println_each os line xs = pfor xs (\<lambda>x _. pmodify (println os (line x))) ()"

definition print_argv :: "('w, 'f, 't, 'e) std_os \<Rightarrow> ('w, (unit, unit) result) prog" where
  "print_argv os = (\<lambda>w.
     pbind (println_each os (\<lambda>(i, argument). ''argument['' @ show_nat i @ ''] = '' @ argument)
       (List.enumerate 0 (env_args os w))) (\<lambda>_. pret (Ok ())) w)"

definition print_env :: "('w, 'f, 't, 'e) std_os \<Rightarrow> ('w, (unit, unit) result) prog" where
  "print_env os = (\<lambda>w.
     pbind (println_each os (\<lambda>(key, value). key @ '': '' @ value) (env_vars os w)) (\<lambda>_. pret (Ok ())) w)"

text \<open>A text by its UTF-8 bytes.\<close>

definition utf8 :: "nat list \<Rightarrow> string" where
  "utf8 bs = map char_of bs"

definition bytes_str :: "u8 list \<Rightarrow> string" where
  "bytes_str bs = map (\<lambda>b. char_of (unat b)) bs"

definition hello_lines :: "string list" where
  "hello_lines = [
     ''Hello, world!'',
     utf8 [208, 159, 209, 128, 208, 184, 208, 178, 208, 181, 209, 130, 32, 208, 188, 208, 184, 209, 128, 33],
     utf8 [227, 129, 147, 227, 130, 147, 227, 129, 171, 227, 129, 161, 227, 129, 175, 228, 184, 150, 231, 149, 140],
     utf8 [228, 189, 160, 229, 165, 189, 239, 188, 140, 228, 184, 150, 231, 149, 140],
     utf8 [224, 184, 170, 224, 184, 167, 224, 184, 177, 224, 184, 170, 224, 184, 148, 224, 184, 181,
       224, 184, 138, 224, 184, 178, 224, 184, 167, 224, 185, 130, 224, 184, 165, 224, 184, 129],
     utf8 [67, 104, 195, 160, 111, 32, 116, 104, 225, 186, 191, 32, 103, 105, 225, 187, 155, 105],
     ''Crab emoji: '' @ bytes_str (unwrap_or (from_utf8 [0xF0, 0x9F, 0xA6, 0x80]) [])]"

definition hello :: "('w, 'f, 't, 'e) std_os \<Rightarrow> ('w, (unit, unit) result) prog" where
  "hello os = pbind (println_each os (\<lambda>l. l) hello_lines) (\<lambda>_. pret (Ok ()))"

text \<open>The product of the thread id wraps in a release build; \<open>fexp\<close> and \<open>flog\<close> are \<open>exp\<close> and \<open>log\<close>.\<close>

definition arithmetic :: "('w, 'f, 't, 'e) std_os \<Rightarrow> ('a::linordered_field \<Rightarrow> 'a) \<Rightarrow> ('a \<Rightarrow> 'a \<Rightarrow> 'a) \<Rightarrow> 'a \<Rightarrow>
    ('a \<Rightarrow> string) \<Rightarrow> ('w, (unit, unit) result) prog" where
  "arithmetic os fexp flog E show_f64 = (\<lambda>w.
     let x = of_nat (unat ((thread_id os w * 3) mod 10)) * (341 / 100);
         y = fexp x;
         z = flog y E
     in pbind (pmodify (println os (''x = '' @ show_f64 x @ '', e^x = '' @ show_f64 y @ '', ln(e^x) = '' @ show_f64 z)))
          (\<lambda>_. pret (Ok ())) w)"

section \<open>Files\<close>

text \<open>The operator \<open>?\<close>, and a block at whose end a file is dropped.\<close>

definition ptry :: "('w, ('a, 'e) result) prog \<Rightarrow> ('a \<Rightarrow> ('w, ('b, 'e) result) prog) \<Rightarrow>
    ('w, ('b, 'e) result) prog" where
  "ptry m f = pbind m (\<lambda>r. case r of Ok a \<Rightarrow> f a | Err e \<Rightarrow> pret (Err e))"

definition with_file :: "('w, 'f, 't, 'e) std_os \<Rightarrow> 'f \<Rightarrow> ('w, 'a) prog \<Rightarrow> ('w, 'a) prog" where
  "with_file os file block = pbind block (\<lambda>r. pbind (pmodify (File_drop os file)) (\<lambda>_. pret r))"

definition read_file :: "('w, 'f, 't, 'e) std_os \<Rightarrow> ('w, (unit, 'e) result) prog" where
  "read_file os =
     ptry (pcall (File_open os ''/etc/hostname'')) (\<lambda>file.
       with_file os file (
         ptry (pcall (File_read_to_string os file)) (\<lambda>contents.
           pbind (pmodify (println os (''Hostname: '' @ contents))) (\<lambda>_. pret (Ok ())))))"

definition create_file :: "('w, 'f, 't, 'e) std_os \<Rightarrow> ('w, (unit, 'e) result) prog" where
  "create_file os =
     ptry (ptry (pcall (File_create os ''foo.txt'')) (\<lambda>file.
       with_file os file (pcall (File_write_all os file ''Hello, world!'')))) (\<lambda>_.
     ptry (ptry (pcall (File_open os ''foo.txt'')) (\<lambda>file.
       with_file os file (pcall (File_read_to_string os file)))) (\<lambda>contents.
     ptry (pcall (fs_remove_file os ''foo.txt'')) (\<lambda>_.
       pret (if contents = ''Hello, world!'' then Ok () else Err (ErrorKind_Other os)))))"

section \<open>Threads\<close>

definition spawn_and_join :: "('w, 'f, 't, 'e) std_os \<Rightarrow> ('w, unit) prog" where
  "spawn_and_join os =
     pbind (pcall (thread_spawn os (pret ()))) (\<lambda>r.
     pbind (punwrap ''called `Result::unwrap()` on an `Err` value'' r) (\<lambda>child.
     pbind (thread_join os child) (\<lambda>_. pret ())))"

definition thread_creation :: "('w, 'f, 't, 'e) std_os \<Rightarrow> (nat \<Rightarrow> nat \<Rightarrow> string) \<Rightarrow>
    ('w, (unit, unit) result) prog" where
  "thread_creation os show_ms =
     (let N = 10 in
      pbind (spawn_and_join os) (\<lambda>_.
      pbind (pcall (clock_now os)) (\<lambda>now.
      pbind (pfor [0..<N] (\<lambda>_ _. spawn_and_join os) ()) (\<lambda>_.
      pbind (pcall (clock_now os)) (\<lambda>later.
      pbind (pmodify (println os (''Time to create and to join a thread: '' @ show_ms (later - now) N @ '' ms'')))
        (\<lambda>_. pret (Ok ())))))))"

definition spawn_child :: "('w, 'f, 't, 'e) std_os \<Rightarrow> nat \<Rightarrow> 't list \<Rightarrow> ('w, 't list) prog" where
  "spawn_child os i children =
     pbind (pcall (thread_spawn os (pmodify (println os (''this is thread number '' @ show_nat i))))) (\<lambda>r.
     pbind (punwrap ''failed to spawn thread'' r) (\<lambda>child. pret (children @ [child])))"

definition threading :: "('w, 'f, 't, 'e) std_os \<Rightarrow> ('w, (unit, unit) result) prog" where
  "threading os =
     pbind (pfor [0..<2] (spawn_child os) []) (\<lambda>children.
     pbind (pfor children (\<lambda>child _. pbind (thread_join os child) (\<lambda>_. pret ())) ()) (\<lambda>_. pret (Ok ())))"

section \<open>What the theorems rely on of the standard library\<close>

text \<open>
  A file system: \<open>files\<close> is the content of every path, \<open>pos\<close> the path and the position of an open file. A
  failing call changes nothing, except that a failing write may have written some of its data.
\<close>

definition fs_laws :: "('w, 'f, 't, 'e) std_os \<Rightarrow> ('w \<Rightarrow> string \<rightharpoonup> string) \<Rightarrow>
    ('w \<Rightarrow> 'f \<rightharpoonup> string \<times> nat) \<Rightarrow> bool" where
  "fs_laws os files pos \<longleftrightarrow>
     (\<forall>p w r w'. File_open os p w = (r, w') \<longrightarrow> files w' = files w \<and>
        (case r of Ok f \<Rightarrow> pos w' f = Some (p, 0) | Err _ \<Rightarrow> True)) \<and>
     (\<forall>p w r w'. File_create os p w = (r, w') \<longrightarrow>
        (case r of Ok f \<Rightarrow> files w' = (files w)(p \<mapsto> []) \<and> pos w' f = Some (p, 0) | Err _ \<Rightarrow> files w' = files w)) \<and>
     (\<forall>f bs w r w' p n c. File_write_all os f bs w = (r, w') \<longrightarrow> pos w f = Some (p, n) \<longrightarrow> files w p = Some c \<longrightarrow>
        (\<exists>c'. files w' = (files w)(p \<mapsto> c') \<and> (is_ok r \<longrightarrow> c' = take n c @ bs @ drop (n + length bs) c))) \<and>
     (\<forall>f w r w' p n c. File_read_to_string os f w = (r, w') \<longrightarrow> files w' = files w \<and>
        (pos w f = Some (p, n) \<longrightarrow> files w p = Some c \<longrightarrow> (\<forall>s. r = Ok s \<longrightarrow> s = drop n c))) \<and>
     (\<forall>f w. files (File_drop os f w) = files w) \<and>
     (\<forall>p w r w'. fs_remove_file os p w = (r, w') \<longrightarrow>
        files w' = (if is_ok r then (files w)(p := None) else files w))"

text \<open>\<open>live\<close> are the threads that have been started and not joined.\<close>

definition thread_laws :: "('w, 'f, 't, 'e) std_os \<Rightarrow> ('w \<Rightarrow> 't set) \<Rightarrow> bool" where
  "thread_laws os live \<longleftrightarrow>
     (\<forall>b w r w'. thread_spawn os b w = (r, w') \<longrightarrow>
        (case r of Ok t \<Rightarrow> t \<notin> live w \<and> live w' = insert t (live w) | Err _ \<Rightarrow> live w' = live w)) \<and>
     (\<forall>t w r w'. thread_join os t w = Some (Return r, w') \<longrightarrow> live w' = live w - {t}) \<and>
     (\<forall>l w. live (println os l w) = live w) \<and>
     (\<forall>w. live (snd (clock_now os w)) = live w)"

lemma fs_lawsD:
  assumes "fs_laws os files pos"
  shows "File_open os p w = (r, w') \<Longrightarrow> files w' = files w \<and>
      (case r of Ok f \<Rightarrow> pos w' f = Some (p, 0) | Err _ \<Rightarrow> True)"
    and "File_create os p w = (r, w') \<Longrightarrow>
      case r of Ok f \<Rightarrow> files w' = (files w)(p \<mapsto> []) \<and> pos w' f = Some (p, 0) | Err _ \<Rightarrow> files w' = files w"
    and "File_write_all os f bs w = (q, w') \<Longrightarrow> pos w f = Some (p, n) \<Longrightarrow> files w p = Some c \<Longrightarrow>
      \<exists>c'. files w' = (files w)(p \<mapsto> c') \<and> (is_ok q \<longrightarrow> c' = take n c @ bs @ drop (n + length bs) c)"
    and "File_read_to_string os f w = (x, w') \<Longrightarrow> files w' = files w \<and>
      (pos w f = Some (p, n) \<longrightarrow> files w p = Some c \<longrightarrow> (\<forall>s. x = Ok s \<longrightarrow> s = drop n c))"
    and "files (File_drop os f w) = files w"
    and "fs_remove_file os p w = (q, w') \<Longrightarrow> files w' = (if is_ok q then (files w)(p := None) else files w)"
proof -
  note L = assms [unfolded fs_laws_def]
  note L2 = L [THEN conjunct2] and L3 = L [THEN conjunct2, THEN conjunct2]
    and L4 = L [THEN conjunct2, THEN conjunct2, THEN conjunct2]
  show "File_open os p w = (r, w') \<Longrightarrow> files w' = files w \<and>
      (case r of Ok f \<Rightarrow> pos w' f = Some (p, 0) | Err _ \<Rightarrow> True)"
    by (rule L [THEN conjunct1, rule_format])
  show "File_create os p w = (r, w') \<Longrightarrow>
      case r of Ok f \<Rightarrow> files w' = (files w)(p \<mapsto> []) \<and> pos w' f = Some (p, 0) | Err _ \<Rightarrow> files w' = files w"
    by (rule L2 [THEN conjunct1, rule_format])
  show "File_write_all os f bs w = (q, w') \<Longrightarrow> pos w f = Some (p, n) \<Longrightarrow> files w p = Some c \<Longrightarrow>
      \<exists>c'. files w' = (files w)(p \<mapsto> c') \<and> (is_ok q \<longrightarrow> c' = take n c @ bs @ drop (n + length bs) c)"
    using L3 [THEN conjunct1] by blast
  show "File_read_to_string os f w = (x, w') \<Longrightarrow> files w' = files w \<and>
      (pos w f = Some (p, n) \<longrightarrow> files w p = Some c \<longrightarrow> (\<forall>s. x = Ok s \<longrightarrow> s = drop n c))"
    using L4 [THEN conjunct1] by blast
  show "files (File_drop os f w) = files w"
    using L4 [THEN conjunct2, THEN conjunct1] by blast
  show "fs_remove_file os p w = (q, w') \<Longrightarrow>
      files w' = (if is_ok q then (files w)(p := None) else files w)"
    using L4 [THEN conjunct2, THEN conjunct2] by blast
qed

lemma thread_lawsD:
  assumes "thread_laws os live"
  shows "thread_spawn os b w = (r, w') \<Longrightarrow>
      case r of Ok t \<Rightarrow> t \<notin> live w \<and> live w' = insert t (live w) | Err _ \<Rightarrow> live w' = live w"
    and "thread_join os t w = Some (Return q, w') \<Longrightarrow> live w' = live w - {t}"
    and "live (println os l w) = live w" and "clock_now os w = (n, w') \<Longrightarrow> live w' = live w"
  using assms unfolding thread_laws_def by (blast, blast, blast, metis snd_conv)

section \<open>Files: proofs\<close>

lemma ptry_Return:
  "ptry m f w = Some (Return r, w') \<longleftrightarrow>
     (\<exists>e. m w = Some (Return (Err e), w') \<and> r = Err e) \<or>
     (\<exists>a w1. m w = Some (Return (Ok a), w1) \<and> f a w1 = Some (Return r, w'))"
  by (auto simp: ptry_def pbind_Return_iff split: result.split_asm)

lemma ptry_Ok: "m w = Some (Return (Ok a), w1) \<Longrightarrow> ptry m f w = f a w1"
  by (simp add: ptry_def)

lemma with_file_pcall:
  "with_file os file (pcall g) w = (case g w of (r, w1) \<Rightarrow> Some (Return r, File_drop os file w1))"
  by (simp add: with_file_def pbind_def split: prod.split)

text \<open>The two halves of \<open>create_file\<close>: writing the file and reading it back.\<close>

lemma write_half:
  assumes laws: "fs_laws os files pos"
    and run: "ptry (pcall (File_create os p)) (\<lambda>file. with_file os file (pcall (File_write_all os file bs))) w
      = Some (Return r, w')"
  shows "(\<forall>q. q \<noteq> p \<longrightarrow> files w' q = files w q) \<and> (r = Ok () \<longrightarrow> files w' = (files w)(p \<mapsto> bs)) \<and>
    ((\<forall>p w. is_ok (fst (File_create os p w))) \<and> (\<forall>f bs w. is_ok (fst (File_write_all os f bs w))) \<longrightarrow> is_ok r)"
proof -
  obtain c w1 where c: "File_create os p w = (c, w1)" by fastforce
  note cr = fs_lawsD(2) [OF laws c]
  show ?thesis
  proof (cases c)
    case (Err e)
    with run c cr show ?thesis by (auto simp: ptry_def) (metis fst_conv is_ok.simps(2))
  next
    case (Ok f)
    obtain x w2 where x: "File_write_all os f bs w1 = (x, w2)" by fastforce
    from cr Ok have w1: "files w1 = (files w)(p \<mapsto> [])" and f: "pos w1 f = Some (p, 0)" by simp_all
    have "files w1 p = Some []" by (simp add: w1)
    from fs_lawsD(3) [OF laws x f this] obtain c' where
      "files w2 = (files w1)(p \<mapsto> c')" and "is_ok x \<longrightarrow> c' = bs" by auto
    moreover have "r = x" and "w' = File_drop os f w2"
      using run c Ok x by (simp_all add: ptry_def with_file_pcall)
    moreover have "(\<forall>f bs w. is_ok (fst (File_write_all os f bs w))) \<longrightarrow> is_ok x" using x by (metis fst_conv)
    ultimately show ?thesis using w1 by (auto simp: fs_lawsD(5) [OF laws])
  qed
qed

lemma read_half:
  assumes laws: "fs_laws os files pos" and c: "files w p = Some c"
    and run: "ptry (pcall (File_open os p)) (\<lambda>file. with_file os file (pcall (File_read_to_string os file))) w
      = Some (Return r, w')"
  shows "files w' = files w \<and> (\<forall>s. r = Ok s \<longrightarrow> s = c) \<and>
    (is_ok (fst (File_open os p w)) \<and> (\<forall>f w. is_ok (fst (File_read_to_string os f w))) \<longrightarrow> is_ok r)"
proof -
  obtain x w1 where x: "File_open os p w = (x, w1)" by fastforce
  note op = fs_lawsD(1) [OF laws x]
  show ?thesis
  proof (cases x)
    case (Err e)
    with run x op show ?thesis by (auto simp: ptry_def)
  next
    case (Ok f)
    obtain y w2 where y: "File_read_to_string os f w1 = (y, w2)" by fastforce
    from op Ok have "pos w1 f = Some (p, 0)" and "files w1 = files w" by simp_all
    with fs_lawsD(4) [OF laws y, of p 0 c] c have "files w2 = files w" and "\<forall>s. y = Ok s \<longrightarrow> s = c" by auto
    moreover have "r = y" and "w' = File_drop os f w2"
      using run x Ok y by (simp_all add: ptry_def with_file_pcall)
    moreover have "(\<forall>f w. is_ok (fst (File_read_to_string os f w))) \<longrightarrow> is_ok y" using y by (metis fst_conv)
    ultimately show ?thesis by (auto simp: fs_lawsD(5) [OF laws])
  qed
qed

section \<open>Threads: proofs\<close>

lemma spawn_and_join_live:
  assumes laws: "thread_laws os live" and run: "spawn_and_join os w = Some (Return u, w')"
  shows "live w' = live w"
proof -
  obtain r w1 where s: "thread_spawn os (pret ()) w = (r, w1)" by fastforce
  with run obtain t q where "r = Ok t" and j: "thread_join os t w1 = Some (Return q, w')"
    by (cases r) (auto simp: spawn_and_join_def elim!: pbind_ReturnE)
  with thread_lawsD(1) [OF laws s] thread_lawsD(2) [OF laws j] show ?thesis by auto
qed

lemma pfor_spawn_and_join_live:
  "thread_laws os live \<Longrightarrow> pfor xs (\<lambda>_ _. spawn_and_join os) u w = Some (Return v, w') \<Longrightarrow> live w' = live w"
  by (induction xs arbitrary: u w) (auto elim!: pbind_ReturnE dest: spawn_and_join_live)

lemma spawn_child_live:
  assumes laws: "thread_laws os live" and run: "spawn_child os i cs w = Some (Return cs', w')"
  shows "\<exists>t. cs' = cs @ [t] \<and> t \<notin> live w \<and> live w' = insert t (live w)"
proof -
  obtain r w1 where s: "thread_spawn os (pmodify (println os (''this is thread number '' @ show_nat i))) w = (r, w1)"
    by fastforce
  with run thread_lawsD(1) [OF laws s] show ?thesis
    by (cases r) (auto simp: spawn_child_def elim!: pbind_ReturnE)
qed

lemma spawn_all_live:
  assumes laws: "thread_laws os live" and "pfor xs (spawn_child os) cs w = Some (Return children, w')"
    and "set cs \<inter> live0 = {}" and "live w = live0 \<union> set cs"
  shows "set children \<inter> live0 = {} \<and> live w' = live0 \<union> set children"
  using assms(2-4)
proof (induction xs arbitrary: cs w)
  case (Cons i xs)
  then obtain cs1 w1 where s: "spawn_child os i cs w = Some (Return cs1, w1)"
    and rest: "pfor xs (spawn_child os) cs1 w1 = Some (Return children, w')"
    by (auto elim!: pbind_ReturnE)
  from spawn_child_live [OF laws s] Cons.prems(2,3) show ?case by (intro Cons.IH [OF rest]) auto
qed auto

lemma join_all_live:
  "thread_laws os live \<Longrightarrow>
     pfor children (\<lambda>child _. pbind (thread_join os child) (\<lambda>_. pret ())) u w = Some (Return v, w') \<Longrightarrow>
     live w' = live w - set children"
  by (induction children arbitrary: u w) (auto elim!: pbind_ReturnE dest!: thread_lawsD(2))

section \<open>A file system in memory\<close>

text \<open>A file by its path; the world is the content of every path.\<close>

definition mem_os :: "(string \<rightharpoonup> string, string, nat, string) std_os" where
  "mem_os = \<lparr>println = (\<lambda>_ w. w), env_args = (\<lambda>_. []), env_vars = (\<lambda>_. []),
     File_open = (\<lambda>p w. (if w p = None then Err ''not found'' else Ok p, w)),
     File_create = (\<lambda>p w. (Ok p, w(p \<mapsto> []))),
     File_read_to_string = (\<lambda>f w. (Ok (case w f of Some c \<Rightarrow> c | None \<Rightarrow> []), w)),
     File_write_all = (\<lambda>f bs w. (Ok (), case w f of Some c \<Rightarrow> w(f \<mapsto> bs @ drop (length bs) c) | None \<Rightarrow> w)),
     File_drop = (\<lambda>_ w. w),
     fs_remove_file = (\<lambda>p w. if w p = None then (Err ''not found'', w) else (Ok (), w(p := None))),
     ErrorKind_Other = ''other'', thread_spawn = (\<lambda>_ w. (Err ''unsupported'', w)),
     thread_join = (\<lambda>_. pret (Ok ())), thread_id = (\<lambda>_. 1), clock_now = (\<lambda>w. (0, w))\<rparr>"

lemma mem_os_laws: "fs_laws mem_os (\<lambda>w. w) (\<lambda>_ f. Some (f, 0))"
  unfolding fs_laws_def mem_os_def by (auto split: if_splits)

section \<open>Properties\<close>

text \<open>
  C38: the file test of the demo. Whatever fails, \<open>create_file\<close> touches no file but \<open>foo.txt\<close>; when it
  succeeds that file is gone; it reads back exactly what it wrote, so that an error always comes from
  an operation on the file and never from the comparison: if no operation on the file fails, the test
  passes.
\<close>

theorem create_file_roundtrip:
  assumes "fs_laws os files pos" and "create_file os w = Some (Return r, w')"
  shows "(\<forall>p. p \<noteq> ''foo.txt'' \<longrightarrow> files w' p = files w p) \<and>
    (r = Ok () \<longrightarrow> files w' ''foo.txt'' = None) \<and>
    ((\<forall>p w. is_ok (fst (File_create os p w))) \<and> (\<forall>f bs w. is_ok (fst (File_write_all os f bs w))) \<and>
     (\<forall>p w. files w p \<noteq> None \<longrightarrow> is_ok (fst (File_open os p w))) \<and>
     (\<forall>f w. is_ok (fst (File_read_to_string os f w))) \<and>
     (\<forall>p w. files w p \<noteq> None \<longrightarrow> is_ok (fst (fs_remove_file os p w))) \<longrightarrow> r = Ok ())"
proof -
  let ?A = "ptry (pcall (File_create os ''foo.txt'')) (\<lambda>file.
    with_file os file (pcall (File_write_all os file ''Hello, world!'')))"
  let ?B = "ptry (pcall (File_open os ''foo.txt'')) (\<lambda>file.
    with_file os file (pcall (File_read_to_string os file)))"
  note A = write_half [OF assms(1), of "''foo.txt''" "''Hello, world!''" w]
  from assms(2) consider (failed) e where "?A w = Some (Return (Err e), w')" "r = Err e"
    | (ok) u w1 where "?A w = Some (Return (Ok u), w1)"
      "ptry ?B (\<lambda>contents. ptry (pcall (fs_remove_file os ''foo.txt'')) (\<lambda>_.
         pret (if contents = ''Hello, world!'' then Ok () else Err (ErrorKind_Other os)))) w1 = Some (Return r, w')"
    unfolding create_file_def ptry_Return [of ?A] by blast
  then show ?thesis
  proof cases
    case failed
    with A [OF failed(1)] failed(2) show ?thesis by auto
  next
    case ok
    from A [OF ok(1)] have w1: "files w1 = (files w)(''foo.txt'' \<mapsto> ''Hello, world!'')" by simp
    then have c: "files w1 ''foo.txt'' = Some ''Hello, world!''" by simp
    note B = read_half [OF assms(1), where p = "''foo.txt''", OF c]
    from ok(2) consider (unread) e where "?B w1 = Some (Return (Err e), w')" "r = Err e"
      | (got) s w2 where "?B w1 = Some (Return (Ok s), w2)"
        "ptry (pcall (fs_remove_file os ''foo.txt'')) (\<lambda>_.
           pret (if s = ''Hello, world!'' then Ok () else Err (ErrorKind_Other os))) w2 = Some (Return r, w')"
      unfolding ptry_Return [of ?B] by blast
    then show ?thesis
    proof cases
      case unread
      have "\<not> ((\<forall>p w. files w p \<noteq> None \<longrightarrow> is_ok (fst (File_open os p w))) \<and>
          (\<forall>f w. is_ok (fst (File_read_to_string os f w))))"
        using B [OF unread(1)] c by (metis is_ok.simps(2) option.distinct(1))
      with B [OF unread(1)] unread(2) w1 show ?thesis by simp blast
    next
      case got
      from B [OF got(1)] have s: "s = ''Hello, world!''" and w2: "files w2 = files w1" by auto
      obtain x w3 where x: "fs_remove_file os ''foo.txt'' w2 = (x, w3)" by fastforce
      with got(2) s have r: "w' = w3" "is_ok r = is_ok x" "r = Ok () \<longleftrightarrow> is_ok x"
        by (cases x; auto simp: ptry_def)+
      have "(\<forall>p w. files w p \<noteq> None \<longrightarrow> is_ok (fst (fs_remove_file os p w))) \<longrightarrow> is_ok x"
        using x c w2 by (metis fst_conv option.distinct(1))
      with fs_lawsD(6) [OF assms(1) x] r w1 w2 show ?thesis by (auto split: if_splits)
    qed
  qed
qed

theorem create_file_roundtrip_witness:
  "\<exists>r w'. create_file mem_os [''a'' \<mapsto> ''x''] = Some (Return r, w') \<and> r = Ok () \<and>
     w' ''foo.txt'' = None \<and> w' ''a'' = Some ''x''"
proof -
  have run: "create_file mem_os [''a'' \<mapsto> ''x''] = Some (Return (Ok ()), [''a'' \<mapsto> ''x''])"
    by (simp add: create_file_def ptry_def with_file_def pbind_def mem_os_def fun_upd_twist)
  from create_file_roundtrip [OF mem_os_laws run] run show ?thesis by auto
qed

text \<open>
  the thread tests leave no thread behind: every thread that \<open>threading\<close> and \<open>thread_creation\<close> start is
  joined, and both pass whenever they return.
\<close>
theorem thread_tests_join_all:
  assumes "thread_laws os live"
  shows "(threading os w = Some (Return r, w') \<longrightarrow> r = Ok () \<and> live w' = live w) \<and>
    (thread_creation os show_ms w = Some (Return r, w') \<longrightarrow> r = Ok () \<and> live w' = live w)"
proof (intro conjI impI)
  assume "threading os w = Some (Return r, w')"
  then obtain children w1 v where
    s: "pfor [0..<2] (spawn_child os) [] w = Some (Return children, w1)"
    and j: "pfor children (\<lambda>child _. pbind (thread_join os child) (\<lambda>_. pret ())) () w1 = Some (Return v, w')"
    and "r = Ok ()" unfolding threading_def by (auto elim!: pbind_ReturnE)
  with spawn_all_live [OF assms s, of "live w"] join_all_live [OF assms j]
  show "r = Ok ()" and "live w' = live w" by auto
next
  assume "thread_creation os show_ms w = Some (Return r, w')"
  then show "r = Ok ()" and "live w' = live w"
    unfolding thread_creation_def Let_def
    by (auto elim!: pbind_ReturnE split: prod.split_asm simp: thread_lawsD(3) [OF assms]
      dest!: pfor_spawn_and_join_live [OF assms] spawn_and_join_live [OF assms]
        thread_lawsD(4) [OF assms])
qed

end
