(* ===== verification/Benchmarks.thy ===== *)
theory Benchmarks
  imports Demo_System "HOL-Library.Multiset"
begin

text \<open>
  The micro benchmarks (\<open>benches/micro\<close>) and the report of the latency benchmark
  (\<open>netbench/src/print_utils.rs\<close>). The record \<open>bench_os\<close> extends the standard library by the cycle counter,
  the system call, the scheduler and the two functions of the C library; rates are printed through
  \<open>show_f64\<close>, and \<open>secs\<close> is the length of a time span in seconds. The product and the difference of
  counters wrap in a release build.
\<close>

record ('w, 'f, 't, 'e) bench_os = "('w, 'f, 't, 'e) std_os" +
  cycle_counter :: "'w \<Rightarrow> u64 \<times> 'w"
  os_getpid :: "'w \<Rightarrow> u32 \<times> 'w"
  yield_now :: "'w \<Rightarrow> 'w"
  c_memcpy :: "u8 list \<Rightarrow> u8 list \<Rightarrow> nat \<Rightarrow> u8 list"
  c_memset :: "u8 list \<Rightarrow> u8 \<Rightarrow> nat \<Rightarrow> u8 list"

definition show_u64 :: "u64 \<Rightarrow> string" where
  "show_u64 x = show_nat (unat x)"

section \<open>System calls and scheduling\<close>

definition get_timestamp :: "('w, 'f, 't, 'e) bench_os \<Rightarrow> ('w, u64) prog" where
  "get_timestamp os = pcall (cycle_counter os)"

definition repeat_n :: "nat \<Rightarrow> ('w, 'a) prog \<Rightarrow> ('w, unit) prog" where
  "repeat_n n m = pfor [0..<n] (\<lambda>_ _. pbind m (\<lambda>_. pret ())) ()"

definition yields_n :: "('w, 'f, 't, 'e) bench_os \<Rightarrow> nat \<Rightarrow> ('w, unit) prog" where
  "yields_n os n = repeat_n n (pmodify (yield_now os))"

definition bench_syscall :: "('w, 'f, 't, 'e) bench_os \<Rightarrow> ('w, (unit, unit) result) prog" where
  "bench_syscall os =
     (let n = 1000000 in
      pbind (pcall (os_getpid os)) (\<lambda>_.
      pbind (get_timestamp os) (\<lambda>_.
      pbind (get_timestamp os) (\<lambda>start.
      pbind (repeat_n n (pcall (os_getpid os))) (\<lambda>_.
      pbind (get_timestamp os) (\<lambda>now.
      let ticks = now - start in
      pbind (pmodify (println os (''Time '' @ show_u64 (ticks div of_nat n) @ '' for a system call (in ticks)'')))
        (\<lambda>_. pret (Ok ()))))))))"

definition bench_sched_one_thread :: "('w, 'f, 't, 'e) bench_os \<Rightarrow> ('w, (unit, unit) result) prog" where
  "bench_sched_one_thread os =
     (let n = 1000000 in
      pbind (yields_n os 2) (\<lambda>_.
      pbind (get_timestamp os) (\<lambda>_.
      pbind (get_timestamp os) (\<lambda>start.
      pbind (yields_n os n) (\<lambda>_.
      pbind (get_timestamp os) (\<lambda>now.
      let ticks = now - start in
      pbind (pmodify (println os (''Scheduling time '' @ show_u64 (ticks div of_nat n) @ '' ticks (1 thread)'')))
        (\<lambda>_. pret (Ok ()))))))))"

definition spawn_yielder :: "('w, 'f, 't, 'e) bench_os \<Rightarrow> nat \<Rightarrow> nat \<Rightarrow> 't list \<Rightarrow> ('w, 't list) prog" where
  "spawn_yielder os n i threads =
     pbind (pcall (thread_spawn os (yields_n os n))) (\<lambda>r.
     pbind (punwrap ''failed to spawn thread'' r) (\<lambda>t. pret (threads @ [t])))"

definition join_unwrap :: "('w, 'f, 't, 'e) bench_os \<Rightarrow> 't \<Rightarrow> unit \<Rightarrow> ('w, unit) prog" where
  "join_unwrap os t u = pbind (thread_join os t) (punwrap ''called `Result::unwrap()` on an `Err` value'')"

definition bench_sched_two_threads :: "('w, 'f, 't, 'e) bench_os \<Rightarrow> ('w, (unit, unit) result) prog" where
  "bench_sched_two_threads os =
     (let n = 1000000; nthreads = 2 in
      pbind (yields_n os 2) (\<lambda>_.
      pbind (get_timestamp os) (\<lambda>_.
      pbind (get_timestamp os) (\<lambda>start.
      pbind (pfor [0..<nthreads - 1] (spawn_yielder os n) []) (\<lambda>threads.
      pbind (yields_n os n) (\<lambda>_.
      pbind (get_timestamp os) (\<lambda>now.
      let ticks = now - start in
      pbind (pfor threads (join_unwrap os) ()) (\<lambda>_.
      pbind (pmodify (println os (''Scheduling time '' @ show_u64 (ticks div (of_nat nthreads * of_nat n)) @
          '' ticks (2 threads)'')))
        (\<lambda>_. pret (Ok ()))))))))))"

section \<open>Memory\<close>

definition NR_RUNS :: nat where
  "NR_RUNS = 1000"

text \<open>
  \<open>copy_from_slice\<close> panics on slices of different lengths; \<open>black_box\<close> returns its argument. The result of
  the four functions below is the buffer that they drop at their end.
\<close>

definition copy_from_slice :: "u8 list \<Rightarrow> u8 list \<Rightarrow> ('w, u8 list) prog" where
  "copy_from_slice dst src =
     (if length dst = length src then pret src
      else ppanic ''source slice length does not match destination slice length'')"

definition report_rate :: "('w, 'f, 't, 'e) bench_os \<Rightarrow> ('a \<Rightarrow> string) \<Rightarrow> string \<Rightarrow> nat \<Rightarrow> string \<Rightarrow> 'a \<Rightarrow> ('w, unit) prog" where
  "report_rate os show_f64 name n block rate =
     pmodify (println os (name @ '':  '' @ show_nat n @ block @ show_f64 rate @ '' MByte/s''))"

definition memcpy_builtin :: "('w, 'f, 't, 'e) bench_os \<Rightarrow> ('a::linordered_field \<Rightarrow> string) \<Rightarrow> (nat \<Rightarrow> 'a) \<Rightarrow> nat \<Rightarrow>
    ('w, u8 list) prog" where
  "memcpy_builtin os show_f64 secs n =
     (let v1 = replicate n 1; v2 = replicate n 0 in
      pbind (pcall (clock_now os)) (\<lambda>now.
      pbind (pfor [0..<NR_RUNS] (\<lambda>_ dst. copy_from_slice dst v1) v2) (\<lambda>v2.
      pbind (pcall (clock_now os)) (\<lambda>later.
      pbind (report_rate os show_f64 ''memcpy_builtin'' n '' block size, ''
          (of_nat (NR_RUNS * n) / (1024 * 1024 * secs (later - now)))) (\<lambda>_. pret v2)))))"

definition memset_builtin :: "('w, 'f, 't, 'e) bench_os \<Rightarrow> ('a::linordered_field \<Rightarrow> string) \<Rightarrow> (nat \<Rightarrow> 'a) \<Rightarrow> nat \<Rightarrow>
    ('w, u8 list) prog" where
  "memset_builtin os show_f64 secs n =
     (let v1 = replicate n 0 in
      pbind (pcall (clock_now os)) (\<lambda>now.
      pbind (pfor [0..<NR_RUNS] (\<lambda>_ dst. pret (map (\<lambda>b. 27) dst)) v1) (\<lambda>v1.
      pbind (pcall (clock_now os)) (\<lambda>later.
      pbind (report_rate os show_f64 ''memset_builtin'' n '' block, ''
          (of_nat ((NR_RUNS * n) div 2 ^ 20) / secs (later - now))) (\<lambda>_. pret v1)))))"

definition memcpy_rust :: "('w, 'f, 't, 'e) bench_os \<Rightarrow> ('a::linordered_field \<Rightarrow> string) \<Rightarrow> (nat \<Rightarrow> 'a) \<Rightarrow> nat \<Rightarrow>
    ('w, u8 list) prog" where
  "memcpy_rust os show_f64 secs n =
     (let v1 = replicate n 1; v2 = replicate n 0 in
      pbind (pcall (clock_now os)) (\<lambda>now.
      pbind (pfor [0..<NR_RUNS] (\<lambda>_ dst. pret (c_memcpy os dst v1 n)) v2) (\<lambda>v2.
      pbind (pcall (clock_now os)) (\<lambda>later.
      pbind (report_rate os show_f64 ''memcpy_rust'' n '' block, ''
          (of_nat ((NR_RUNS * n) div 2 ^ 20) / secs (later - now))) (\<lambda>_. pret v2)))))"

definition memset_rust :: "('w, 'f, 't, 'e) bench_os \<Rightarrow> ('a::linordered_field \<Rightarrow> string) \<Rightarrow> (nat \<Rightarrow> 'a) \<Rightarrow> nat \<Rightarrow>
    ('w, u8 list) prog" where
  "memset_rust os show_f64 secs n =
     (let v1 = replicate n 0 in
      pbind (pcall (clock_now os)) (\<lambda>now.
      pbind (pfor [0..<NR_RUNS] (\<lambda>_ dst. pret (c_memset os dst 27 n)) v1) (\<lambda>v1.
      pbind (pcall (clock_now os)) (\<lambda>later.
      pbind (report_rate os show_f64 ''memset_rust'' n '' block, ''
          (of_nat ((NR_RUNS * n) div 2 ^ 20) / secs (later - now))) (\<lambda>_. pret v1)))))"

definition mem_sizes :: "nat list" where
  "mem_sizes = [4096, 1048576, 16 * 1048576]"

definition bench_mem :: "('w, 'f, 't, 'e) bench_os \<Rightarrow> ('a::linordered_field \<Rightarrow> string) \<Rightarrow> (nat \<Rightarrow> 'a) \<Rightarrow>
    ('w, (unit, unit) result) prog" where
  "bench_mem os show_f64 secs =
     pbind (pfor mem_sizes (\<lambda>n _. pbind (memcpy_builtin os show_f64 secs n) (\<lambda>_. pret ())) ()) (\<lambda>_.
     pbind (pfor mem_sizes (\<lambda>n _. pbind (memset_builtin os show_f64 secs n) (\<lambda>_. pret ())) ()) (\<lambda>_.
     pbind (pfor mem_sizes (\<lambda>n _. pbind (memcpy_rust os show_f64 secs n) (\<lambda>_. pret ())) ()) (\<lambda>_.
     pbind (pfor mem_sizes (\<lambda>n _. pbind (memset_rust os show_f64 secs n) (\<lambda>_. pret ())) ()) (\<lambda>_.
     pret (Ok ())))))"

definition micro_main :: "('w, 'f, 't, 'e) bench_os \<Rightarrow> ('a::linordered_field \<Rightarrow> string) \<Rightarrow> (nat \<Rightarrow> 'a) \<Rightarrow> ('w, unit) prog" where
  "micro_main os show_f64 secs = pfor
     [bench_sched_one_thread os, bench_sched_two_threads os, bench_syscall os, bench_mem os show_f64 secs]
     (\<lambda>bench _. pbind bench (punwrap ''called `Result::unwrap()` on an `Err` value'')) ()"

section \<open>The report of the latency benchmark\<close>

text \<open>The histogram is of the crate \<open>hdrhist\<close>; \<open>print_summary\<close> only prints its views.\<close>

record 'h hdrhist =
  summary_debug :: "'h \<Rightarrow> string"
  summary_string :: "'h \<Rightarrow> string"
  ccdf_debug :: "'h \<Rightarrow> string list"

definition print_line :: "(string \<Rightarrow> 'w \<Rightarrow> 'w) \<Rightarrow> ('w, unit) prog" where
  "print_line out = pmodify (out ([char_of (10 :: nat)] @ replicate 61 (CHR ''-'') @ [char_of (10 :: nat)]))"

definition print_summary :: "(string \<Rightarrow> 'w \<Rightarrow> 'w) \<Rightarrow> 'h hdrhist \<Rightarrow> 'h \<Rightarrow> ('w, unit) prog" where
  "print_summary out lib hist =
     pbind (pmodify (out ''Sent/received everything!'')) (\<lambda>_.
     pbind (print_line out) (\<lambda>_.
     pbind (pmodify (out ''HDRHIST summary, measure in ns'')) (\<lambda>_.
     pbind (print_line out) (\<lambda>_.
     pbind (pmodify (out (''summary:'' @ [char_of (10 :: nat)] @ summary_debug lib hist))) (\<lambda>_.
     pbind (print_line out) (\<lambda>_.
     pbind (pmodify (out (''Summary_string:'' @ [char_of (10 :: nat)] @ summary_string lib hist))) (\<lambda>_.
     pbind (print_line out) (\<lambda>_.
     pbind (pmodify (out (''CDF summary:'' @ [char_of (10 :: nat)]))) (\<lambda>_.
     pfor (ccdf_debug lib hist) (\<lambda>entry _. pmodify (out entry)) ())))))))))"

section \<open>What the theorems rely on\<close>

text \<open>
  \<open>evs w\<close> are the system calls, the yields and the lines of output of the main thread so far. Every call
  returns; threads can be started and end without a panic; \<open>memcpy\<close> and \<open>memset\<close> do what C promises.
\<close>

datatype event = GetPid | Yield | Print

definition does :: "('w \<Rightarrow> event multiset) \<Rightarrow> ('a \<Rightarrow> bool) \<Rightarrow> ('w, 'a) prog \<Rightarrow> event multiset \<Rightarrow> bool" where
  "does evs Q m M \<longleftrightarrow> (\<forall>w. \<exists>a w'. m w = Some (Return a, w') \<and> Q a \<and> evs w' = evs w + M)"

definition bench_laws :: "('w, 'f, 't, 'e) bench_os \<Rightarrow> ('w \<Rightarrow> event multiset) \<Rightarrow> bool" where
  "bench_laws os evs \<longleftrightarrow>
     does evs (\<lambda>_. True) (pcall (os_getpid os)) {#GetPid#} \<and>
     does evs (\<lambda>_. True) (pmodify (yield_now os)) {#Yield#} \<and>
     (\<forall>l. does evs (\<lambda>_. True) (pmodify (println os l)) {#Print#}) \<and>
     does evs (\<lambda>_. True) (pcall (cycle_counter os)) {#} \<and>
     does evs (\<lambda>_. True) (pcall (clock_now os)) {#} \<and>
     (\<forall>b. does evs is_ok (pcall (thread_spawn os b)) {#}) \<and>
     (\<forall>t. does evs is_ok (thread_join os t) {#})"

definition mem_laws :: "('w, 'f, 't, 'e) bench_os \<Rightarrow> bool" where
  "mem_laws os \<longleftrightarrow>
     (\<forall>dst src n. n \<le> length dst \<longrightarrow> n \<le> length src \<longrightarrow> c_memcpy os dst src n = take n src @ drop n dst) \<and>
     (\<forall>dst c n. n \<le> length dst \<longrightarrow> c_memset os dst c n = replicate n c @ drop n dst)"

lemma bench_lawsD:
  assumes "bench_laws os evs"
  shows "does evs (\<lambda>_. True) (pcall (os_getpid os)) {#GetPid#}"
    and "does evs (\<lambda>_. True) (pmodify (yield_now os)) {#Yield#}"
    and "does evs (\<lambda>_. True) (pmodify (println os l)) {#Print#}"
    and "does evs (\<lambda>_. True) (get_timestamp os) {#}"
    and "does evs (\<lambda>_. True) (pcall (clock_now os)) {#}"
    and "does evs is_ok (pcall (thread_spawn os b)) {#}"
    and "does evs is_ok (thread_join os t) {#}"
  using assms by (simp_all add: bench_laws_def get_timestamp_def)

section \<open>Proofs\<close>

lemma doesD: "does evs Q m M \<Longrightarrow> \<exists>a w'. m w = Some (Return a, w') \<and> Q a \<and> evs w' = evs w + M"
  unfolding does_def by blast

lemma does_pret: "Q a \<Longrightarrow> does evs Q (pret a) {#}"
  by (simp add: does_def)

lemma does_pbind:
  assumes m: "does evs P m M" and f: "\<And>a. P a \<Longrightarrow> does evs Q (f a) N"
  shows "does evs Q (pbind m f) (M + N)"
  unfolding does_def
proof (intro allI)
  fix w
  from doesD [OF m] obtain a w1 where a: "m w = Some (Return a, w1)" "P a" "evs w1 = evs w + M" by blast
  from doesD [OF f [OF a(2)]] obtain b w2 where "f a w1 = Some (Return b, w2)" "Q b" "evs w2 = evs w1 + N" by blast
  with a show "\<exists>b w'. pbind m f w = Some (Return b, w') \<and> Q b \<and> evs w' = evs w + (M + N)" by simp
qed

lemma does_unit: "does evs (\<lambda>_. True) m M \<Longrightarrow> Q () \<Longrightarrow> does evs Q m M"
  by (simp add: does_def)

lemma does_punwrap: "is_ok r \<Longrightarrow> does evs (\<lambda>_. True) (punwrap e r) {#}"
  by (cases r) (auto intro: does_pret)

lemma does_pfor:
  assumes "P s" and step: "\<And>i s. P s \<Longrightarrow> does evs P (body i s) M"
  shows "does evs P (pfor xs body s) (repeat_mset (length xs) M)"
  using assms(1)
proof (induction xs arbitrary: s)
  case (Cons i xs)
  from does_pbind [OF step [OF Cons.prems] Cons.IH] show ?case by simp
qed (simp add: does_pret)

text \<open>The rules for sequences whose effect is written as one multiset after another.\<close>

lemma does_skip: "does evs P m {#} \<Longrightarrow> (\<And>a. P a \<Longrightarrow> does evs Q (f a) N) \<Longrightarrow> does evs Q (pbind m f) N"
  using does_pbind [of evs P m "{#}" Q f N] by simp

lemma does_last: "does evs P m M \<Longrightarrow> (\<And>a. P a \<Longrightarrow> does evs Q (f a) {#}) \<Longrightarrow> does evs Q (pbind m f) M"
  using does_pbind [of evs P m M Q f "{#}"] by simp

lemma does_repeat_n:
  assumes "does evs (\<lambda>_. True) m M"
  shows "does evs (\<lambda>_. True) (repeat_n n m) (repeat_mset n M)"
proof -
  have "does evs (\<lambda>_. True) (pbind m (\<lambda>_. pret ())) M"
    by (rule does_last [OF assms]) (simp add: does_pret)
  from does_pfor [where P = "\<lambda>_. True" and xs = "[0..<n]", OF _ this] show ?thesis by (simp add: repeat_n_def)
qed

lemma does_yields_n: "bench_laws os evs \<Longrightarrow> does evs (\<lambda>_. True) (yields_n os n) (replicate_mset n Yield)"
  using does_repeat_n [OF bench_lawsD(2), of os evs n] by (simp add: yields_n_def)

lemma does_bench_syscall:
  assumes "bench_laws os evs"
  shows "does evs is_ok (bench_syscall os) ({#GetPid#} + (replicate_mset 1000000 GetPid + {#Print#}))"
  unfolding bench_syscall_def Let_def
  by (rule does_pbind [OF bench_lawsD(1) [OF assms]], rule does_skip [OF bench_lawsD(4) [OF assms]],
      rule does_skip [OF bench_lawsD(4) [OF assms]],
      rule does_pbind [OF does_repeat_n [OF bench_lawsD(1) [OF assms], of 1000000, simplified]],
      rule does_skip [OF bench_lawsD(4) [OF assms]], rule does_last [OF bench_lawsD(3) [OF assms]],
      rule does_pret) simp

lemma does_bench_sched_one_thread:
  assumes "bench_laws os evs"
  shows "does evs is_ok (bench_sched_one_thread os)
    (replicate_mset 2 Yield + (replicate_mset 1000000 Yield + {#Print#}))"
  unfolding bench_sched_one_thread_def Let_def
  by (rule does_pbind [OF does_yields_n [OF assms]], rule does_skip [OF bench_lawsD(4) [OF assms]],
      rule does_skip [OF bench_lawsD(4) [OF assms]], rule does_pbind [OF does_yields_n [OF assms]],
      rule does_skip [OF bench_lawsD(4) [OF assms]], rule does_last [OF bench_lawsD(3) [OF assms]],
      rule does_pret) simp

lemma does_spawn_yielder:
  assumes "bench_laws os evs"
  shows "does evs (\<lambda>_. True) (spawn_yielder os n i threads) {#}"
  unfolding spawn_yielder_def
  by (rule does_skip [OF bench_lawsD(6) [OF assms]], rule does_skip [OF does_punwrap], assumption)
    (simp add: does_pret)

lemma does_join_unwrap: "bench_laws os evs \<Longrightarrow> does evs (\<lambda>_. True) (join_unwrap os t u) {#}"
  unfolding join_unwrap_def by (rule does_skip [OF bench_lawsD(7) does_punwrap])

lemma does_pfor_skip:
  assumes "\<And>i s. does evs (\<lambda>_. True) (body i s) {#}"
  shows "does evs (\<lambda>_. True) (pfor xs body s) {#}"
  using does_pfor [where P = "\<lambda>_. True" and M = "{#}" and xs = xs, OF TrueI assms] by simp

lemma does_bench_sched_two_threads:
  assumes "bench_laws os evs"
  shows "does evs is_ok (bench_sched_two_threads os)
    (replicate_mset 2 Yield + (replicate_mset 1000000 Yield + {#Print#}))"
  unfolding bench_sched_two_threads_def Let_def
  by (rule does_pbind [OF does_yields_n [OF assms]], rule does_skip [OF bench_lawsD(4) [OF assms]],
      rule does_skip [OF bench_lawsD(4) [OF assms]],
      rule does_skip [OF does_pfor_skip [OF does_spawn_yielder [OF assms]]],
      rule does_pbind [OF does_yields_n [OF assms]], rule does_skip [OF bench_lawsD(4) [OF assms]],
      rule does_skip [OF does_pfor_skip [OF does_join_unwrap [OF assms]]],
      rule does_last [OF bench_lawsD(3) [OF assms]], rule does_pret) simp

lemma does_pfor_settles:
  assumes "\<And>i s. P s \<Longrightarrow> does evs (\<lambda>s. s = c) (body i s) {#}" and "P s0" and "P c" and "xs \<noteq> []"
  shows "does evs (\<lambda>s. s = c) (pfor xs body s0) {#}"
proof (cases xs)
  case (Cons i js)
  have rest: "does evs (\<lambda>s. s = c) (pfor js body c) {#}"
    using does_pfor [where P = "\<lambda>s. s = c" and xs = js and M = "{#}" and body = body] assms(1,3) by simp
  show ?thesis unfolding Cons pfor.simps by (rule does_skip [OF assms(1) [OF assms(2)]]) (simp add: rest)
qed (use assms(4) in simp)

lemma NR_RUNS_runs: "[0..<NR_RUNS] \<noteq> []"
  by (simp add: NR_RUNS_def)

lemma does_report_rate: "bench_laws os evs \<Longrightarrow> does evs (\<lambda>_. True) (report_rate os sh name n block r) {#Print#}"
  by (simp add: report_rate_def bench_lawsD(3))

text \<open>A memory benchmark: the runs between two readings of the clock, and the report.\<close>

lemma does_timed_runs:
  assumes laws: "bench_laws os evs"
    and "\<And>i d. length d = n \<Longrightarrow> does evs (\<lambda>d. d = c) (body i d) {#}" and "length d0 = n" and "length c = n"
  shows "does evs (\<lambda>d. d = c) (pbind (pcall (clock_now os)) (\<lambda>now.
      pbind (pfor [0..<NR_RUNS] body d0) (\<lambda>d.
      pbind (pcall (clock_now os)) (\<lambda>later.
      pbind (report_rate os sh name m block (r now later)) (\<lambda>_. pret d))))) {#Print#}"
  by (rule does_skip [OF bench_lawsD(5) [OF laws]],
      rule does_skip [OF does_pfor_settles [where P = "\<lambda>d. length d = n", OF assms(2-4) NR_RUNS_runs]],
      assumption, rule does_skip [OF bench_lawsD(5) [OF laws]],
      rule does_last [OF does_report_rate [OF laws]], rule does_pret)

text \<open>The library loops and the C functions leave the same buffers.\<close>

lemma does_mem_benches:
  assumes laws: "bench_laws os evs" "mem_laws os"
  shows "does evs (\<lambda>d. d = replicate n 1) (memcpy_builtin os sh secs n) {#Print#}"
    and "does evs (\<lambda>d. d = replicate n 27) (memset_builtin os sh secs n) {#Print#}"
    and "does evs (\<lambda>d. d = replicate n 1) (memcpy_rust os sh secs n) {#Print#}"
    and "does evs (\<lambda>d. d = replicate n 27) (memset_rust os sh secs n) {#Print#}"
  unfolding memcpy_builtin_def memset_builtin_def memcpy_rust_def memset_rust_def Let_def
  using laws(2) by (rule_tac does_timed_runs [OF laws(1)];
    auto simp: copy_from_slice_def mem_laws_def map_replicate_const intro!: does_pret)+

lemma does_bench_mem:
  assumes "bench_laws os evs" and "mem_laws os"
  shows "does evs is_ok (bench_mem os sh secs) (replicate_mset 12 Print)"
proof -
  have M: "does evs (\<lambda>_. True) (pfor mem_sizes (\<lambda>n _. pbind (b n) (\<lambda>_. pret ())) ()) (replicate_mset 3 Print)"
    if "\<And>n. does evs (\<lambda>d. d = c n) (b n) {#Print#}" for b and c :: "nat \<Rightarrow> u8 list"
  proof -
    have "does evs (\<lambda>_. True) (pbind (b n) (\<lambda>_. pret ())) {#Print#}" for n
      by (rule does_last [OF that]) (simp add: does_pret)
    then have "does evs (\<lambda>_. True) (pfor mem_sizes (\<lambda>n _. pbind (b n) (\<lambda>_. pret ())) ())
      (repeat_mset (length mem_sizes) {#Print#})" by (intro does_pfor TrueI)
    moreover have "repeat_mset (length mem_sizes) {#Print#} = replicate_mset 3 Print"
      by (simp add: mem_sizes_def numeral_3_eq_3)
    ultimately show ?thesis by simp
  qed
  have "does evs is_ok (bench_mem os sh secs)
    (replicate_mset 3 Print + (replicate_mset 3 Print + (replicate_mset 3 Print + replicate_mset 3 Print)))"
    unfolding bench_mem_def
    by (rule does_pbind [OF M], rule does_mem_benches [OF assms], rule does_pbind [OF M],
        rule does_mem_benches [OF assms], rule does_pbind [OF M], rule does_mem_benches [OF assms],
        rule does_last [OF M], rule does_mem_benches [OF assms], rule does_pret) simp
  then show ?thesis by (simp add: numeral_eq_Suc add_mset_commute)
qed

section \<open>Properties\<close>

text \<open>
  the micro benchmarks return and perform exactly the operations whose time they divide by: a million
  system calls, two million yields of the main thread, a few more to warm up, and fifteen lines of output.
\<close>

theorem micro_main_performs:
  assumes "bench_laws os evs" and "mem_laws os"
  shows "\<exists>w'. micro_main os sh secs w = Some (Return (), w') \<and> evs w' = evs w +
    (replicate_mset 2000004 Yield + replicate_mset 1000001 GetPid + replicate_mset 15 Print)"
proof -
  let ?u = "\<lambda>m. pbind m (punwrap ''called `Result::unwrap()` on an `Err` value'') :: (_, unit) prog"
  have u: "does evs (\<lambda>_. True) (?u m) M" if "does evs is_ok m M" for m :: "(_, (unit, unit) result) prog" and M
    by (rule does_last [OF that does_punwrap])
  let ?Y = "replicate_mset 2 Yield + (replicate_mset 1000000 Yield + {#Print#})"
  have D: "does evs (\<lambda>_. True) (micro_main os sh secs)
    (?Y + (?Y + (({#GetPid#} + (replicate_mset 1000000 GetPid + {#Print#})) + replicate_mset 12 Print)))"
    unfolding micro_main_def pfor.simps
    by (rule does_pbind [OF u [OF does_bench_sched_one_thread [OF assms(1)]]],
        rule does_pbind [OF u [OF does_bench_sched_two_threads [OF assms(1)]]],
        rule does_pbind [OF u [OF does_bench_syscall [OF assms(1)]]],
        rule does_last [OF u [OF does_bench_mem [OF assms]]], simp add: does_pret)
  have "?Y + (?Y + (({#GetPid#} + (replicate_mset 1000000 GetPid + {#Print#})) + replicate_mset 12 Print)) =
    replicate_mset 2000004 Yield + replicate_mset 1000001 GetPid + replicate_mset 15 Print"
    by (rule multiset_eqI) simp
  from doesD [OF D [unfolded this]] show ?thesis by simp
qed

text \<open>A system that counts.\<close>

definition counting_os :: "(event multiset, unit, unit, unit) bench_os" where
  "counting_os = \<lparr>println = (\<lambda>_ w. w + {#Print#}), env_args = (\<lambda>_. []), env_vars = (\<lambda>_. []),
     File_open = (\<lambda>_ w. (Err (), w)), File_create = (\<lambda>_ w. (Err (), w)),
     File_read_to_string = (\<lambda>_ w. (Err (), w)), File_write_all = (\<lambda>_ _ w. (Err (), w)), File_drop = (\<lambda>_ w. w),
     fs_remove_file = (\<lambda>_ w. (Err (), w)), ErrorKind_Other = (), thread_spawn = (\<lambda>_ w. (Ok (), w)),
     thread_join = (\<lambda>_. pret (Ok ())), thread_id = (\<lambda>_. 1), clock_now = (\<lambda>w. (0, w)),
     cycle_counter = (\<lambda>w. (0, w)), os_getpid = (\<lambda>w. (1, w + {#GetPid#})), yield_now = (\<lambda>w. w + {#Yield#}),
     c_memcpy = (\<lambda>dst src n. take n src @ drop n dst), c_memset = (\<lambda>dst c n. replicate n c @ drop n dst)\<rparr>"

lemma counting_os_laws: "bench_laws counting_os (\<lambda>w. w)" and counting_os_mem: "mem_laws counting_os"
  by (simp_all add: bench_laws_def mem_laws_def does_def counting_os_def)

theorem micro_main_performs_witness:
  "\<exists>w'. micro_main counting_os (\<lambda>_ :: rat. []) of_nat {#} = Some (Return (), w') \<and> count w' Print = 15"
proof -
  from micro_main_performs [OF counting_os_laws counting_os_mem, of "\<lambda>_ :: rat. []" of_nat "{#}"]
  show ?thesis by auto
qed

end
