(* ===== verification/Example_Programs.thy ===== *)
theory Example_Programs
  imports Demo_System
begin

text \<open>
  The hello-world example and the HTTP server (\<open>hello_world/src/main.rs\<close>, \<open>httpd/src/main.rs\<close>). The crates
  \<open>tiny_http\<close> and \<open>ascii\<close> are the record \<open>http_api\<close> over a world \<open>'w\<close>, servers \<open>'s\<close>, requests \<open>'q\<close> and
  responses \<open>'p\<close>; header names \<open>'n\<close> and values \<open>'v\<close> are theirs too. \<open>http_laws\<close> states what the theorem
  relies on of them.
\<close>

section \<open>Hello world\<close>

definition hello_world_main :: "(string \<Rightarrow> 'w \<Rightarrow> 'w) \<Rightarrow> ('w, unit) prog" where
  "hello_world_main out = pmodify (out ''Hello World!'')"

section \<open>The HTTP server\<close>

record ('w, 's, 'q, 'p, 'n, 'v) http_api =
  Server_http :: "string \<Rightarrow> 'w \<Rightarrow> ('s, unit) result \<times> 'w"
  Server_drop :: "'s \<Rightarrow> 'w \<Rightarrow> 'w"
  next_request :: "'s \<Rightarrow> ('w, 'q option) prog"
  respond :: "'q \<Rightarrow> 'p \<Rightarrow> 'w \<Rightarrow> (unit, unit) result \<times> 'w"
  Response_from_string :: "string \<Rightarrow> 'p"
  with_status_code :: "nat \<Rightarrow> 'p \<Rightarrow> 'p"
  with_header :: "'n \<times> 'v \<Rightarrow> 'p \<Rightarrow> 'p"
  HeaderField_parse :: "string \<Rightarrow> ('n, unit) result"
  AsciiString_from_ascii :: "string \<Rightarrow> ('v, unit) result"

definition httpd_text :: string where
  "httpd_text = ''Hello from RustyHermit '' @ bytes_str (unwrap_or (from_utf8 [0xF0, 0x9F, 0xA6, 0x80]) [])"

text \<open>The body of the loop over the requests: the answer to one of them. The result of \<open>respond\<close> is ignored.\<close>

definition answer_request :: "('w, 's, 'q, 'p, 'n, 'v) http_api \<Rightarrow> 'q \<Rightarrow> ('w, unit) prog" where
  "answer_request h rq =
     pbind (punwrap ''called `Result::unwrap()` on an `Err` value'' (HeaderField_parse h ''Content-Type'')) (\<lambda>field.
     pbind (punwrap ''called `Result::unwrap()` on an `Err` value''
         (AsciiString_from_ascii h ''text/plain; charset=utf8'')) (\<lambda>value.
     let response = with_header h (field, value) (with_status_code h 200 (Response_from_string h httpd_text))
     in pbind (pcall (respond h rq response)) (\<lambda>_. pret ())))"

definition serve :: "('w, 's, 'q, 'p, 'n, 'v) http_api \<Rightarrow> 's \<Rightarrow> ('w, unit) prog" where
  "serve h server = rust_loop (\<lambda>_. pbind (next_request h server) (\<lambda>r.
     case r of
       Some rq \<Rightarrow> pbind (answer_request h rq) (\<lambda>_. pret (Continue ()))
     | None \<Rightarrow> pret (Break ()))) ()"

definition httpd_main :: "('w, 's, 'q, 'p, 'n, 'v) http_api \<Rightarrow> (string \<Rightarrow> 'w \<Rightarrow> 'w) \<Rightarrow> ('w, unit) prog" where
  "httpd_main h out =
     pbind (pcall (Server_http h ''0.0.0.0:9975'')) (\<lambda>r.
     pbind (punwrap ''called `Result::unwrap()` on an `Err` value'' r) (\<lambda>server.
     pbind (pmodify (out ''Now listening on port 9975'')) (\<lambda>_.
     pbind (serve h server) (\<lambda>_.
     pmodify (Server_drop h server)))))"

section \<open>What the theorem relies on\<close>

text \<open>
  \<open>incoming\<close> are the requests that a server has still to hand out, in the order of their arrival, and
  \<open>answers\<close> the answers handed to \<open>respond\<close> so far, sent or not. The iterator ends when the server stops listening.
\<close>

definition http_laws :: "('w, 's, 'q, 'p, 'n, 'v) http_api \<Rightarrow> (string \<Rightarrow> 'w \<Rightarrow> 'w) \<Rightarrow>
    ('w \<Rightarrow> 's \<Rightarrow> 'q list) \<Rightarrow> ('w \<Rightarrow> ('q \<times> 'p) list) \<Rightarrow> bool" where
  "http_laws h out incoming answers \<longleftrightarrow>
     (\<forall>s w. incoming w s = [] \<longrightarrow> (\<exists>w'. next_request h s w = Some (Return None, w') \<and> answers w' = answers w)) \<and>
     (\<forall>s w q qs. incoming w s = q # qs \<longrightarrow>
        (\<exists>w'. next_request h s w = Some (Return (Some q), w') \<and> incoming w' s = qs \<and> answers w' = answers w)) \<and>
     (\<forall>s q p w. incoming (snd (respond h q p w)) s = incoming w s \<and>
        answers (snd (respond h q p w)) = answers w @ [(q, p)]) \<and>
     (\<forall>s l w. incoming (out l w) s = incoming w s \<and> answers (out l w) = answers w) \<and>
     (\<forall>s w. answers (Server_drop h s w) = answers w)"

lemma http_lawsD:
  assumes "http_laws h out incoming answers"
  shows "incoming w s = [] \<Longrightarrow> \<exists>w'. next_request h s w = Some (Return None, w') \<and> answers w' = answers w"
    and "incoming w s = q # qs \<Longrightarrow>
      \<exists>w'. next_request h s w = Some (Return (Some q), w') \<and> incoming w' s = qs \<and> answers w' = answers w"
    and "respond h q p w = (r, w') \<Longrightarrow> incoming w' s = incoming w s \<and> answers w' = answers w @ [(q, p)]"
    and "incoming (out l w) s = incoming w s" and "answers (out l w) = answers w"
    and "answers (Server_drop h s w) = answers w"
  using assms unfolding http_laws_def by (blast, blast, metis snd_conv, blast, blast, blast)

section \<open>Proofs\<close>

lemma answer_request_answers:
  assumes laws: "http_laws h out incoming answers"
    and "HeaderField_parse h ''Content-Type'' = Ok n" and "AsciiString_from_ascii h ''text/plain; charset=utf8'' = Ok v"
  shows "\<exists>w'. answer_request h q w = Some (Return (), w') \<and> incoming w' s = incoming w s \<and>
    answers w' = answers w @ [(q, with_header h (n, v) (with_status_code h 200 (Response_from_string h httpd_text)))]"
proof -
  let ?p = "with_header h (n, v) (with_status_code h 200 (Response_from_string h httpd_text))"
  obtain r w' where "respond h q ?p w = (r, w')" by fastforce
  with http_lawsD(3) [OF laws this, of s] show ?thesis
    using assms(2,3) by (simp add: answer_request_def)
qed

lemma serve_answers:
  assumes laws: "http_laws h out incoming answers"
    and ok: "HeaderField_parse h ''Content-Type'' = Ok n" "AsciiString_from_ascii h ''text/plain; charset=utf8'' = Ok v"
    and p: "p = with_header h (n, v) (with_status_code h 200 (Response_from_string h httpd_text))"
  shows "\<exists>w'. serve h s w = Some (Return (), w') \<and> answers w' = answers w @ map (\<lambda>q. (q, p)) (incoming w s)"
proof (induction "incoming w s" arbitrary: w)
  case Nil
  then obtain w' where "next_request h s w = Some (Return None, w')" "answers w' = answers w"
    using http_lawsD(1) [OF laws, of w s] by auto
  with Nil show ?case by (simp add: serve_def rust_loop_Break)
next
  case (Cons q qs)
  with http_lawsD(2) [OF laws, of w s q qs] obtain w1 where
    n: "next_request h s w = Some (Return (Some q), w1)" "incoming w1 s = qs" "answers w1 = answers w" by auto
  from answer_request_answers [OF laws ok, of q w1 s] obtain w2 where
    a: "answer_request h q w1 = Some (Return (), w2)" "incoming w2 s = qs" "answers w2 = answers w @ [(q, p)]"
    using n p by auto
  have "serve h s w = serve h s w2"
    using n a unfolding serve_def by (intro rust_loop_Continue) simp
  with Cons(1) [of w2] Cons(2) a show ?case by (auto simp: Cons(2) [symmetric])
qed

text \<open>
  C37: the HTTP server answers every request exactly once, in the order of their arrival, with status 200,
  a \<open>Content-Type\<close> header and the greeting, whether or not earlier answers could be sent; it returns only
  when the server stops listening, and it panics without a word when the port cannot be bound.
\<close>

theorem httpd_answers_requests:
  assumes laws: "http_laws h out incoming answers"
    and ok: "HeaderField_parse h ''Content-Type'' = Ok n" "AsciiString_from_ascii h ''text/plain; charset=utf8'' = Ok v"
    and bind: "Server_http h ''0.0.0.0:9975'' w = (r, w1)"
  shows "case r of
     Ok s \<Rightarrow> \<exists>w'. httpd_main h out w = Some (Return (), w') \<and> answers w' = answers w1 @
       map (\<lambda>q. (q, with_header h (n, v) (with_status_code h 200 (Response_from_string h
         (''Hello from RustyHermit '' @ map char_of [240, 159, 166, 128 :: nat]))))) (incoming w1 s)
   | Err _ \<Rightarrow> httpd_main h out w = Some (Panic ''called `Result::unwrap()` on an `Err` value'', w1)"
proof (cases r)
  case (Ok s)
  have t: "httpd_text = ''Hello from RustyHermit '' @ map char_of [240, 159, 166, 128 :: nat]" by code_simp
  let ?w = "out ''Now listening on port 9975'' w1"
  from serve_answers [OF laws ok refl, of s ?w] obtain w2 where
    "serve h s ?w = Some (Return (), w2)" "answers w2 = answers w1 @ map (\<lambda>q. (q, with_header h (n, v)
       (with_status_code h 200 (Response_from_string h httpd_text)))) (incoming w1 s)"
    by (auto simp: http_lawsD(4,5) [OF laws])
  with Ok bind t show ?thesis by (simp add: httpd_main_def http_lawsD(6) [OF laws])
next
  case (Err e)
  with bind show ?thesis by (simp add: httpd_main_def)
qed

text \<open>A server with a queue of requests in memory; every second answer cannot be sent.\<close>

definition queue_api :: "(nat list \<times> (nat \<times> string list) list, unit, nat, string list, string, string) http_api" where
  "queue_api = \<lparr>Server_http = (\<lambda>a w. (if a = ''0.0.0.0:9975'' then Ok () else Err (), w)),
     Server_drop = (\<lambda>_ w. w),
     next_request = (\<lambda>_ (qs, as). Some (case qs of [] \<Rightarrow> (Return None, [], as) | q # qs \<Rightarrow> (Return (Some q), qs, as))),
     respond = (\<lambda>q p (qs, as). (if even q then Ok () else Err (), qs, as @ [(q, p)])),
     Response_from_string = (\<lambda>t. [t]), with_status_code = (\<lambda>c p. p @ [show_nat c]),
     with_header = (\<lambda>(n, v) p. p @ [n @ '': '' @ v]),
     HeaderField_parse = Ok, AsciiString_from_ascii = Ok\<rparr>"

lemma queue_api_laws: "http_laws queue_api (\<lambda>_ w. w) (\<lambda>w _. fst w) snd"
  unfolding http_laws_def queue_api_def by auto

theorem httpd_answers_requests_witness:
  "\<exists>w'. httpd_main queue_api (\<lambda>_ w. w) ([7, 8], []) = Some (Return (), w') \<and> map fst (snd w') = [7, 8]"
proof -
  have "Server_http queue_api ''0.0.0.0:9975'' ([7, 8], []) = (Ok (), [7, 8], [])"
    and "HeaderField_parse queue_api ''Content-Type'' = Ok ''Content-Type''"
    and "AsciiString_from_ascii queue_api ''text/plain; charset=utf8'' = Ok ''text/plain; charset=utf8''"
    by (simp_all add: queue_api_def)
  from httpd_answers_requests [OF queue_api_laws this(2,3,1)] show ?thesis by auto
qed

end
