(* ===== verification/Build_Script.thy ===== *)
theory Build_Script
  imports Prelude
begin

text \<open>
  The build script \<open>hermit-sys/build.rs\<close>, which builds the kernel library and generates \<open>constants.rs\<close>.

  A step of the script returns a value or stops (a panic or \<open>process::exit\<close>), and leaves a
  \<open>build_state\<close>: the lines printed, the commands started, the lines written to files, and the disk. The
  host is a parameter: the environment, the Cargo features, the target, the tools, the file system and
  what a command does to the disk. Paths are Unix paths, as strings.
\<close>

section \<open>Steps of the script\<close>

type_synonym path = string

record Command =
  cmd_program :: string
  cmd_dir :: "path option"
  cmd_args :: "string list"
  cmd_envs :: "(string \<times> string) list"

record DirEntry =
  de_depth :: nat
  de_path :: path
  de_is_dir :: bool

datatype stop = Panicked string | Exited int

datatype tools_error = NotFound | OtherToolsError string

record 'd build_state =
  printed :: "string list"
  complaints :: "string list"
  commands :: "Command list"
  written :: "(path \<times> string) list"
  disk :: 'd

record 'd build_host =
  env_var :: "string \<Rightarrow> string option"
  option_env :: "string \<Rightarrow> string option"
  feature :: "string \<Rightarrow> bool"
  CARGO :: string
  target_arch :: "string option"
  llvm_objcopy :: "(path option, tools_error) result"
  current_dir :: "path option"
  path_exists :: "path \<Rightarrow> 'd \<Rightarrow> bool"
  canonicalize :: "path \<Rightarrow> 'd \<Rightarrow> path option"
  run_command :: "Command \<Rightarrow> 'd \<Rightarrow> (bool, unit) result \<times> 'd"
  file_create :: "path \<Rightarrow> 'd \<Rightarrow> bool \<times> 'd"
  file_write :: "path \<Rightarrow> string \<Rightarrow> 'd \<Rightarrow> bool \<times> 'd"
  walk_dir :: "(DirEntry \<Rightarrow> bool) \<Rightarrow> path \<Rightarrow> 'd \<Rightarrow> (DirEntry, unit) result list"

type_synonym ('d, 'a) script = "'d build_state \<Rightarrow> ('a, stop) result \<times> 'd build_state"

definition sret :: "'a \<Rightarrow> ('d, 'a) script" where
  "sret a = (\<lambda>s. (Ok a, s))"

definition sstop :: "stop \<Rightarrow> ('d, 'a) script" where
  "sstop e = (\<lambda>s. (Err e, s))"

definition sbind :: "('d, 'a) script \<Rightarrow> ('a \<Rightarrow> ('d, 'b) script) \<Rightarrow> ('d, 'b) script" where
  "sbind m f = (\<lambda>s. case m s of (Ok a, s') \<Rightarrow> f a s' | (Err e, s') \<Rightarrow> (Err e, s'))"

definition expect :: "string \<Rightarrow> 'a option \<Rightarrow> ('d, 'a) script" where
  "expect msg x = (case x of None \<Rightarrow> sstop (Panicked msg) | Some a \<Rightarrow> sret a)"

definition assert_that :: "bool \<Rightarrow> string \<Rightarrow> ('d, unit) script" where
  "assert_that b msg = (if b then sret () else sstop (Panicked msg))"

definition println :: "string \<Rightarrow> ('d, unit) script" where
  "println l = (\<lambda>s. (Ok (), s\<lparr>printed := printed s @ [l]\<rparr>))"

definition eprintln :: "string \<Rightarrow> ('d, unit) script" where
  "eprintln l = (\<lambda>s. (Ok (), s\<lparr>complaints := complaints s @ [l]\<rparr>))"

definition on_disk :: "('d \<Rightarrow> 'a) \<Rightarrow> ('d, 'a) script" where
  "on_disk f = (\<lambda>s. (Ok (f (disk s)), s))"

text \<open>\<open>Command::status\<close>: the command is started and waited for; the result is whether it succeeded.\<close>

definition status :: "'d build_host \<Rightarrow> Command \<Rightarrow> ('d, (bool, unit) result) script" where
  "status h cmd = (\<lambda>s. case run_command h cmd (disk s) of
     (r, d) \<Rightarrow> (Ok r, s\<lparr>commands := commands s @ [cmd], disk := d\<rparr>))"

fun sfor :: "'i list \<Rightarrow> ('i \<Rightarrow> ('d, unit) script) \<Rightarrow> ('d, unit) script" where
  "sfor [] body = sret ()"
| "sfor (i # is) body = sbind (body i) (\<lambda>_. sfor is body)"

text \<open>Running a command that must start and succeed, the way the script runs all of them.\<close>

definition must_run :: "'d build_host \<Rightarrow> Command \<Rightarrow> string \<Rightarrow> string \<Rightarrow> ('d, unit) script" where
  "must_run h cmd start_msg fail_msg =
     sbind (status h cmd) (\<lambda>r. sbind (expect start_msg (result_ok r)) (\<lambda>ok. assert_that ok fail_msg))"

section \<open>Strings and paths\<close>

text \<open>\<open>str::contains\<close>\<close>

fun contains :: "string \<Rightarrow> string \<Rightarrow> bool" where
  "contains pat [] \<longleftrightarrow> pat = []"
| "contains pat (x # xs) \<longleftrightarrow> take (length pat) (x # xs) = pat \<or> contains pat xs"

text \<open>\<open>Path::join\<close> with a relative name, \<open>Path::parent\<close>, and \<open>Path::ends_with\<close> for a single name.\<close>

definition path_join :: "path \<Rightarrow> string \<Rightarrow> path" where
  "path_join p n = (if p = [] \<or> last p = CHR ''/'' then p @ n else p @ CHR ''/'' # n)"

definition path_parent :: "path \<Rightarrow> path option" where
  "path_parent p =
     (let r = dropWhile (\<lambda>c. c = CHR ''/'') (rev p);
          d = dropWhile (\<lambda>c. c \<noteq> CHR ''/'') r;
          q = dropWhile (\<lambda>c. c = CHR ''/'') d
      in if r = [] then None
         else if q = [] \<and> d \<noteq> [] then Some ''/'' else Some (rev q))"

definition path_ends_with :: "path \<Rightarrow> string \<Rightarrow> bool" where
  "path_ends_with p n =
     (let cs = filter (\<lambda>c. c \<noteq> [] \<and> c \<noteq> ''.'') (split_on CHR ''/'' p) in cs \<noteq> [] \<and> last cs = n)"

section \<open>Building the kernel\<close>

definition US :: char where
  "US = CHR 0x1F" \<comment> \<open>the separator of \<open>CARGO_ENCODED_RUSTFLAGS\<close>\<close>

definition kernel_triple :: "string \<Rightarrow> string option" where
  "kernel_triple arch =
     (if arch = ''x86_64'' then Some ''x86_64-unknown-none-hermitkernel''
      else if arch = ''aarch64'' then Some ''aarch64-unknown-hermit''
      else if arch = ''riscv64'' then Some ''riscv64gc-unknown-hermit''
      else None)"

definition feature_args :: "'d build_host \<Rightarrow> string \<Rightarrow> string list" where
  "feature_args h f = (if feature h f then [''--features'', f] else [])"

definition kernel_rustflags :: "'d build_host \<Rightarrow> string \<Rightarrow> string list" where
  "kernel_rustflags h outer =
     ''-Zmutable-noalias=no'' #
     (if feature h ''instrument'' then [''-Zinstrument-mcount'', outer]
      else if outer \<noteq> [] then filter (\<lambda>flag. \<not> contains ''instrument-mcount'' flag) (split_on US outer)
      else [])"

text \<open>The command of the kernel build, as it stands when it is started.\<close>

definition kernel_command :: "'d build_host \<Rightarrow> path \<Rightarrow> path option \<Rightarrow> string \<Rightarrow> string \<Rightarrow> string \<Rightarrow> string \<Rightarrow> Command" where
  "kernel_command h src_dir target_dir arch triple profile outer =
     \<lparr>cmd_program = CARGO h, cmd_dir = Some src_dir,
      cmd_args = [''build'', ''-Z'', ''build-std=core,alloc'', ''--target'', triple]
        @ (case target_dir of Some d \<Rightarrow> [''--target-dir'', d] | None \<Rightarrow> [])
        @ (if profile = ''release'' then [''--release''] else [])
        @ [''--no-default-features'']
        @ (if arch = ''aarch64'' then [''--features'', ''aarch64-qemu-stdout''] else [])
        @ feature_args h ''pci'' @ feature_args h ''acpi'' @ feature_args h ''fsgs_base''
        @ feature_args h ''smp'' @ feature_args h ''vga'',
      cmd_envs = [(''CARGO_TERM_COLOR'', ''always''),
        (''CARGO_ENCODED_RUSTFLAGS'', join_with US (kernel_rustflags h outer))]\<rparr>"

definition rename_command :: "path \<Rightarrow> path \<Rightarrow> string \<Rightarrow> Command" where
  "rename_command objcopy lib symbol =
     \<lparr>cmd_program = objcopy, cmd_dir = None,
      cmd_args = [''--redefine-sym'', symbol @ ''=kernel-'' @ symbol, lib], cmd_envs = []\<rparr>"

definition rename_symbol :: "'d build_host \<Rightarrow> string \<Rightarrow> path \<Rightarrow> ('d, unit) script" where
  "rename_symbol h symbol lib =
     (case llvm_objcopy h of
        Err NotFound \<Rightarrow>
          sbind (eprintln ''Error: llvm-tools not found'') (\<lambda>_.
          sbind (eprintln ''Maybe the rustup component `llvm-tools-preview` is missing?'') (\<lambda>_.
          sbind (eprintln ''  Install it through: `rustup component add llvm-tools-preview`'') (\<lambda>_.
            sstop (Exited 1))))
      | Err (OtherToolsError e) \<Rightarrow>
          sbind (eprintln (''Failed to retrieve llvm-tools component: '' @ e)) (\<lambda>_. sstop (Exited 1))
      | Ok tool \<Rightarrow>
          sbind (expect ''llvm-objcopy not found in llvm-tools'' tool) (\<lambda>objcopy.
            must_run h (rename_command objcopy lib symbol)
              ''failed to execute llvm-objcopy'' ''llvm-objcopy was not successful''))"

definition kernel_symbols :: "'d build_host \<Rightarrow> string list" where
  "kernel_symbols h = [''rust_begin_unwind'', ''rust_oom'']
     @ (if feature h ''mem'' then [''memcpy'', ''memmove'', ''memset'', ''memcmp'', ''bcmp''] else [])"

text \<open>The end of \<open>build_hermit\<close>, once the library is built.\<close>

definition link_kernel :: "'d build_host \<Rightarrow> path \<Rightarrow> ('d, unit) script" where
  "link_kernel h lib_location =
     sbind (println (''Lib location: '' @ lib_location)) (\<lambda>_.
     sbind (sfor (kernel_symbols h) (\<lambda>symbol. rename_symbol h symbol (path_join lib_location ''libhermit.a''))) (\<lambda>_.
     sbind (println (''cargo:rustc-link-search=native='' @ lib_location)) (\<lambda>_.
     sbind (println ''cargo:rustc-link-lib=static=hermit'') (\<lambda>_.
       println ''cargo:rerun-if-env-changed=HERMIT_LOG_LEVEL_FILTER''))))"

definition build_hermit :: "'d build_host \<Rightarrow> path \<Rightarrow> path option \<Rightarrow> ('d, unit) script" where
  "build_hermit h src_dir target_dir_opt =
     sbind (on_disk (path_exists h src_dir)) (\<lambda>ex.
     sbind (assert_that ex ''rusty_hermit source folder does not exist'') (\<lambda>_.
     sbind (expect ''Could not get target info'' (target_arch h)) (\<lambda>arch.
     sbind (expect ''PROFILE was not set'' (env_var h ''PROFILE'')) (\<lambda>profile.
     sbind (expect ''Try to build for an unsupported platform'' (kernel_triple arch)) (\<lambda>triple.
     let target_dir = (case target_dir_opt of Some d \<Rightarrow> d | None \<Rightarrow> path_join src_dir ''target'') in
     sbind (expect ''CARGO_ENCODED_RUSTFLAGS'' (env_var h ''CARGO_ENCODED_RUSTFLAGS'')) (\<lambda>outer.
     sbind (must_run h (kernel_command h src_dir target_dir_opt arch triple profile outer)
       ''failed to start kernel build'' ''assertion failed: status.success()'') (\<lambda>_.
     sbind (on_disk (canonicalize h (path_join (path_join target_dir triple) profile))) (\<lambda>loc.
     sbind (expect ''canonicalize'' loc) (\<lambda>lib_location.
       link_kernel h lib_location)))))))))"

section \<open>The two configurations and the constants\<close>

definition download_command :: "'d build_host \<Rightarrow> path \<Rightarrow> path \<Rightarrow> Command" where
  "download_command h out_dir src_dir =
     \<lparr>cmd_program = CARGO h, cmd_dir = Some out_dir,
      cmd_args = [''download'', ''--output'', src_dir, ''--extract'', ''rusty-hermit''], cmd_envs = []\<rparr>"

definition build_download :: "'d build_host \<Rightarrow> ('d, unit) script" where
  "build_download h =
     sbind (expect ''OUT_DIR'' (env_var h ''OUT_DIR'')) (\<lambda>out_dir.
     let src_dir = path_join out_dir ''rusty-hermit'' in
     sbind (on_disk (path_exists h src_dir)) (\<lambda>ex.
     sbind (if ex then sret ()
       else must_run h (download_command h out_dir src_dir) ''failed to start kernel download''
         ''Unable to download rusty-hermit. Is cargo-download installed?'') (\<lambda>_.
       build_hermit h src_dir None)))"

definition is_not_ignored :: "DirEntry \<Rightarrow> bool" where
  "is_not_ignored e =
     (if de_depth e = 1 \<and> de_is_dir e
         \<and> (path_ends_with (de_path e) ''target'' \<or> path_ends_with (de_path e) ''.git''
           \<or> path_ends_with (de_path e) ''.vscode'')
      then False else True)"

definition rerun_paths :: "'d build_host \<Rightarrow> path \<Rightarrow> 'd \<Rightarrow> path list" where
  "rerun_paths h src_dir d =
     List.map_filter (\<lambda>e. canonicalize h (de_path e) d)
       (List.map_filter result_ok (walk_dir h is_not_ignored src_dir d))"

definition configure_cargo_rerun_if_changed :: "'d build_host \<Rightarrow> path \<Rightarrow> ('d, unit) script" where
  "configure_cargo_rerun_if_changed h src_dir =
     sbind (on_disk (rerun_paths h src_dir)) (\<lambda>xs.
       sfor xs (\<lambda>x. println (''cargo:rerun-if-changed='' @ x)))"

definition build_submodule :: "'d build_host \<Rightarrow> ('d, unit) script" where
  "build_submodule h =
     sbind (expect ''OUT_DIR'' (env_var h ''OUT_DIR'')) (\<lambda>out_dir.
     let target_dir = path_join out_dir ''target'' in
     sbind (expect ''current_dir'' (current_dir h)) (\<lambda>cwd.
     sbind (expect ''parent'' (path_parent cwd)) (\<lambda>parent.
     let src_dir = path_join parent ''libhermit-rs'' in
     sbind (build_hermit h src_dir (Some target_dir)) (\<lambda>_.
       configure_cargo_rerun_if_changed h src_dir))))"

definition constant_line :: "string \<Rightarrow> string \<Rightarrow> string" where
  "constant_line name v = ''const '' @ name @ '': &str = '' @ CHR 0x22 # v @ [CHR 0x22] @ '';''"

definition writeln :: "'d build_host \<Rightarrow> path \<Rightarrow> string \<Rightarrow> ('d, unit) script" where
  "writeln h p l = (\<lambda>s. case file_write h p (l @ [CHR 0x0A]) (disk s) of
     (ok, d) \<Rightarrow> (if ok then (Ok (), s\<lparr>written := written s @ [(p, l)], disk := d\<rparr>)
                else (Err (Panicked ''Could not write file''), s\<lparr>disk := d\<rparr>)))"

definition create_constants :: "'d build_host \<Rightarrow> ('d, unit) script" where
  "create_constants h =
     sbind (expect ''No out dir'' (env_var h ''OUT_DIR'')) (\<lambda>out_dir.
     let dest_path = path_join out_dir ''constants.rs'' in
     sbind (\<lambda>s. case file_create h dest_path (disk s) of
         (ok, d) \<Rightarrow> ((if ok then Ok () else Err (Panicked ''Could not create file'')), s\<lparr>disk := d\<rparr>)) (\<lambda>_.
     let ip = (case option_env h ''HERMIT_IP'' of None \<Rightarrow> ''10.0.5.3'' | Some v \<Rightarrow> v);
         gateway = (case option_env h ''HERMIT_GATEWAY'' of None \<Rightarrow> ''10.0.5.1'' | Some v \<Rightarrow> v);
         mask = (case option_env h ''HERMIT_MASK'' of None \<Rightarrow> ''255.255.255.0'' | Some v \<Rightarrow> v) in
     sbind (writeln h dest_path (constant_line ''HERMIT_IP'' ip)) (\<lambda>_.
     sbind (println ''cargo:rerun-if-env-changed=HERMIT_IP'') (\<lambda>_.
     sbind (writeln h dest_path (constant_line ''HERMIT_GATEWAY'' gateway)) (\<lambda>_.
     sbind (println ''cargo:rerun-if-env-changed=HERMIT_GATEWAY'') (\<lambda>_.
     sbind (writeln h dest_path (constant_line ''HERMIT_MASK'' mask)) (\<lambda>_.
       println ''cargo:rerun-if-env-changed=HERMIT_MASK'')))))))"

definition build_main :: "'d build_host \<Rightarrow> ('d, unit) script" where
  "build_main h =
     (if feature h ''rustc-dep-of-std'' then sret ()
      else sbind (create_constants h) (\<lambda>_.
        if feature h ''with_submodule'' then build_submodule h else build_download h))"

section \<open>Rules of the combinators\<close>

named_theorems script_simps \<open>computation rules of the script combinators\<close>

lemma sret_apply [simp, script_simps]: "sret a s = (Ok a, s)"
  by (simp add: sret_def)

lemma sstop_apply [simp, script_simps]: "sstop e s = (Err e, s)"
  by (simp add: sstop_def)

lemma println_apply [simp, script_simps]: "println l s = (Ok (), s\<lparr>printed := printed s @ [l]\<rparr>)"
  by (simp add: println_def)

lemma eprintln_apply [simp, script_simps]: "eprintln l s = (Ok (), s\<lparr>complaints := complaints s @ [l]\<rparr>)"
  by (simp add: eprintln_def)

lemma on_disk_apply [simp, script_simps]: "on_disk f s = (Ok (f (disk s)), s)"
  by (simp add: on_disk_def)

lemma sbind_Ok_iff:
  "sbind m f s = (Ok b, s'') \<longleftrightarrow> (\<exists>a s'. m s = (Ok a, s') \<and> f a s' = (Ok b, s''))"
  by (auto simp: sbind_def split: prod.splits result.splits)

lemma sbind_Err_iff:
  "sbind m f s = (Err e, s'') \<longleftrightarrow> m s = (Err e, s'') \<or> (\<exists>a s'. m s = (Ok a, s') \<and> f a s' = (Err e, s''))"
  by (auto simp: sbind_def split: prod.splits result.splits)

lemma sbind_Ok [simp, script_simps]: "m s = (Ok a, s') \<Longrightarrow> sbind m f s = f a s'"
  by (simp add: sbind_def)

lemma sbind_Err [simp, script_simps]: "m s = (Err e, s') \<Longrightarrow> sbind m f s = (Err e, s')"
  by (simp add: sbind_def)

lemma expect_Ok_iff: "expect msg x s = (Ok a, s') \<longleftrightarrow> x = Some a \<and> s' = s"
  by (auto simp: expect_def split: option.splits)

lemma expect_Some [simp, script_simps]: "expect msg (Some a) = sret a"
  by (simp add: expect_def)

lemma expect_Err_iff: "expect msg x s = (Err e, s') \<longleftrightarrow> x = None \<and> e = Panicked msg \<and> s' = s"
  by (auto simp: expect_def split: option.splits)

lemma assert_that_iff:
  "assert_that b msg s = (Ok u, s') \<longleftrightarrow> b \<and> s' = s"
  "assert_that b msg s = (Err e, s') \<longleftrightarrow> \<not> b \<and> e = Panicked msg \<and> s' = s"
  by (auto simp: assert_that_def)

text \<open>The commands of a list run one after the other, each of them starting and succeeding.\<close>

inductive runs :: "'d build_host \<Rightarrow> Command list \<Rightarrow> 'd \<Rightarrow> 'd \<Rightarrow> bool" for h where
  runs_Nil: "runs h [] d d"
| runs_Cons: "run_command h c d = (Ok True, d1) \<Longrightarrow> runs h cs d1 d2 \<Longrightarrow> runs h (c # cs) d d2"

inductive_simps runs_Nil_iff [simp]: "runs h [] d d'"
inductive_simps runs_Cons_iff [simp]: "runs h (c # cs) d d'"

text \<open>\<open>did h cs ls s s'\<close>: between \<open>s\<close> and \<open>s'\<close> the commands \<open>cs\<close> have succeeded and the lines \<open>ls\<close> were printed.\<close>

definition did :: "'d build_host \<Rightarrow> Command list \<Rightarrow> string list \<Rightarrow> 'd build_state \<Rightarrow> 'd build_state \<Rightarrow> bool" where
  "did h cs ls s s' \<longleftrightarrow> commands s' = commands s @ cs \<and> printed s' = printed s @ ls \<and>
     written s' = written s \<and> complaints s' = complaints s \<and> runs h cs (disk s) (disk s')"

lemma runs_append: "runs h cs d d1 \<Longrightarrow> runs h cs' d1 d2 \<Longrightarrow> runs h (cs @ cs') d d2"
  by (induction rule: runs.induct) auto

lemma did_trans: "did h cs ls s s' \<Longrightarrow> did h cs' ls' s' s'' \<Longrightarrow> did h (cs @ cs') (ls @ ls') s s''"
  by (auto simp: did_def intro: runs_append)

lemma did_refl: "did h [] [] s s"
  by (simp add: did_def)

lemma did_println: "did h [] [l] s (s\<lparr>printed := printed s @ [l]\<rparr>)"
  by (simp add: did_def)

lemma must_run_Ok:
  assumes "must_run h cmd m1 m2 s = (Ok u, s')"
  shows "did h [cmd] [] s s'"
  using assms
  by (auto simp: must_run_def status_def sbind_Ok_iff expect_Ok_iff assert_that_iff did_def
      split: prod.splits result.splits elim!: result_ok.elims)

lemma must_run_Err:
  assumes "must_run h cmd m1 m2 s = (Err e, s')"
  shows "printed s' = printed s" and "commands s' = commands s @ [cmd]" and "fst (run_command h cmd (disk s)) \<noteq> Ok True"
  using assms
  by (auto simp: must_run_def status_def sbind_Err_iff expect_Err_iff expect_Ok_iff assert_that_iff
      split: prod.splits result.splits elim!: result_ok.elims)

lemma rename_symbol_Ok:
  assumes "rename_symbol h symbol lib s = (Ok u, s')"
  obtains objcopy where "llvm_objcopy h = Ok (Some objcopy)" and "did h [rename_command objcopy lib symbol] [] s s'"
  using assms by (auto simp: rename_symbol_def sbind_Ok_iff expect_Ok_iff
      split: result.splits tools_error.splits dest: must_run_Ok)

lemma rename_symbols_Ok:
  assumes "sfor symbols (\<lambda>symbol. rename_symbol h symbol lib) s = (Ok u, s')" and "symbols \<noteq> []"
  obtains objcopy where "llvm_objcopy h = Ok (Some objcopy)" and "did h (map (rename_command objcopy lib) symbols) [] s s'"
proof -
  have "\<exists>objcopy. llvm_objcopy h = Ok (Some objcopy) \<and> did h (map (rename_command objcopy lib) symbols) [] s s'"
    using assms
  proof (induction symbols arbitrary: s)
    case (Cons symbol symbols)
    then obtain v s1 where first: "rename_symbol h symbol lib s = (Ok v, s1)"
      and rest: "sfor symbols (\<lambda>symbol. rename_symbol h symbol lib) s1 = (Ok u, s')"
      by (auto simp: sbind_Ok_iff)
    from first obtain objcopy where oc: "llvm_objcopy h = Ok (Some objcopy)"
      and d1: "did h [rename_command objcopy lib symbol] [] s s1" by (rule rename_symbol_Ok)
    have "did h (map (rename_command objcopy lib) symbols) [] s1 s'"
    proof (cases "symbols = []")
      case True
      with rest show ?thesis by (simp add: did_refl)
    next
      case False
      with Cons.IH [OF rest] oc show ?thesis by auto
    qed
    from did_trans [OF d1 this] oc show ?case by auto
  qed simp
  then show thesis using that by blast
qed

lemma rename_symbol_Err:
  assumes "rename_symbol h symbol lib s = (Err e, s')"
  shows "printed s' = printed s"
  using assms by (auto simp: rename_symbol_def sbind_Err_iff expect_Err_iff expect_Ok_iff
      split: result.splits tools_error.splits dest: must_run_Err)

lemma rename_symbols_Err:
  "sfor symbols (\<lambda>symbol. rename_symbol h symbol lib) s = (Err e, s') \<Longrightarrow> printed s' = printed s"
proof (induction symbols arbitrary: s)
  case (Cons symbol symbols)
  then show ?case
    by (auto simp: sbind_Err_iff did_def dest!: rename_symbol_Err elim!: rename_symbol_Ok)
qed simp

lemma kernel_symbols_nonempty [simp]: "kernel_symbols h \<noteq> []"
  by (simp add: kernel_symbols_def)

section \<open>Splitting and joining\<close>

text \<open>How Cargo reads \<open>CARGO_ENCODED_RUSTFLAGS\<close>: an empty value is no flag.\<close>

definition decode_flags :: "string \<Rightarrow> string list" where
  "decode_flags v = (if v = [] then [] else split_on US v)"

lemma first_flag_no_sep: "US \<notin> set ''-Zmutable-noalias=no''" "US \<notin> set ''-Zinstrument-mcount''"
  by (simp_all add: US_def)

lemma kernel_rustflags_split:
  "split_on US (join_with US (kernel_rustflags h outer)) = ''-Zmutable-noalias=no'' #
     (if feature h ''instrument'' then ''-Zinstrument-mcount'' # split_on US outer
      else filter (\<lambda>flag. \<not> contains ''instrument-mcount'' flag) (decode_flags outer))"
proof (cases "feature h ''instrument''")
  case True
  have "join_with US (kernel_rustflags h outer) = ''-Zmutable-noalias=no'' @ US # ''-Zinstrument-mcount'' @ US # outer"
    using True by (simp add: kernel_rustflags_def)
  with True show ?thesis by (simp only: split_on_append_sep first_flag_no_sep simp_thms if_True not_False_eq_True)
next
  case False
  let ?flags = "filter (\<lambda>flag. \<not> contains ''instrument-mcount'' flag) (decode_flags outer)"
  have flags: "kernel_rustflags h outer = ''-Zmutable-noalias=no'' # ?flags"
    using False by (auto simp: kernel_rustflags_def decode_flags_def)
  have "US \<notin> set p" if "p \<in> set (''-Zmutable-noalias=no'' # ?flags)" for p
    using that first_flag_no_sep split_on_no_sep by (fastforce simp: decode_flags_def split: if_splits)
  then have "split_on US (join_with US (''-Zmutable-noalias=no'' # ?flags)) = ''-Zmutable-noalias=no'' # ?flags"
    by (intro split_join) auto
  with False flags show ?thesis by (simp only: if_False)
qed

section \<open>Properties\<close>

definition link_lines :: "path \<Rightarrow> string list" where
  "link_lines loc = [''Lib location: '' @ loc, ''cargo:rustc-link-search=native='' @ loc,
     ''cargo:rustc-link-lib=static=hermit'', ''cargo:rerun-if-env-changed=HERMIT_LOG_LEVEL_FILTER'']"

lemma link_kernel_Ok:
  assumes "link_kernel h loc s = (Ok u, s')"
  obtains objcopy where "llvm_objcopy h = Ok (Some objcopy)"
    and "did h (map (rename_command objcopy (path_join loc ''libhermit.a'')) (kernel_symbols h)) (link_lines loc) s s'"
proof -
  from assms obtain v s1
    where renames: "sfor (kernel_symbols h) (\<lambda>symbol. rename_symbol h symbol (path_join loc ''libhermit.a''))
        (s\<lparr>printed := printed s @ [''Lib location: '' @ loc]\<rparr>) = (Ok v, s1)"
    and s': "s' = s1\<lparr>printed := printed s1 @ tl (link_lines loc)\<rparr>"
    by (auto simp: link_kernel_def link_lines_def sbind_Ok_iff)
  from renames show thesis
    by (rule rename_symbols_Ok) (auto intro!: that simp: did_def s' link_lines_def)
qed

lemma link_kernel_Err:
  assumes "link_kernel h loc s = (Err e, s')"
  shows "printed s' = printed s @ [''Lib location: '' @ loc]"
  using assms by (auto simp: link_kernel_def sbind_Err_iff dest: rename_symbols_Err)

text \<open>The values of the options \<open>--features\<close>, and the features that \<open>hermit-sys/Cargo.toml\<close> declares.\<close>

fun requested_features :: "string list \<Rightarrow> string list" where
  "requested_features (a # b # as) =
     (if a = ''--features'' then b # requested_features as else requested_features (b # as))"
| "requested_features as = []"

definition declared_features :: "string list" where
  "declared_features = [''default'', ''instrument'', ''trace'', ''fsgsbase'', ''pci'', ''acpi'', ''vga'', ''dhcpv4'',
     ''with_submodule'', ''smp'', ''smoltcp'', ''rftrace'']"

text \<open>A host whose commands all succeed; its disk counts them.\<close>

definition demo_host :: "nat build_host" where
  "demo_host = \<lparr>env_var = (\<lambda>n. if n = ''PROFILE'' then Some ''debug'' else if n = ''OUT_DIR'' then Some ''/out''
       else if n = ''CARGO_ENCODED_RUSTFLAGS'' then Some [] else None),
     option_env = (\<lambda>_. None), feature = (\<lambda>f. f \<in> {''pci'', ''smp'', ''fsgsbase''}), CARGO = ''cargo'',
     target_arch = Some ''x86_64'', llvm_objcopy = Ok (Some ''llvm-objcopy''), current_dir = Some ''/w/hermit-sys'',
     path_exists = (\<lambda>_ _. True), canonicalize = (\<lambda>p _. Some p), run_command = (\<lambda>_ d. (Ok True, Suc d)),
     file_create = (\<lambda>_ d. (True, d)), file_write = (\<lambda>_ _ d. (True, d)), walk_dir = (\<lambda>_ _ _. [])\<rparr>"

definition demo_start :: "nat build_state" where
  "demo_start = \<lparr>printed = [], complaints = [], commands = [], written = [], disk = 0\<rparr>"

lemma build_hermit_Ok:
  assumes "build_hermit h src_dir target_dir s = (Ok u, s')"
  obtains arch triple profile outer s1 loc
    where "path_exists h src_dir (disk s)"
      and "target_arch h = Some arch" and "kernel_triple arch = Some triple"
      and "env_var h ''PROFILE'' = Some profile" and "env_var h ''CARGO_ENCODED_RUSTFLAGS'' = Some outer"
      and "did h [kernel_command h src_dir target_dir arch triple profile outer] [] s s1"
      and "canonicalize h (path_join (path_join (case target_dir of Some d \<Rightarrow> d | None \<Rightarrow> path_join src_dir ''target'')
             triple) profile) (disk s1) = Some loc"
      and "link_kernel h loc s1 = (Ok u, s')"
  using assms unfolding build_hermit_def Let_def
  by (auto simp: sbind_Ok_iff expect_Ok_iff assert_that_iff intro: that dest!: must_run_Ok)

text \<open>
  C10: what a successful build of the kernel has done: it ran, each of them successfully, the Cargo build of
  the kernel for the target and then one renaming for every symbol on the library of that build, in this
  order and nothing else, and it printed where the library is and the directives for linking it. The library
  is the one that the Cargo build left under the target directory, in the directory of the target and the
  profile.
\<close>

theorem build_hermit_trace:
  assumes "build_hermit h src_dir target_dir s = (Ok u, s')"
  shows "\<exists>arch triple profile outer objcopy loc.
    target_arch h = Some arch \<and> kernel_triple arch = Some triple \<and> env_var h ''PROFILE'' = Some profile \<and>
    env_var h ''CARGO_ENCODED_RUSTFLAGS'' = Some outer \<and> llvm_objcopy h = Ok (Some objcopy) \<and>
    did h (kernel_command h src_dir target_dir arch triple profile outer
        # map (rename_command objcopy (path_join loc ''libhermit.a'')) (kernel_symbols h)) (link_lines loc) s s' \<and>
    (\<exists>s1. did h [kernel_command h src_dir target_dir arch triple profile outer] [] s s1 \<and>
      canonicalize h (path_join (path_join (case target_dir of Some d \<Rightarrow> d | None \<Rightarrow> path_join src_dir ''target'')
        triple) profile) (disk s1) = Some loc)"
proof -
  from assms obtain arch triple profile outer s1 loc
    where *: "target_arch h = Some arch" "kernel_triple arch = Some triple" "env_var h ''PROFILE'' = Some profile"
      "env_var h ''CARGO_ENCODED_RUSTFLAGS'' = Some outer"
    and d1: "did h [kernel_command h src_dir target_dir arch triple profile outer] [] s s1"
    and can: "canonicalize h (path_join (path_join (case target_dir of Some d \<Rightarrow> d | None \<Rightarrow> path_join src_dir ''target'')
        triple) profile) (disk s1) = Some loc"
    and link: "link_kernel h loc s1 = (Ok u, s')" by (rule build_hermit_Ok)
  from link obtain objcopy where oc: "llvm_objcopy h = Ok (Some objcopy)"
    and d2: "did h (map (rename_command objcopy (path_join loc ''libhermit.a'')) (kernel_symbols h)) (link_lines loc) s1 s'"
    by (rule link_kernel_Ok)
  from did_trans [OF d1 d2] have "did h (kernel_command h src_dir target_dir arch triple profile outer
      # map (rename_command objcopy (path_join loc ''libhermit.a'')) (kernel_symbols h)) (link_lines loc) s s'" by simp
  with * oc d1 can show ?thesis by blast
qed

theorem build_hermit_trace_witness:
  "disk (snd (build_hermit demo_host ''/k'' None demo_start)) = 3 \<and>
   length (commands (snd (build_hermit demo_host ''/k'' None demo_start))) = 3"
proof -
  have run: "build_hermit demo_host ''/k'' None demo_start = (Ok (), snd (build_hermit demo_host ''/k'' None demo_start))"
    by (simp add: build_hermit_def link_kernel_def demo_host_def demo_start_def kernel_triple_def kernel_symbols_def
        rename_symbol_def must_run_def status_def expect_def assert_that_def sbind_def Let_def)
  from build_hermit_trace [OF run] show ?thesis
    by (auto simp: did_def demo_start_def) (simp_all add: demo_host_def kernel_symbols_def)
qed

text \<open>
  C29: a build that stops, by a panic or an exit, has not printed a directive for linking, so that Cargo never
  links a library whose build or whose renaming failed; and on an unsupported target it stops before it
  has started any command.
\<close>

theorem build_hermit_failure:
  assumes "build_hermit h src_dir target_dir s = (Err e, s')"
  shows "(printed s' = printed s \<or> (\<exists>loc. printed s' = printed s @ [''Lib location: '' @ loc])) \<and>
    (\<forall>arch. target_arch h = Some arch \<longrightarrow> kernel_triple arch = None \<longrightarrow> commands s' = commands s)"
proof
  show "printed s' = printed s \<or> (\<exists>loc. printed s' = printed s @ [''Lib location: '' @ loc])"
    using assms unfolding build_hermit_def Let_def
    by (auto simp: sbind_Err_iff expect_Err_iff expect_Ok_iff assert_that_iff did_def
        dest!: must_run_Err(1) must_run_Ok dest: link_kernel_Err)
  show "\<forall>arch. target_arch h = Some arch \<longrightarrow> kernel_triple arch = None \<longrightarrow> commands s' = commands s"
    using assms unfolding build_hermit_def Let_def
    by (auto simp: sbind_Err_iff expect_Err_iff expect_Ok_iff assert_that_iff)
qed

theorem build_hermit_failure_witness:
  "fst (build_hermit (demo_host\<lparr>target_arch := Some ''sparc''\<rparr>) ''/k'' None demo_start)
     = Err (Panicked ''Try to build for an unsupported platform'') \<and>
   commands (snd (build_hermit (demo_host\<lparr>target_arch := Some ''sparc''\<rparr>) ''/k'' None demo_start)) = []"
proof -
  let ?h = "demo_host\<lparr>target_arch := Some ''sparc''\<rparr>"
  have run: "build_hermit ?h ''/k'' None demo_start
      = (Err (Panicked ''Try to build for an unsupported platform''), demo_start)"
    by (simp add: build_hermit_def demo_host_def demo_start_def kernel_triple_def expect_def assert_that_def sbind_def)
  have "commands demo_start = commands demo_start"
    using build_hermit_failure [OF run] by simp
  with run show ?thesis by (simp add: demo_start_def)
qed

text \<open>
  C30: the Cargo features of the kernel build. Without the default features it requests, in this order, the
  console feature on \<open>aarch64\<close> and those of \<open>pci\<close>, \<open>acpi\<close>, \<open>fsgs_base\<close>, \<open>smp\<close>, \<open>vga\<close> that are switched on
  in \<open>hermit-sys\<close>. With the features that the manifest of \<open>hermit-sys\<close> declares, \<open>fsgs_base\<close> is never among
  them (the manifest calls it \<open>fsgsbase\<close>) and only the two Rust symbols are renamed.
\<close>

theorem kernel_features:
  assumes "target_dir \<noteq> Some ''--features''" and "triple \<noteq> ''--features''"
  shows "requested_features (cmd_args (kernel_command h src_dir target_dir arch triple profile outer)) =
      (if arch = ''aarch64'' then [''aarch64-qemu-stdout''] else [])
        @ filter (feature h) [''pci'', ''acpi'', ''fsgs_base'', ''smp'', ''vga''] \<and>
    ((\<forall>f. feature h f \<longrightarrow> f \<in> set declared_features) \<longrightarrow>
      ''fsgs_base'' \<notin> set (requested_features (cmd_args (kernel_command h src_dir target_dir arch triple profile outer))) \<and>
      kernel_symbols h = [''rust_begin_unwind'', ''rust_oom''])"
proof -
  have eq: "requested_features (cmd_args (kernel_command h src_dir target_dir arch triple profile outer)) =
      (if arch = ''aarch64'' then [''aarch64-qemu-stdout''] else [])
        @ filter (feature h) [''pci'', ''acpi'', ''fsgs_base'', ''smp'', ''vga'']"
    using assms by (simp add: kernel_command_def feature_args_def split: option.split)
  have "\<not> feature h ''fsgs_base'' \<and> \<not> feature h ''mem''" if "\<forall>f. feature h f \<longrightarrow> f \<in> set declared_features"
  proof -
    have "''fsgs_base'' \<notin> set declared_features" "''mem'' \<notin> set declared_features"
      by (simp_all add: declared_features_def)
    with that show ?thesis by blast
  qed
  with eq show ?thesis by (auto simp: kernel_symbols_def)
qed

theorem kernel_features_witness:
  "requested_features (cmd_args (kernel_command demo_host ''/k'' None ''x86_64'' ''x86_64-unknown-none-hermitkernel''
     ''release'' [])) = [''pci'', ''smp''] \<and> feature demo_host ''fsgsbase'' \<and>
   kernel_symbols demo_host = [''rust_begin_unwind'', ''rust_oom'']"
proof -
  have "\<forall>f. feature demo_host f \<longrightarrow> f \<in> set declared_features"
    by (auto simp: demo_host_def declared_features_def)
  with kernel_features [of None "''x86_64-unknown-none-hermitkernel''" demo_host "''/k''" "''x86_64''" "''release''" "[]"]
  show ?thesis by (simp add: demo_host_def)
qed

text \<open>
  C27: the compiler flags survive the encoding: Cargo decodes from the variable of the kernel build the
  flag of the script followed by the flags given to the script, in their order, without those for
  \<open>instrument-mcount\<close>, if the feature \<open>instrument\<close> is off. If it is on, all given flags follow the flag for
  instrumentation, and no given flag becomes an empty flag.
\<close>

theorem kernel_rustflags_roundtrip:
  "decode_flags (join_with US (kernel_rustflags h outer)) = ''-Zmutable-noalias=no'' #
     (if feature h ''instrument''
      then ''-Zinstrument-mcount'' # (if outer = [] then [[]] else decode_flags outer)
      else filter (\<lambda>flag. \<not> contains ''instrument-mcount'' flag) (decode_flags outer))"
proof -
  have "join_with US (kernel_rustflags h outer) \<noteq> []"
    using kernel_rustflags_split [of h outer] by (intro notI) simp
  then have "decode_flags (join_with US (kernel_rustflags h outer)) = split_on US (join_with US (kernel_rustflags h outer))"
    by (simp add: decode_flags_def)
  with kernel_rustflags_split [of h outer] show ?thesis by (simp add: decode_flags_def)
qed

section \<open>The generated constants\<close>

text \<open>
  How the compiler reads a line of \<open>constants.rs\<close>: the name and the value of a string constant. A value
  with a quote or a backslash would be read differently and is not covered.
\<close>

definition strip_prefix :: "string \<Rightarrow> string \<Rightarrow> string option" where
  "strip_prefix p l = (if take (length p) l = p then Some (drop (length p) l) else None)"

definition read_constant :: "string \<Rightarrow> (string \<times> string) option" where
  "read_constant l =
     (case strip_prefix ''const '' l of None \<Rightarrow> None
      | Some r \<Rightarrow>
          let name = takeWhile (\<lambda>c. c \<noteq> CHR '':'') r in
          case strip_prefix ('': &str = '' @ [CHR 0x22]) (drop (length name) r) of None \<Rightarrow> None
          | Some v \<Rightarrow>
              let body = takeWhile (\<lambda>c. c \<noteq> CHR 0x22) v in
              if drop (length body) v = [CHR 0x22, CHR '';''] \<and> CHR 0x5C \<notin> set body then Some (name, body) else None)"

lemma strip_prefix_append [simp]: "strip_prefix p (p @ l) = Some l"
  by (simp add: strip_prefix_def)

lemma read_constant_line:
  assumes "CHR '':'' \<notin> set name" and "CHR 0x22 \<notin> set v" and "CHR 0x5C \<notin> set v"
  shows "read_constant (constant_line name v) = Some (name, v)"
proof -
  have name: "takeWhile (\<lambda>c. c \<noteq> CHR '':'') (name @ CHR '':'' # r) = name" for r
    using assms(1) by (subst takeWhile_append2) auto
  have body: "takeWhile (\<lambda>c. c \<noteq> CHR 0x22) (v @ CHR 0x22 # r) = v" for r
    using assms(2) by (subst takeWhile_append2) auto
  have const: "strip_prefix ''const '' (''const '' @ r) = Some r" for r by (rule strip_prefix_append)
  have mid: "strip_prefix ('': &str = '' @ [CHR 0x22]) (('': &str = '' @ [CHR 0x22]) @ r) = Some r" for r
    by (rule strip_prefix_append)
  show ?thesis
    unfolding read_constant_def constant_line_def const using assms(3) name body mid
    by (simp add: Let_def)
qed

definition network_constants :: "'d build_host \<Rightarrow> (string \<times> string) list" where
  "network_constants h =
     [(''HERMIT_IP'', case option_env h ''HERMIT_IP'' of None \<Rightarrow> ''10.0.5.3'' | Some v \<Rightarrow> v),
      (''HERMIT_GATEWAY'', case option_env h ''HERMIT_GATEWAY'' of None \<Rightarrow> ''10.0.5.1'' | Some v \<Rightarrow> v),
      (''HERMIT_MASK'', case option_env h ''HERMIT_MASK'' of None \<Rightarrow> ''255.255.255.0'' | Some v \<Rightarrow> v)]"

lemma writeln_Ok:
  "writeln h p l s = (Ok u, s') \<Longrightarrow> written s' = written s @ [(p, l)] \<and> printed s' = printed s"
  by (auto simp: writeln_def split: prod.splits if_splits)

lemma create_constants_Ok:
  assumes "create_constants h s = (Ok u, s')"
  shows "\<exists>out. env_var h ''OUT_DIR'' = Some out \<and>
    written s' = written s @ map (\<lambda>(n, v). (path_join out ''constants.rs'', constant_line n v)) (network_constants h)"
proof -
  have create: "written s1 = written s"
    if "(case file_create h p (disk s) of (ok, d) \<Rightarrow>
      ((if ok then Ok () else Err (Panicked m)), s\<lparr>disk := d\<rparr>)) = (Ok v, s1)" for p m v s1
    using that by (auto split: prod.splits)
  from assms show ?thesis
    unfolding create_constants_def Let_def
    by (auto simp: sbind_Ok_iff expect_Ok_iff network_constants_def dest!: writeln_Ok create)
qed

lemma create_constants_read:
  assumes "create_constants h s = (Ok u, s')"
    and "\<forall>(n, v) \<in> set (network_constants h). CHR 0x22 \<notin> set v \<and> CHR 0x5C \<notin> set v"
  shows "\<exists>out. env_var h ''OUT_DIR'' = Some out \<and>
    map (\<lambda>(p, l). (p, read_constant l)) (drop (length (written s)) (written s'))
      = map (\<lambda>c. (path_join out ''constants.rs'', Some c)) (network_constants h)"
proof -
  have "CHR '':'' \<notin> set n" if "(n, v) \<in> set (network_constants h)" for n v
    using that by (auto simp: network_constants_def)
  with assms(2) have "read_constant (constant_line n v) = Some (n, v)" if "(n, v) \<in> set (network_constants h)" for n v
    using that by (intro read_constant_line) auto
  with create_constants_Ok [OF assms(1)] show ?thesis by auto
qed

text \<open>
  the generated file is read back as it was meant: if \<open>create_constants\<close> succeeds, the lines it has
  written to \<open>constants.rs\<close> declare, in order, the three addresses of the environment or their defaults,
  provided that no address contains a quote or a backslash.
\<close>

theorem constants_roundtrip:
  assumes "create_constants h s = (Ok u, s')"
    and "\<forall>(n, v) \<in> set (network_constants h). CHR 0x22 \<notin> set v \<and> CHR 0x5C \<notin> set v"
  shows "\<exists>out. env_var h ''OUT_DIR'' = Some out \<and>
    map (\<lambda>(p, l). (p, read_constant l)) (drop (length (written s)) (written s'))
      = map (\<lambda>c. (path_join out ''constants.rs'', Some c)) (network_constants h)"
  by (rule create_constants_read [OF assms])

theorem constants_roundtrip_witness:
  "map (\<lambda>(p, l). (p, read_constant l)) (written (snd (create_constants demo_host demo_start)))
     = [(''/out/constants.rs'', Some (''HERMIT_IP'', ''10.0.5.3'')), (''/out/constants.rs'', Some (''HERMIT_GATEWAY'', ''10.0.5.1'')),
        (''/out/constants.rs'', Some (''HERMIT_MASK'', ''255.255.255.0''))]"
proof -
  have run: "create_constants demo_host demo_start = (Ok (), snd (create_constants demo_host demo_start))"
    by (simp add: create_constants_def writeln_def demo_host_def demo_start_def sbind_def Let_def)
  have "\<forall>(n, v) \<in> set (network_constants demo_host). CHR 0x22 \<notin> set v \<and> CHR 0x5C \<notin> set v"
    by (simp add: network_constants_def demo_host_def)
  from constants_roundtrip [OF run this] show ?thesis
    by (auto simp: demo_start_def network_constants_def demo_host_def path_join_def)
qed

section \<open>Watching the sources\<close>

text \<open>
  What the script relies on of \<open>walkdir\<close>: \<open>filter_entry\<close> yields the entries of the tree that satisfy the
  predicate together with all entries above them.
\<close>

definition inside :: "DirEntry \<Rightarrow> DirEntry \<Rightarrow> bool" where
  "inside a e \<longleftrightarrow> (let n = length (de_path a); q = drop n (de_path e)
     in take n (de_path e) = de_path a \<and> (q = [] \<or> hd q = CHR ''/''))"

definition walk_laws :: "'d build_host \<Rightarrow> bool" where
  "walk_laws h \<longleftrightarrow> (\<forall>P root d e. Ok e \<in> set (walk_dir h P root d) \<longleftrightarrow>
     Ok e \<in> set (walk_dir h (\<lambda>_. True) root d) \<and>
     (\<forall>a. Ok a \<in> set (walk_dir h (\<lambda>_. True) root d) \<longrightarrow> inside a e \<longrightarrow> P a))"

lemma map_filter_set: "y \<in> set (List.map_filter f xs) \<longleftrightarrow> (\<exists>x \<in> set xs. f x = Some y)"
  by (induction xs) (auto simp: List.map_filter_simps split: option.splits)

lemma result_ok_Some [simp]: "result_ok r = Some a \<longleftrightarrow> r = Ok a"
  by (cases r) auto

lemma rerun_paths_iff: "x \<in> set (rerun_paths h root d) \<longleftrightarrow>
    (\<exists>e. Ok e \<in> set (walk_dir h is_not_ignored root d) \<and> canonicalize h (de_path e) d = Some x)"
  by (auto simp: rerun_paths_def map_filter_set)

lemma sfor_println: "sfor xs (\<lambda>x. println (f x)) s = (Ok (), s\<lparr>printed := printed s @ map f xs\<rparr>)"
  by (induction xs arbitrary: s) auto

text \<open>
  C28: the script announces exactly the readable paths of the source tree that are not inside a directory
  \<open>target\<close>, \<open>.git\<close> or \<open>.vscode\<close> at the top of the tree, so that Cargo runs the script again when one of
  them changes; directories with these names further down are not excluded.
\<close>

theorem rerun_if_changed_exact:
  assumes "walk_laws h"
  shows "\<exists>xs. configure_cargo_rerun_if_changed h root s
      = (Ok (), s\<lparr>printed := printed s @ map (\<lambda>x. ''cargo:rerun-if-changed='' @ x) xs\<rparr>) \<and>
    (\<forall>x. x \<in> set xs \<longleftrightarrow> (\<exists>e. Ok e \<in> set (walk_dir h (\<lambda>_. True) root (disk s)) \<and> canonicalize h (de_path e) (disk s) = Some x \<and>
       \<not> (\<exists>a. Ok a \<in> set (walk_dir h (\<lambda>_. True) root (disk s)) \<and> inside a e \<and> de_depth a = 1 \<and> de_is_dir a \<and>
         (path_ends_with (de_path a) ''target'' \<or> path_ends_with (de_path a) ''.git'' \<or> path_ends_with (de_path a) ''.vscode''))))"
proof (intro exI conjI)
  show "configure_cargo_rerun_if_changed h root s = (Ok (), s\<lparr>printed := printed s @
      map (\<lambda>x. ''cargo:rerun-if-changed='' @ x) (rerun_paths h root (disk s))\<rparr>)"
    by (simp add: configure_cargo_rerun_if_changed_def sfor_println)
  have ign: "\<not> is_not_ignored a \<longleftrightarrow> de_depth a = 1 \<and> de_is_dir a \<and> (path_ends_with (de_path a) ''target''
      \<or> path_ends_with (de_path a) ''.git'' \<or> path_ends_with (de_path a) ''.vscode'')" for a
    by (simp add: is_not_ignored_def)
  have walk: "Ok e \<in> set (walk_dir h is_not_ignored root (disk s)) \<longleftrightarrow> Ok e \<in> set (walk_dir h (\<lambda>_. True) root (disk s)) \<and>
      \<not> (\<exists>a. Ok a \<in> set (walk_dir h (\<lambda>_. True) root (disk s)) \<and> inside a e \<and> \<not> is_not_ignored a)" for e
    using assms unfolding walk_laws_def by blast
  show "\<forall>x. x \<in> set (rerun_paths h root (disk s)) \<longleftrightarrow> (\<exists>e. Ok e \<in> set (walk_dir h (\<lambda>_. True) root (disk s)) \<and>
      canonicalize h (de_path e) (disk s) = Some x \<and>
      \<not> (\<exists>a. Ok a \<in> set (walk_dir h (\<lambda>_. True) root (disk s)) \<and> inside a e \<and> de_depth a = 1 \<and> de_is_dir a \<and>
        (path_ends_with (de_path a) ''target'' \<or> path_ends_with (de_path a) ''.git'' \<or> path_ends_with (de_path a) ''.vscode'')))"
    unfolding rerun_paths_iff walk ign by blast
qed

definition demo_tree :: "DirEntry list" where
  "demo_tree = [\<lparr>de_depth = 0, de_path = ''/k'', de_is_dir = True\<rparr>, \<lparr>de_depth = 1, de_path = ''/k/target'', de_is_dir = True\<rparr>,
     \<lparr>de_depth = 2, de_path = ''/k/target/x'', de_is_dir = False\<rparr>, \<lparr>de_depth = 1, de_path = ''/k/src'', de_is_dir = True\<rparr>,
     \<lparr>de_depth = 2, de_path = ''/k/src/target'', de_is_dir = True\<rparr>]"

definition demo_walk_host :: "nat build_host" where
  "demo_walk_host = demo_host\<lparr>walk_dir := (\<lambda>P root d.
     map Ok (filter (\<lambda>e. list_all (\<lambda>a. inside a e \<longrightarrow> P a) demo_tree) demo_tree))\<rparr>"

lemma demo_walk_all: "Ok e \<in> set (walk_dir demo_walk_host (\<lambda>_. True) root d) \<longleftrightarrow> e \<in> set demo_tree"
  by (auto simp: demo_walk_host_def list_all_iff)

lemma demo_walk_laws: "walk_laws demo_walk_host"
  unfolding walk_laws_def demo_walk_all by (auto simp: demo_walk_host_def list_all_iff)

theorem rerun_if_changed_exact_witness:
  "walk_laws demo_walk_host \<and>
   ''cargo:rerun-if-changed=/k/src/target''
     \<in> set (printed (snd (configure_cargo_rerun_if_changed demo_walk_host ''/k'' demo_start)))"
proof -
  obtain xs where run: "configure_cargo_rerun_if_changed demo_walk_host ''/k'' demo_start
      = (Ok (), demo_start\<lparr>printed := printed demo_start @ map (\<lambda>x. ''cargo:rerun-if-changed='' @ x) xs\<rparr>)"
    and xs: "\<forall>x. x \<in> set xs \<longleftrightarrow> (\<exists>e. e \<in> set demo_tree \<and> canonicalize demo_walk_host (de_path e) (disk demo_start) = Some x \<and>
       \<not> (\<exists>a. a \<in> set demo_tree \<and> inside a e \<and> de_depth a = 1 \<and> de_is_dir a \<and>
         (path_ends_with (de_path a) ''target'' \<or> path_ends_with (de_path a) ''.git'' \<or> path_ends_with (de_path a) ''.vscode'')))"
    using rerun_if_changed_exact [OF demo_walk_laws, of "''/k''" demo_start] unfolding demo_walk_all by blast
  let ?e = "\<lparr>de_depth = 2, de_path = ''/k/src/target'', de_is_dir = True\<rparr>"
  have "list_all (\<lambda>a. \<not> (inside a ?e \<and> de_depth a = 1 \<and> de_is_dir a \<and> (path_ends_with (de_path a) ''target''
      \<or> path_ends_with (de_path a) ''.git'' \<or> path_ends_with (de_path a) ''.vscode''))) demo_tree"
    by code_simp
  moreover have "?e \<in> set demo_tree" by (simp add: demo_tree_def)
  moreover have "canonicalize demo_walk_host (de_path ?e) (disk demo_start) = Some ''/k/src/target''"
    by (simp add: demo_walk_host_def demo_host_def)
  ultimately have "''/k/src/target'' \<in> set xs" unfolding xs [rule_format] list_all_iff by blast
  with run demo_walk_laws show ?thesis by auto
qed

end
