(* ===== verification/Spec2Isabelle.thy ===== *)
theory Spec2Isabelle
  imports Tcp_Backends Park_Protocol Matmul_Recursive Message_Stream Cmath Benchmarks Example_Programs
    Build_Script Device
begin

text \<open>
  A verification library for RustyHermit, the Rust side of the HermitCore unikernel.

  \<^bold>\<open>The program.\<close> An application (through the Rust standard library) calls the crate \<open>hermit-abi\<close>
  (\<open>hermit-abi/src\<close>), which forwards to symbols of the kernel and of the crate \<open>hermit-sys\<close>
  (\<open>hermit-sys/src\<close>). \<open>hermit-sys\<close> holds the network stack of the unikernel: TCP system calls and
  asynchronous sockets around the third-party stack smoltcp (\<open>net/mod.rs\<close>), a small executor
  (\<open>net/executor.rs\<close>), the packet device (\<open>net/device.rs\<close>), stubs for a build without smoltcp (\<open>dummy.rs\<close>)
  and the C mathematics functions (\<open>cmath.rs\<close>). Its build script (\<open>build.rs\<close>) builds the kernel library and
  generates the network constants that \<open>net/device.rs\<close> includes. The repository also has example programs
  (\<open>examples\<close>) and benchmarks (\<open>benches\<close>).

  \<^bold>\<open>Language level.\<close> \<open>Prelude\<close> has results, panics, programs over a world (\<open>prog\<close>: a call returns, panics or
  does not return), the loop \<open>rust_loop\<close> with its rules for partial correctness, total correctness and
  divergence, and the functions of the standard library that the sources use. No definition uses fuel:
  a loop that may run forever is a \<open>partial_function (option)\<close> whose value is then \<open>None\<close>, and every claim that
  a loop returns is proved as an equation with \<open>Some (Return ..)\<close>.

  \<^bold>\<open>Theories and sources.\<close>
  \<^item> \<open>Smoltcp_Api\<close>: the interface of smoltcp as the record \<open>smoltcp\<close>, a parameter of the network stack, with
    the laws that theorems rely on as named hypotheses; \<open>Example_Stack\<close> is an executable instance of the
    record and of the kernel, for the witnesses.
  \<^item> \<open>Waker_Registration\<close>: \<open>net/waker.rs\<close>. No registered waker is lost.
  \<^item> \<open>Hermit_World\<close>: the statics of \<open>hermit-sys\<close> (the mutex \<open>NIC\<close> with its poison flag, the counter of local
    ports, the \<open>unparked\<close> flags), the functions it imports from the kernel, waking, locking.
  \<^item> \<open>Network_Interface\<close>: polling, DHCP, the network task and the network thread of \<open>net/mod.rs\<close>. The locale
    \<open>nic_invariant\<close> states what a property of the interface needs to be kept by polling; it is interpreted for
    the DHCP address invariant and for the validity of handles.
  \<^item> \<open>Executor\<close>: \<open>net/executor.rs\<close>. The locale \<open>future_driver\<close> proves once what driving a future to its
    end means; \<open>poll_on\<close> and \<open>block_on\<close> are interpretations.
  \<^item> \<open>Park_Protocol\<close>: the interleavings of \<open>block_on\<close> with \<open>wake_by_ref\<close> as a step relation, over a kernel that
    remembers wake-ups or does not.
  \<^item> \<open>Async_Socket\<close>: the asynchronous functions of \<open>net/mod.rs\<close> as state machines with one constructor for
    each suspension point. The locale \<open>socket_poll\<close> (six interpretations) carries registration and frame
    properties; the locale \<open>socket_set_invariant\<close> says what a property of the socket set needs to be kept by
    every operation, interpreted for the validity of handles and for the content of other sockets.
  \<^item> \<open>Device\<close>: \<open>net/device.rs\<close>: the constructors of the interface, the netmask, the packet tokens.
  \<^item> \<open>Sys_Logger\<close>: the logger and the choice of its level filter (\<open>lib.rs\<close>).
  \<^item> \<open>Tcp_Syscalls\<close>: the exported TCP calls, \<open>network_init\<close> and \<open>sys_network_init\<close> (\<open>lib.rs\<close>).
  \<^item> \<open>Tcp_Stream\<close>: what the sockets promise together: an abstract machine \<open>byte_stream\<close> (bytes to read, bytes
    to send) for each connection, the step relation \<open>socket_step\<close> of what any thread does to the socket
    set under the mutex (whole polls, and the single sections under the lock that they are made of), the
    simulation of one by the other, and the read and write system calls as runs of it, during which other
    threads and the network do anything but read or write the same connection.
  \<^item> \<open>Message_Stream\<close>: the message loops of the network benchmark over those system calls.
  \<^item> \<open>Hermit_Abi\<close>: \<open>hermit-abi\<close>: types, constants, one definition for each wrapper.
  \<^item> \<open>Tcp_Backends\<close>: \<open>dummy.rs\<close>, the network stack as provider of the symbols, the signatures on both sides
    of the link, and the locale \<open>socket_option\<close> for the options of a socket.
  \<^item> \<open>Cmath\<close>: \<open>cmath.rs\<close>, one descriptor for each exported function.
  \<^item> \<open>Build_Script\<close>: \<open>build.rs\<close> as a program that stops or returns and leaves a trace of what it printed,
    started and wrote.
  \<^item> \<open>Morton_Order\<close>, \<open>Matmul\<close>, \<open>Matmul_Recursive\<close>: the matrix multiplications of
    \<open>examples/demo/src/tests/matmul.rs\<close>; the locale \<open>zorder_multiplier\<close> is the contract of a multiplication in
    Z-order, interpreted for the sequential, the recursive and the Strassen version.
  \<^item> \<open>Laplace\<close>: \<open>tests/laplace.rs\<close> and its setup; \<open>Demo_Tests\<close>: the tests for pi and the main programs;
    \<open>Demo_System\<close>: the tests that use files, threads, arguments and output, over the standard library as a
    record; \<open>Example_Programs\<close>: \<open>hello_world\<close> and the HTTP server \<open>httpd\<close>.
  \<^item> \<open>Netbench\<close>: the configuration, the message loops and the four programs of \<open>benches/netbench\<close>;
    \<open>Benchmarks\<close>: \<open>benches/micro\<close> and the report of the latency benchmark.
  \<^item> This theory: the properties that span components.

  \<^bold>\<open>What is shown.\<close> Of the network stack: pending futures have registered their waker, no wake-up is lost on a
  kernel that remembers wake-ups (and one can be lost on another), handles stay valid, every operation of
  every thread is a step of the abstract byte streams, so that the data of a connection arrive in order,
  completely, and the state of other connections is left alone, from \<open>poll\<close> up to the system calls and the messages of the
  benchmark, and a message that is buffered is received without waiting; what reads, writes and shutdowns
  return, when polling the interface returns and in which state, what happens without a network, what the initialisation returns and logs.
  Of the build: the exact trace of a successful build, that a failed one prints no link directive, that
  flags and constants survive their encoding, and that the configured addresses reach the interface.
  Of the algorithms: memory safety and correctness of the multiplications (the sequential ones over any
  element type, the parallel \<open>matmulz\<close> where addition is associative, Strassen over a ring), the Jacobi iteration with the maximum principle, the error of the midpoint rule. Of the benchmarks:
  that messages are sent and stored completely, when the programs cannot finish, and how often the micro
  benchmarks do what they measure. Of the examples: that the HTTP server answers every request, and that the
  file test reads back what it wrote and cleans up.

  \<^bold>\<open>Parameters and bounds.\<close> Third-party code and the kernel are parameters: smoltcp, async-task, the system
  calls, libm, rayon's sum, walkdir, the tools of the build host, clap, log, tiny_http, hdrhist; the operating
  system behind the standard library (files, threads, the clock) is one too. Every hypothesis on one of them is a
  named definition or a premise of the theorem, and each theorem with a premise has a witness. Floating-point
  numbers are an arbitrary element type or an ordered field: the numerical theorems do not account for
  rounding. Parallel iterators work on disjoint slices and are modelled in order. Machine integers are words
  where they can wrap; \<open>usize\<close> indices are naturals, and the theorems about \<open>seq_matmulz\<close> assume less than
  \<open>2 ^ 32\<close> elements because its counter has 32 bits.

  \<^bold>\<open>Not modelled.\<close> Log output other than that of \<open>sys_network_init\<close>; the times that the demo and the
  network benchmark print, and their progress messages; the contents of smoltcp's segments (the laws of
  \<open>Tcp_Stream\<close> state what its buffers do); a Windows build host; the kernel and the loader, which are
  submodules. Threads interleave between uses of the mutex, wherever a call is in the
  kernel (\<open>socket_run\<close>, \<open>background_run\<close>, \<open>executor_laws\<close>), and, in \<open>Park_Protocol\<close>, between single accesses;
  no other data race is modelled, and nothing is claimed of two threads that read the same connection at
  once. The theorems with the hypothesis \<open>kernel_frame\<close> exclude other threads during the call.
\<close>

section \<open>From the build script to the network interface\<close>

definition ipv4 :: "u8 \<times> u8 \<times> u8 \<times> u8 \<Rightarrow> Ipv4Address" where
  "ipv4 a = (case a of (a0, a1, a2, a3) \<Rightarrow> Ipv4Address a0 a1 a2 a3)"

text \<open>
  C13: the network configuration holds together from the build script to the network interface. With the
  environment variables unset or holding an address in dotted notation, the constants that
  \<open>create_constants\<close> generates, read back by the compiler, make \<open>NetworkInterface::new\<close> build an interface
  with the configured address and gateway (10.0.5.3 and 10.0.5.1 by default) and the prefix length of the
  configured netmask (24 by default), on every device that reports its MTU and its hardware address,
  provided that the stack accepts a default route. In particular none of its three \<open>expect\<close> calls on an address panics.
\<close>

theorem configuration_reaches_interface:
  fixes dev :: "'w netdev" and bld :: "('ifc, 'set, 'dhcp) smoltcp_builder"
  assumes "create_constants h s = (Ok u, s')"
    and "option_env h ''HERMIT_IP'' = map_option show_ipv4 env_ip"
    and "option_env h ''HERMIT_GATEWAY'' = map_option show_ipv4 env_gw"
    and "option_env h ''HERMIT_MASK'' = map_option show_ipv4 env_mask"
    and "sys_get_mtu dev w = (Ok m, w1)" and "sys_get_mac_address dev w1 = (Ok mac, w2)"
    and "\<forall>gw. Routes_add_default bld gw = Ok ()"
  shows "\<exists>ip gateway mask nic.
    map (\<lambda>(p, l). read_constant l) (drop (length (written s)) (written s')) =
      [Some (''HERMIT_IP'', ip), Some (''HERMIT_GATEWAY'', gateway), Some (''HERMIT_MASK'', mask)] \<and>
    NetworkInterface_new_static dev bld ip gateway mask w = Some (Return (Initialized nic), w2) \<and>
    iface nic =
      EthernetInterface_build bld m mac
        [CidrV4 (Ipv4Cidr (ipv4 (case env_ip of None \<Rightarrow> (10, 0, 5, 3) | Some a \<Rightarrow> a))
          (case env_mask of None \<Rightarrow> 24 | Some a \<Rightarrow> netmask_prefix_len a))]
        (Some (ipv4 (case env_gw of None \<Rightarrow> (10, 0, 5, 1) | Some a \<Rightarrow> a))) \<and>
    sockets nic = SocketSet_new bld"
proof -
  let ?ip = "case env_ip of None \<Rightarrow> (10, 0, 5, 3) | Some a \<Rightarrow> a"
    and ?gw = "case env_gw of None \<Rightarrow> (10, 0, 5, 1) | Some a \<Rightarrow> a"
    and ?mask = "case env_mask of None \<Rightarrow> (255, 255, 255, 0) | Some a \<Rightarrow> a"
  have defaults: "''10.0.5.3'' = show_ipv4 (10, 0, 5, 3)" "''10.0.5.1'' = show_ipv4 (10, 0, 5, 1)"
    "''255.255.255.0'' = show_ipv4 (255, 255, 255, 0)" by code_simp+
  have len: "netmask_prefix_len ?mask = (case env_mask of None \<Rightarrow> 24 | Some a \<Rightarrow> netmask_prefix_len a)"
    by (cases env_mask) (simp, code_simp, simp)
  have netc: "network_constants h =
      [(''HERMIT_IP'', show_ipv4 ?ip), (''HERMIT_GATEWAY'', show_ipv4 ?gw), (''HERMIT_MASK'', show_ipv4 ?mask)]"
    using assms(2-4) defaults by (simp add: network_constants_def split: option.split)
  have "\<forall>(n, v) \<in> set (network_constants h). CHR 0x22 \<notin> set v \<and> CHR 0x5C \<notin> set v"
    by (simp add: netc show_ipv4_plain)
  from create_constants_read [OF assms(1) this] obtain out where
    "map (\<lambda>(p, l). (p, read_constant l)) (drop (length (written s)) (written s'))
      = map (\<lambda>c. (path_join out ''constants.rs'', Some c)) (network_constants h)" by blast
  from arg_cong [OF this, of "map snd"]
  have "map snd (map (\<lambda>(p, l). (p, read_constant l)) (drop (length (written s)) (written s'))) = map Some (network_constants h)"
    by (simp only: map_map o_def snd_conv)
  then have read: "map (\<lambda>(p, l). read_constant l) (drop (length (written s)) (written s')) =
      [Some (''HERMIT_IP'', show_ipv4 ?ip), Some (''HERMIT_GATEWAY'', show_ipv4 ?gw), Some (''HERMIT_MASK'', show_ipv4 ?mask)]"
    by (simp add: netc split_def o_def)
  have "\<exists>nic. NetworkInterface_new_static dev bld (show_ipv4 ?ip) (show_ipv4 ?gw) (show_ipv4 ?mask) w
      = Some (Return (Initialized nic), w2) \<and>
      iface nic = EthernetInterface_build bld m mac
        [CidrV4 (Ipv4Cidr (ipv4 ?ip) (case env_mask of None \<Rightarrow> 24 | Some a \<Rightarrow> netmask_prefix_len a))] (Some (ipv4 ?gw)) \<and>
      sockets nic = SocketSet_new bld"
    unfolding len [symmetric]
    using assms(5-7) by (cases ?ip; cases ?gw)
      (simp add: NetworkInterface_new_static_def HermitNet_new_def ipv4_def Let_def)
  with read show ?thesis by (elim exE) (rule exI, rule exI, rule exI, rule exI, rule conjI)
qed

definition plain_builder :: "(IpCidr list \<times> Ipv4Address option, unit, unit) smoltcp_builder" where
  "plain_builder = \<lparr>EthernetInterface_build = (\<lambda>m mac addrs gw. (addrs, gw)), Routes_add_default = (\<lambda>_. Ok ()),
     SocketSet_new = (), Dhcpv4Client_new = (\<lambda>_ _ _ s. ((), s))\<rparr>"

theorem configuration_reaches_interface_witness:
  "\<exists>ip gateway mask nic.
    map (\<lambda>(p, l). read_constant l) (written (snd (create_constants demo_host demo_start))) =
      [Some (''HERMIT_IP'', ip), Some (''HERMIT_GATEWAY'', gateway), Some (''HERMIT_MASK'', mask)] \<and>
    NetworkInterface_new_static pool_dev plain_builder ip gateway mask ([], []) = Some (Return (Initialized nic), ([], [])) \<and>
    iface nic = ([CidrV4 (Ipv4Cidr (Ipv4Address 10 0 5 3) 24)], Some (Ipv4Address 10 0 5 1))"
proof -
  have run: "create_constants demo_host demo_start = (Ok (), snd (create_constants demo_host demo_start))"
    by (simp add: create_constants_def writeln_def demo_host_def demo_start_def sbind_def Let_def)
  have env: "option_env demo_host n = map_option show_ipv4 None" for n by (simp add: demo_host_def)
  have dev: "sys_get_mtu pool_dev ([], []) = (Ok 1500, ([], []))"
    "sys_get_mac_address pool_dev ([], []) = (Ok [2, 0, 0, 0, 0, 1], ([], []))"
    "\<forall>gw. Routes_add_default plain_builder gw = Ok ()"
    by (simp_all add: pool_dev_def plain_builder_def)
  have all: "drop (length (written demo_start)) xs = xs" for xs by (simp add: demo_start_def)
  have build: "EthernetInterface_build plain_builder m mac addrs gw = (addrs, gw)" for m mac addrs gw
    by (simp add: plain_builder_def)
  from configuration_reaches_interface [OF run env env env dev] show ?thesis
    unfolding all build ipv4_def option.case prod.case by (elim exE conjE) (intro exI conjI)
qed

section \<open>From the benchmark to the network stack\<close>

text \<open>
  C35: the network benchmarks do not run with their default configuration on RustyHermit: each of the four
  programs asks for a non-blocking stream, \<open>sys_tcp_stream_set_nonblocking\<close> always fails, and the program
  panics at that point, in the world in which its connection was made, so that it has sent and received
  nothing. A client that cannot connect ends (bandwidth) or sleeps a second and starts over (latency); a
  server whose socket calls fail panics in them. \<open>lib\<close> is the standard library of the target, which passes
  the two settings to \<open>hermit-abi\<close>.
\<close>

theorem benchmark_defaults_panic:
  assumes "\<forall>s b. stream_set_nodelay lib s b = pbind (tcpstream_set_nodelay s b) (\<lambda>r. pret (map_err e r))"
    and "\<forall>s b. stream_set_nonblocking lib s b =
      pbind (tcpstream_set_nonblocking (net_symbols api k) s b) (\<lambda>r. pret (map_err e r))"
  shows "(stream_connect lib ''127.0.0.1:7878'' w = Some (Return (Ok s), w1) \<longrightarrow>
      bw_client_main lib default_args w = Some (Panic ''Can't set channel to be non-blocking'', w1) \<and>
      latency_client_main lib default_args w = Some (Panic ''Can't set channel to be non-blocking'', w1)) \<and>
    (stream_connect lib ''127.0.0.1:7878'' w = Some (Return (Err x), w1) \<longrightarrow>
      bw_client_main lib default_args w = Some (Return (), w1) \<and>
      (sleep_secs lib 1 w1 = Some (Return (), w2) \<longrightarrow>
        latency_client_main lib default_args w = latency_client_main lib default_args w2)) \<and>
    (server_listen_and_get_first_connection lib ''7878'' w = Some (Return s, w1) \<longrightarrow>
      bw_server_main lib default_args w = Some (Panic ''Can't set channel to be non-blocking'', w1) \<and>
      latency_server_main lib default_args w = Some (Panic ''Can't set channel to be non-blocking'', w1)) \<and>
    (server_listen_and_get_first_connection lib ''7878'' w = Some (Panic msg, w1) \<longrightarrow>
      bw_server_main lib default_args w = Some (Panic msg, w1) \<and>
      latency_server_main lib default_args w = Some (Panic msg, w1))"
proof -
  define c where "c = \<lparr>address = ''127.0.0.1'', port = ''7878'', n_bytes = 1, n_rounds = 100000,
    no_delay = True, non_blocking = True, p_id = - 1\<rparr>"
  note cfg = default_config [folded c_def]
  have c: "address c = ''127.0.0.1''" "port c = ''7878''" "n_bytes c = 1" "n_rounds c = 100000"
    "no_delay c" "non_blocking c" by (simp_all add: c_def)
  let ?body = "latency_connect_body lib c 2000 [0]"
  have refused: "connection_setup lib c s w = Some (Panic ''Can't set channel to be non-blocking'', w)" for s w
    using assms c by (simp add: connection_setup_def tcpstream_set_nodelay_def net_option_defs)
  have pmul: "pmul 100000 n = pret (100000 * n)" if "n < 1000" for n
    using that by (simp add: pmul_def)
  have addr: "client_connect lib (address_and_port c) = stream_connect lib ''127.0.0.1:7878''"
    by (simp add: client_connect_def address_and_port_def c)
  have latency: "latency_client_main lib default_args v = rust_loop ?body [0] v" for v
    by (simp add: latency_client_main_def cfg c pmul)
  have again: "rust_loop ?body [0] w = rust_loop ?body [0] w2"
    if "stream_connect lib ''127.0.0.1:7878'' w = Some (Return (Err x), w1)"
      and "sleep_secs lib 1 w1 = Some (Return (), w2)"
    by (rule rust_loop_Continue) (use that in \<open>simp add: latency_connect_body_def addr\<close>)
  have stop: "rust_loop ?body [0] w = Some (Panic ''Can't set channel to be non-blocking'', w1)"
    if "stream_connect lib ''127.0.0.1:7878'' w = Some (Return (Ok s), w1)"
    by (rule rust_loop_Panic) (use that in \<open>simp add: latency_connect_body_def addr refused\<close>)
  show ?thesis
    by (intro conjI impI)
      (simp_all add: bw_client_main_def bw_server_main_def latency_server_main_def cfg c addr refused
        latency again stop pmul)
qed

text \<open>A standard library that passes the two settings on and fails everything else.\<close>

definition forwarding_lib :: "(demo_world, Handle) netlib" where
  "forwarding_lib = \<lparr>
     stream_write = (\<lambda>_ _. pret (Err WouldBlock)), stream_read = (\<lambda>_ _. pret (Err WouldBlock)),
     stream_read_exact = (\<lambda>_ _. pret (Err WouldBlock)), stream_flush = (\<lambda>_. pret (Ok ())),
     stream_set_nodelay = (\<lambda>s b. pbind (tcpstream_set_nodelay s b) (\<lambda>r. pret (map_err (\<lambda>_. OtherIo 0) r))),
     stream_set_nonblocking = (\<lambda>s b. pbind (tcpstream_set_nonblocking (net_symbols demo_stack demo_kernel) s b)
       (\<lambda>r. pret (map_err (\<lambda>_. OtherIo 0) r))),
     stream_shutdown_both = (\<lambda>_. pret (Ok ())), stream_peer_addr = (\<lambda>_. pret (Ok ())),
     stream_connect = (\<lambda>_. pret (Ok 0)), listener_bind = (\<lambda>_. pret (Ok ())), listener_next = pret (Ok 0),
     get_core_ids = pret None, set_for_current = (\<lambda>_. pret ()), nanos_now = pret 0,
     hist_add_value = (\<lambda>_. pret ()), sleep_secs = (\<lambda>_. pret ())\<rparr>"

theorem benchmark_defaults_panic_witness:
  "bw_client_main forwarding_lib default_args demo_world0
     = Some (Panic ''Can't set channel to be non-blocking'', demo_world0) \<and>
   latency_server_main forwarding_lib default_args demo_world0
     = Some (Panic ''Can't set channel to be non-blocking'', demo_world0)"
proof -
  have "stream_connect forwarding_lib ''127.0.0.1:7878'' demo_world0 = Some (Return (Ok 0), demo_world0)"
    and "server_listen_and_get_first_connection forwarding_lib ''7878'' demo_world0 = Some (Return 0, demo_world0)"
    by (simp_all add: forwarding_lib_def server_listen_and_get_first_connection_def)
  with benchmark_defaults_panic [of forwarding_lib "\<lambda>_. OtherIo 0" demo_stack demo_kernel demo_world0 0 demo_world0]
  show ?thesis by (simp add: forwarding_lib_def)
qed

end
